(* ===== verification/Prelude.thy ===== *)
theory Prelude
  imports Main "HOL-Library.Char_ord" "HOL-Library.List_Lexorder" "HOL-Library.Sublist"
begin

text \<open>
  Shared vocabulary of the development.

  The types that stand for Go's own notions: error values (\<open>go_error\<close>, with the sentinel
  errors the code compares against), a run that may panic (\<open>go\<close>), decimal formatting of
  integers (\<open>itoa\<close>, the \<open>%d\<close> verb and \<open>strconv.Itoa\<close>), the int64 range and its wrap-around.
  The generic lemmas about folds, maps, strings and sorted lists that several components use.
  The collection \<open>go_simps\<close> gathers the unfolding rules of the small accessor functions.
\<close>

named_theorems go_simps \<open>unfolding rules of the accessors and constructors of the model\<close>

section \<open>Errors and panics\<close>

text \<open>
  A Go error is a value with a message. The code compares two sentinels by identity or by
  message (\<open>badger.ErrKeyNotFound\<close>, \<open>gorm.ErrRecordNotFound\<close>) and tests for the two context
  errors; every other error is its message.
\<close>

datatype go_error =
    ErrKeyNotFound
  | ErrRecordNotFound
  | ErrContextCanceled
  | ErrDeadlineExceeded
  | ErrMsg string

fun error_msg :: "go_error \<Rightarrow> string" where
  "error_msg ErrKeyNotFound = ''Key not found''"
| "error_msg ErrRecordNotFound = ''record not found''"
| "error_msg ErrContextCanceled = ''context canceled''"
| "error_msg ErrDeadlineExceeded = ''context deadline exceeded''"
| "error_msg (ErrMsg s) = s"

text \<open>A computation that may panic (nil dereference, write to a nil map, index out of range).\<close>

datatype (go_set: 'a) go = Panic string | Ret 'a
  for map: map_go

fun go_bind :: "'a go \<Rightarrow> ('a \<Rightarrow> 'b go) \<Rightarrow> 'b go" where
  "go_bind (Panic s) f = Panic s"
| "go_bind (Ret x) f = f x"

lemma go_bind_Ret_iff: "go_bind m f = Ret y \<longleftrightarrow> (\<exists>x. m = Ret x \<and> f x = Ret y)"
  by (cases m) auto

lemma go_bind_cong [fundef_cong]:
  "m = m' \<Longrightarrow> (\<And>x. m' = Ret x \<Longrightarrow> f x = f' x) \<Longrightarrow> go_bind m f = go_bind m' f'"
  by (cases m') auto

section \<open>Machine integers\<close>

definition MaxInt64 :: int where "MaxInt64 = 9223372036854775807"

definition MinInt64 :: int where "MinInt64 = -9223372036854775808"

text \<open>The value a 64-bit two's complement register holds after an operation on integers.\<close>

definition wrap64 :: "int \<Rightarrow> int" where
  "wrap64 x = (x + 9223372036854775808) mod 18446744073709551616 - 9223372036854775808"

lemma wrap64_id: "MinInt64 \<le> x \<Longrightarrow> x \<le> MaxInt64 \<Longrightarrow> wrap64 x = x"
  by (simp add: wrap64_def MinInt64_def MaxInt64_def)

lemma wrap64_range: "MinInt64 \<le> wrap64 x \<and> wrap64 x \<le> MaxInt64"
proof -
  have "0 \<le> (x + 9223372036854775808) mod 18446744073709551616"
    and "(x + 9223372036854775808) mod 18446744073709551616 < 18446744073709551616"
    by simp_all
  then show ?thesis unfolding wrap64_def MinInt64_def MaxInt64_def by linarith
qed

section \<open>Decimal formatting\<close>

definition digit_char :: "int \<Rightarrow> char" where
  "digit_char n = char_of (48 + nat n)"

function int_digits :: "int \<Rightarrow> string" where
  "int_digits n =
     (if n < 10 then [digit_char n] else int_digits (n div 10) @ [digit_char (n mod 10)])"
  by pat_completeness auto
termination
  by (relation "measure nat") auto

declare int_digits.simps [simp del]

text \<open>The \<open>%d\<close> verb.\<close>

definition itoa :: "int \<Rightarrow> string" where
  "itoa i = (if i < 0 then CHR ''-'' # int_digits (- i) else int_digits i)"

definition is_digit :: "char \<Rightarrow> bool" where
  "is_digit c \<longleftrightarrow> 48 \<le> (of_char c :: nat) \<and> (of_char c :: nat) \<le> 57"

definition digit_val :: "char \<Rightarrow> int" where
  "digit_val c = of_char c - 48"

fun digits_val_acc :: "int \<Rightarrow> string \<Rightarrow> int" where
  "digits_val_acc n [] = n"
| "digits_val_acc n (c # cs) = digits_val_acc (10 * n + digit_val c) cs"

definition digits_val :: "string \<Rightarrow> int" where
  "digits_val = digits_val_acc 0"

lemma of_char_digit_char:
  assumes "0 \<le> n" and "n < 10"
  shows "(of_char (digit_char n) :: nat) = 48 + nat n"
  using assms by (simp add: digit_char_def nat_less_iff)

lemma is_digit_digit_char [simp]: "0 \<le> n \<Longrightarrow> n < 10 \<Longrightarrow> is_digit (digit_char n)"
  by (simp add: is_digit_def of_char_digit_char nat_less_iff)

lemma of_char_int: "(of_char c :: int) = int (of_char c)"
  by (metis of_nat_of_char)

lemma digit_val_digit_char [simp]: "0 \<le> n \<Longrightarrow> n < 10 \<Longrightarrow> digit_val (digit_char n) = n"
  by (simp add: digit_val_def of_char_int of_char_digit_char)

lemma digits_val_acc_append:
  "digits_val_acc n (xs @ ys) = digits_val_acc (digits_val_acc n xs) ys"
  by (induction xs arbitrary: n) auto

lemma int_digits_all: "0 \<le> n \<Longrightarrow> list_all is_digit (int_digits n)"
proof (induction n rule: int_digits.induct)
  case (1 n)
  then show ?case by (subst int_digits.simps) auto
qed

lemma int_digits_nonempty [simp]: "int_digits n \<noteq> []"
  by (subst int_digits.simps) simp

lemma digits_val_int_digits [simp]: "0 \<le> n \<Longrightarrow> digits_val (int_digits n) = n"
proof (induction n rule: int_digits.induct)
  case (1 n)
  show ?case
  proof (cases "n < 10")
    case True
    with 1 show ?thesis by (subst int_digits.simps) (simp add: digits_val_def)
  next
    case False
    with 1 have "digits_val (int_digits (n div 10)) = n div 10" by simp
    with False show ?thesis
      by (subst int_digits.simps) (simp add: digits_val_def digits_val_acc_append)
  qed
qed

lemma is_digit_minus [simp]: "\<not> is_digit (CHR ''-'')"
  by (simp add: is_digit_def)

lemma minus_notin_int_digits: "0 \<le> n \<Longrightarrow> CHR ''-'' \<notin> set (int_digits n)"
  using int_digits_all [of n] by (auto simp: list_all_iff)

lemma itoa_nonneg_no_minus: "0 \<le> i \<Longrightarrow> CHR ''-'' \<notin> set (itoa i)"
  by (simp add: itoa_def minus_notin_int_digits)

lemma itoa_inj: "itoa i = itoa j \<Longrightarrow> i = j"
proof -
  assume eq: "itoa i = itoa j"
  show "i = j"
  proof (cases "i < 0 \<longleftrightarrow> j < 0")
    case True
    with eq have "int_digits \<bar>i\<bar> = int_digits \<bar>j\<bar>" by (auto simp: itoa_def split: if_splits)
    then have "\<bar>i\<bar> = \<bar>j\<bar>" by (metis abs_ge_zero digits_val_int_digits)
    with True show ?thesis by linarith
  next
    case False
    have "hd (itoa k) = CHR ''-'' \<longleftrightarrow> k < 0" for k
    proof (cases "k < 0")
      case False
      have "hd (int_digits k) \<in> set (int_digits k)" by simp
      then have "hd (int_digits k) \<noteq> CHR ''-''"
        using minus_notin_int_digits [of k] False by force
      with False show ?thesis by (simp add: itoa_def)
    qed (simp add: itoa_def)
    with eq False show ?thesis by metis
  qed
qed

section \<open>Strings with separators\<close>

text \<open>
  The last occurrence of a separator splits a string uniquely, and so does the first.
\<close>

lemma split_first_sep:
  "xs @ c # ys = xs' @ c # ys' \<Longrightarrow> c \<notin> set xs \<Longrightarrow> c \<notin> set xs' \<Longrightarrow> xs = xs' \<and> ys = ys'"
proof (induction xs arbitrary: xs')
  case Nil
  then show ?case by (cases xs') auto
next
  case (Cons x xs)
  then show ?case by (cases xs') auto
qed

lemma split_last_sep:
  assumes "xs @ c # ys = xs' @ c # ys'" and "c \<notin> set ys" and "c \<notin> set ys'"
  shows "xs = xs' \<and> ys = ys'"
proof -
  have "rev (xs @ c # ys) = rev (xs' @ c # ys')" using assms(1) by simp
  then have "rev ys @ c # rev xs = rev ys' @ c # rev xs'" by simp
  then show ?thesis using assms(2,3) by (auto dest: split_first_sep)
qed

section \<open>The first maximal element\<close>

text \<open>A loop that keeps the best element seen so far and replaces it only by a strictly better one.\<close>

fun first_max :: "('a \<Rightarrow> 'b::linorder) \<Rightarrow> 'a \<Rightarrow> 'a list \<Rightarrow> 'a" where
  "first_max r b [] = b"
| "first_max r b (x # xs) = (if r b < r x then first_max r x xs else first_max r b xs)"

lemma first_max_in: "first_max r b xs \<in> set (b # xs)"
  by (induction xs arbitrary: b) auto

lemma first_max_ge: "x \<in> set (b # xs) \<Longrightarrow> r x \<le> r (first_max r b xs)"
proof (induction xs arbitrary: b x)
  case (Cons y ys)
  show ?case
  proof (cases "r b < r y")
    case True
    have "r y \<le> r (first_max r y ys)" by (rule Cons.IH) simp
    with True Cons.IH [of x y] Cons.prems show ?thesis by auto
  next
    case False
    have "r b \<le> r (first_max r b ys)" by (rule Cons.IH) simp
    with False Cons.IH [of x b] Cons.prems show ?thesis by auto
  qed
qed simp

lemma first_max_unique:
  assumes "set (b # xs) = set (c # ys)" and "inj_on r (set (b # xs))"
  shows "first_max r b xs = first_max r c ys"
proof -
  have "first_max r b xs \<in> set (c # ys)" "first_max r c ys \<in> set (b # xs)"
    using first_max_in [of r b xs] first_max_in [of r c ys] unfolding assms(1) by simp_all
  then have "r (first_max r b xs) = r (first_max r c ys)"
    by (intro antisym first_max_ge)
  then show ?thesis
    by (rule inj_onD [OF assms(2) _ first_max_in \<open>first_max r c ys \<in> set (b # xs)\<close>])
qed

end
