(* ===== verification/Go_Result.thy ===== *)
theory Go_Result
  imports Prelude
begin

text \<open>
  utils/result.go: the result type every operation of the processor returns. A result holds a
  value, an error (nil on success), optional error details and the two flags that decide what
  the processor does with a failure: \<open>Retryable\<close> (leave the record uncommitted) and \<open>Capture\<close>
  (report it).

  \<open>res_value\<close> is an option: \<open>None\<close> is the zero value of the Go type, which is what a failed
  result holds. For a pointer type \<open>Result[*T]\<close> the value type is \<open>'t option\<close>, so that a
  successful nil pointer is \<open>Some None\<close>.
\<close>

record error_details =
  det_Code :: string
  det_Message :: string

record 'a result =
  res_value :: "'a option"
  res_err :: "go_error option"
  res_details :: "error_details option"
  Retryable :: bool
  Capture :: bool

definition Success :: "'a result \<Rightarrow> bool" where
  "Success r \<longleftrightarrow> res_err r = None"

definition Failure :: "'a result \<Rightarrow> bool" where
  "Failure r \<longleftrightarrow> res_err r \<noteq> None"

definition Value :: "'a result \<Rightarrow> 'a option" where
  "Value r = res_value r"

definition ValueOrPanic :: "'a result \<Rightarrow> 'a option go" where
  "ValueOrPanic r =
     (case res_err r of Some e \<Rightarrow> Panic (error_msg e) | None \<Rightarrow> Ret (res_value r))"

definition Error :: "'a result \<Rightarrow> go_error option" where
  "Error r = res_err r"

definition ErrorMsg :: "'a result \<Rightarrow> string" where
  "ErrorMsg r = (case res_err r of None \<Rightarrow> '''' | Some e \<Rightarrow> error_msg e)"

definition AddErrorDetails :: "string \<Rightarrow> string \<Rightarrow> 'a result \<Rightarrow> 'a result" where
  "AddErrorDetails code message r =
     r\<lparr>res_details := Some \<lparr>det_Code = code, det_Message = message\<rparr>\<rparr>"

definition NonRetryable :: "'a result \<Rightarrow> 'a result" where
  "NonRetryable r = r\<lparr>Retryable := False\<rparr>"

definition IsRetryable :: "'a result \<Rightarrow> bool" where
  "IsRetryable r = Retryable r"

definition NonCapturable :: "'a result \<Rightarrow> 'a result" where
  "NonCapturable r = r\<lparr>Capture := False\<rparr>"

definition IsCapturable :: "'a result \<Rightarrow> bool" where
  "IsCapturable r = Capture r"

definition ErrorDetails :: "'a result \<Rightarrow> error_details option" where
  "ErrorDetails r = res_details r"

definition ErrorCode :: "'a result \<Rightarrow> string" where
  "ErrorCode r = (case res_details r of None \<Rightarrow> '''' | Some d \<Rightarrow> det_Code d)"

definition ErrorMessage :: "'a result \<Rightarrow> string" where
  "ErrorMessage r = (case res_details r of None \<Rightarrow> '''' | Some d \<Rightarrow> det_Message d)"

definition SuccessResult :: "'a \<Rightarrow> 'a result" where
  "SuccessResult v =
     \<lparr>res_value = Some v, res_err = None, res_details = None, Retryable = False, Capture = False\<rparr>"

text \<open>A nil error given to \<open>FailedResult\<close> makes a result that counts as a success, as in Go.\<close>

definition FailedResult_err :: "go_error option \<Rightarrow> 'a result" where
  "FailedResult_err e =
     \<lparr>res_value = None, res_err = e, res_details = None, Retryable = True, Capture = True\<rparr>"

abbreviation FailedResult :: "go_error \<Rightarrow> 'a result" where
  "FailedResult e \<equiv> FailedResult_err (Some e)"

definition FailedBoolResult :: "go_error \<Rightarrow> bool result" where
  "FailedBoolResult e =
     \<lparr>res_value = None, res_err = Some e, res_details = None, Retryable = True, Capture = True\<rparr>"

declare Success_def [go_simps] Failure_def [go_simps] Value_def [go_simps] Error_def [go_simps]
  ErrorMsg_def [go_simps] AddErrorDetails_def [go_simps] NonRetryable_def [go_simps]
  IsRetryable_def [go_simps] NonCapturable_def [go_simps] IsCapturable_def [go_simps]
  ErrorCode_def [go_simps] ErrorMessage_def [go_simps] SuccessResult_def [go_simps]
  FailedResult_err_def [go_simps] FailedBoolResult_def [go_simps] ErrorDetails_def [go_simps]

section \<open>What the combinators keep\<close>

lemma Failure_iff [simp]: "Failure r \<longleftrightarrow> \<not> Success r"
  by (simp add: Success_def Failure_def)

lemma Success_results [simp]:
  "Success (SuccessResult v)" "\<not> Success (FailedResult e :: 'b result)"
  "\<not> Success (FailedBoolResult e)"
  by (simp_all add: go_simps)

lemma Success_modifiers [simp]:
  "Success (NonRetryable r) = Success r" "Success (NonCapturable r) = Success r"
  "Success (AddErrorDetails c m r) = Success r"
  by (simp_all add: go_simps)

lemma Value_SuccessResult [simp]: "Value (SuccessResult v) = Some v"
  by (simp add: go_simps)

lemma flags_FailedResult [simp]:
  "IsRetryable (FailedResult e :: 'b result)" "IsCapturable (FailedResult e :: 'b result)"
  "IsRetryable (FailedBoolResult e)" "IsCapturable (FailedBoolResult e)"
  by (simp_all add: go_simps)

lemma flags_modifiers [simp]:
  "\<not> IsRetryable (NonRetryable r)" "IsRetryable (NonCapturable r) = IsRetryable r"
  "\<not> IsCapturable (NonCapturable r)" "IsCapturable (NonRetryable r) = IsCapturable r"
  "IsRetryable (AddErrorDetails c m r) = IsRetryable r"
  "IsCapturable (AddErrorDetails c m r) = IsCapturable r"
  by (simp_all add: go_simps)

lemma Error_simps [simp]:
  "Error (FailedResult_err e) = e" "Error (SuccessResult v) = None"
  "Error (FailedBoolResult f) = Some f"
  "Error (NonRetryable r) = Error r" "Error (NonCapturable r) = Error r"
  "Error (AddErrorDetails c m r) = Error r"
  by (simp_all add: go_simps)

lemma details_simps [simp]:
  "ErrorCode (AddErrorDetails c m r) = c" "ErrorMessage (AddErrorDetails c m r) = m"
  "ErrorCode (NonRetryable r) = ErrorCode r" "ErrorMessage (NonRetryable r) = ErrorMessage r"
  "ErrorCode (NonCapturable r) = ErrorCode r" "ErrorMessage (NonCapturable r) = ErrorMessage r"
  "ErrorCode (FailedResult e :: 'b result) = ''''" "ErrorMessage (FailedResult e :: 'b result) = ''''"
  by (simp_all add: go_simps)

lemma Failure_Error: "\<not> Success r \<Longrightarrow> \<exists>e. Error r = Some e"
  by (simp add: go_simps)

end
