(* ===== verification/Kafka_Consumer.thy ===== *)
theory Kafka_Consumer
  imports Go_Result "HOL-Library.Multiset"
begin

text \<open>
  config/kafka/consumer.go: the partition consumer of the raw events topic.

  The Kafka client is a parameter: \<open>commit\<close> stands for \<open>kgo.Client.CommitRecords\<close>, a function
  of the records to commit and of the outside world that returns the error (nil is \<open>None\<close>) and
  the new world. The record handler \<open>processRecords\<close> is the field of the same name, which the
  event processor provides. Log lines are left out.
\<close>

section \<open>Records\<close>

record 'v kgo_record =
  rec_Topic :: string
  rec_Partition :: int
  rec_Key :: string
  rec_Value :: 'v
  rec_Offset :: int

text \<open>The key \<open>fmt.Sprintf("%s-%d", string(record.Key), record.Offset)\<close>.\<close>

definition commit_key :: "('v, 'm) kgo_record_scheme \<Rightarrow> string" where
  "commit_key r = rec_Key r @ ''-'' @ itoa (rec_Offset r)"

section \<open>findMaxCommitableRecord\<close>

text \<open>The first loop: the set of keys of the processed records (a \<open>map[string]bool\<close>).\<close>

fun mark_processed :: "(string \<rightharpoonup> bool) \<Rightarrow> 'v kgo_record list \<Rightarrow> (string \<rightharpoonup> bool)" where
  "mark_processed m [] = m"
| "mark_processed m (r # rs) = mark_processed (m(commit_key r \<mapsto> True)) rs"

definition map_get_bool :: "(string \<rightharpoonup> bool) \<Rightarrow> string \<Rightarrow> bool" where
  "map_get_bool m k = (case m k of None \<Rightarrow> False | Some b \<Rightarrow> b)"

text \<open>The second loop: the lowest offset of a record whose key is not in the map.\<close>

fun min_unprocessed :: "(string \<rightharpoonup> bool) \<Rightarrow> int \<Rightarrow> bool \<Rightarrow> 'v kgo_record list \<Rightarrow> int" where
  "min_unprocessed m mn found [] = mn"
| "min_unprocessed m mn found (r # rs) =
     (if \<not> map_get_bool m (commit_key r)
      then (if \<not> found \<or> rec_Offset r < mn then min_unprocessed m (rec_Offset r) True rs
            else min_unprocessed m mn found rs)
      else min_unprocessed m mn found rs)"

text \<open>The third loop: the processed record of highest offset strictly below that bound.\<close>

fun max_below :: "int \<Rightarrow> 'v kgo_record option \<Rightarrow> 'v kgo_record list \<Rightarrow> 'v kgo_record option" where
  "max_below b mx [] = mx"
| "max_below b mx (r # rs) =
     (if rec_Offset r < b \<and> (case mx of None \<Rightarrow> True | Some x \<Rightarrow> rec_Offset x < rec_Offset r)
      then max_below b (Some r) rs else max_below b mx rs)"

definition findMaxCommitableRecord ::
    "'v kgo_record list \<Rightarrow> 'v kgo_record list \<Rightarrow> 'v kgo_record option \<times> bool" where
  "findMaxCommitableRecord processedRecords records =
     (let processedMap = mark_processed Map.empty processedRecords;
          minUnprocessedOffset = min_unprocessed processedMap MaxInt64 False records;
          maxRecord = max_below minUnprocessedOffset None processedRecords
      in (maxRecord, maxRecord \<noteq> None))"

section \<open>processRecordsAndCommit\<close>

text \<open>
  The commit itself, with its error branch: the error is captured after a log line that reads
  the last record of the batch, which panics on an empty batch.
\<close>

definition commit_records ::
    "('v kgo_record list \<Rightarrow> 'w \<Rightarrow> go_error option \<times> 'w) \<Rightarrow> (go_error \<Rightarrow> 'w \<Rightarrow> 'w)
     \<Rightarrow> 'v kgo_record list \<Rightarrow> 'v kgo_record list \<Rightarrow> 'w \<Rightarrow> 'w go" where
  "commit_records commit capture records commitableRecords w =
     (case commit commitableRecords w of
        (None, w') \<Rightarrow> Ret w'
      | (Some e, w') \<Rightarrow>
          (if records = [] then Panic ''index out of range [-1]'' else Ret (capture e w')))"

text \<open>
  What is handed to the commit: the whole batch when every record was processed, the one record
  found by \<open>findMaxCommitableRecord\<close> otherwise, nothing (\<open>None\<close>) when there is none.
\<close>

definition commitable_records ::
    "'v kgo_record list \<Rightarrow> 'v kgo_record list \<Rightarrow> 'v kgo_record list option" where
  "commitable_records processedRecords records =
     (if length processedRecords \<noteq> length records
      then (case findMaxCommitableRecord processedRecords records of
              (Some record, True) \<Rightarrow> Some [record]
            | _ \<Rightarrow> None)
      else Some records)"

definition processRecordsAndCommit ::
    "('v kgo_record list \<Rightarrow> 'w \<Rightarrow> 'v kgo_record list \<times> 'w)
     \<Rightarrow> ('v kgo_record list \<Rightarrow> 'w \<Rightarrow> go_error option \<times> 'w) \<Rightarrow> (go_error \<Rightarrow> 'w \<Rightarrow> 'w)
     \<Rightarrow> 'v kgo_record list \<Rightarrow> 'w \<Rightarrow> 'w go" where
  "processRecordsAndCommit processRecords commit capture records w =
     (case processRecords records w of (processedRecords, w1) \<Rightarrow>
        (case commitable_records processedRecords records of
           None \<Rightarrow> Ret w1
         | Some commitableRecords \<Rightarrow>
             commit_records commit capture records commitableRecords w1))"

section \<open>The consume loop\<close>

text \<open>
  One event per iteration of the \<open>select\<close>: the quit channel was closed, the context is done, or
  a batch arrived. The result says whether the goroutine has returned (its \<open>done\<close> channel is
  closed) or still waits; a panic of the handler ends the run.
\<close>

datatype 'v pc_event = Quit | CtxDone | Batch "'v kgo_record list"

fun consume ::
    "('v kgo_record list \<Rightarrow> 'w \<Rightarrow> 'v kgo_record list \<times> 'w)
     \<Rightarrow> ('v kgo_record list \<Rightarrow> 'w \<Rightarrow> go_error option \<times> 'w) \<Rightarrow> (go_error \<Rightarrow> 'w \<Rightarrow> 'w)
     \<Rightarrow> 'v pc_event list \<Rightarrow> 'w \<Rightarrow> ('w \<times> bool) go" where
  "consume processRecords commit capture [] w = Ret (w, False)"
| "consume processRecords commit capture (Quit # es) w = Ret (w, True)"
| "consume processRecords commit capture (CtxDone # es) w = Ret (w, True)"
| "consume processRecords commit capture (Batch records # es) w =
     go_bind (processRecordsAndCommit processRecords commit capture records w)
       (consume processRecords commit capture es)"

section \<open>Facts about the three loops\<close>

lemma map_get_bool_mark_processed:
  "map_get_bool (mark_processed m rs) k \<longleftrightarrow> k \<in> commit_key ` set rs \<or> map_get_bool m k"
  by (induction rs arbitrary: m) (auto simp: map_get_bool_def)

lemma map_get_bool_marked [simp]:
  "map_get_bool (mark_processed Map.empty rs) k \<longleftrightarrow> k \<in> commit_key ` set rs"
  by (simp add: map_get_bool_mark_processed) (simp add: map_get_bool_def)

lemma min_unprocessed_le:
  "(found \<longrightarrow> min_unprocessed m mn found rs \<le> mn) \<and>
   (\<forall>r \<in> set rs. \<not> map_get_bool m (commit_key r) \<longrightarrow>
      min_unprocessed m mn found rs \<le> rec_Offset r)"
proof (induction rs arbitrary: mn found)
  case (Cons r rs)
  show ?case
    using Cons.IH [of True "rec_Offset r"] Cons.IH [of found mn] by auto
qed simp

lemma min_unprocessed_attained:
  "min_unprocessed m mn found rs = mn \<or>
   (\<exists>r \<in> set rs. \<not> map_get_bool m (commit_key r) \<and> min_unprocessed m mn found rs = rec_Offset r)"
proof (induction rs arbitrary: mn found)
  case (Cons r rs)
  show ?case
    using Cons.IH [of "rec_Offset r" True] Cons.IH [of mn found] by auto
qed simp

lemma max_below_Some:
  "max_below b mx rs = Some x \<Longrightarrow>
     mx = Some x \<or> (x \<in> set rs \<and> rec_Offset x < b)"
  by (induction rs arbitrary: mx) (auto split: if_splits)

lemma max_below_ge_start: "max_below b (Some y) rs = Some x \<Longrightarrow> rec_Offset y \<le> rec_Offset x"
  by (induction rs arbitrary: y) (fastforce split: if_splits)+

lemma max_below_not_None: "max_below b (Some y) rs \<noteq> None"
  by (induction rs arbitrary: y) auto

lemma max_below_complete:
  "r \<in> set rs \<Longrightarrow> rec_Offset r < b \<Longrightarrow>
     \<exists>x. max_below b mx rs = Some x \<and> rec_Offset r \<le> rec_Offset x"
proof (induction rs arbitrary: mx)
  case (Cons a rs)
  show ?case
  proof (cases "r = a")
    case True
    have "\<exists>y. max_below b mx (a # rs) = max_below b (Some y) rs \<and> rec_Offset a \<le> rec_Offset y"
      using Cons.prems(2) True by (cases mx) (auto simp: not_less)
    then obtain y where y: "max_below b mx (a # rs) = max_below b (Some y) rs"
      "rec_Offset a \<le> rec_Offset y" by blast
    obtain x where "max_below b (Some y) rs = Some x"
      using max_below_not_None [of b y rs] by blast
    then show ?thesis using y max_below_ge_start True by fastforce
  next
    case False
    then show ?thesis using Cons by simp
  qed
qed simp

section \<open>A batch of one partition\<close>

text \<open>
  The records of one fetch of one partition: offsets are those of the partition's log, so they
  are distinct and not negative.
\<close>

definition wf_batch :: "'v kgo_record list \<Rightarrow> bool" where
  "wf_batch rs \<longleftrightarrow>
     distinct (map rec_Offset rs) \<and>
     list_all (\<lambda>r. 0 \<le> rec_Offset r \<and> rec_Offset r < MaxInt64) rs"

text \<open>The separator makes the string key injective in key and offset, for offsets of a log.\<close>

lemma commit_key_inj:
  assumes "commit_key r = commit_key r'" and "0 \<le> rec_Offset r" and "0 \<le> rec_Offset r'"
  shows "rec_Key r = rec_Key r' \<and> rec_Offset r = rec_Offset r'"
proof -
  from assms(1) have "rec_Key r @ CHR ''-'' # itoa (rec_Offset r)
      = rec_Key r' @ CHR ''-'' # itoa (rec_Offset r')"
    by (simp add: commit_key_def)
  then have "rec_Key r = rec_Key r' \<and> itoa (rec_Offset r) = itoa (rec_Offset r')"
    by (rule split_last_sep) (use assms(2,3) in \<open>auto dest: itoa_nonneg_no_minus\<close>)
  then show ?thesis by (auto dest: itoa_inj)
qed

lemma wf_batch_offset_inj:
  "wf_batch rs \<Longrightarrow> r \<in> set rs \<Longrightarrow> r' \<in> set rs \<Longrightarrow> rec_Offset r = rec_Offset r' \<Longrightarrow> r = r'"
  by (auto simp: wf_batch_def distinct_map dest: inj_onD)

lemma wf_batch_bounds:
  "wf_batch rs \<Longrightarrow> r \<in> set rs \<Longrightarrow> 0 \<le> rec_Offset r \<and> rec_Offset r < MaxInt64"
  by (simp add: wf_batch_def list_all_iff)

text \<open>In a well-formed batch a record is in the key map exactly when it was processed.\<close>

lemma unprocessed_key:
  assumes "wf_batch rs" and "set ps \<subseteq> set rs" and "u \<in> set rs"
  shows "commit_key u \<in> commit_key ` set ps \<longleftrightarrow> u \<in> set ps"
proof
  assume "commit_key u \<in> commit_key ` set ps"
  then obtain p where p: "p \<in> set ps" "commit_key u = commit_key p" by auto
  then have "rec_Offset u = rec_Offset p"
    using assms wf_batch_bounds [OF assms(1)] by (intro commit_key_inj [THEN conjunct2]) auto
  then show "u \<in> set ps"
    using wf_batch_offset_inj [OF assms(1,3)] p assms(2) by blast
qed auto

text \<open>The bound of the second loop, in terms of records instead of keys.\<close>

definition commit_bound :: "'v kgo_record list \<Rightarrow> 'v kgo_record list \<Rightarrow> int" where
  "commit_bound ps rs = min_unprocessed (mark_processed Map.empty ps) MaxInt64 False rs"

lemma findMax_unfold:
  "findMaxCommitableRecord ps rs =
     (max_below (commit_bound ps rs) None ps, max_below (commit_bound ps rs) None ps \<noteq> None)"
  by (simp add: findMaxCommitableRecord_def commit_bound_def Let_def)

lemma commit_bound_le:
  assumes "wf_batch rs" and "set ps \<subseteq> set rs" and "u \<in> set rs" and "u \<notin> set ps"
  shows "commit_bound ps rs \<le> rec_Offset u"
  using min_unprocessed_le [of False "mark_processed Map.empty ps" MaxInt64 rs] assms
  by (auto simp: commit_bound_def unprocessed_key)

lemma commit_bound_above:
  assumes "wf_batch rs" and "set ps \<subseteq> set rs" and "p \<in> set rs"
    and "\<And>u. u \<in> set rs \<Longrightarrow> u \<notin> set ps \<Longrightarrow> rec_Offset p < rec_Offset u"
  shows "rec_Offset p < commit_bound ps rs"
  using min_unprocessed_attained [of "mark_processed Map.empty ps" MaxInt64 False rs] assms(4)
    wf_batch_bounds [OF assms(1,3)]
  by (auto simp: commit_bound_def unprocessed_key [OF assms(1,2)])

lemma sub_mset_set: "mset ps \<subseteq># mset rs \<Longrightarrow> set ps \<subseteq> set rs"
  by (metis set_mset_mono set_mset_mset)

lemma sub_mset_length_eq:
  "mset ps \<subseteq># mset rs \<Longrightarrow> length ps = length rs \<Longrightarrow> mset ps = mset rs"
  by (metis mset_subset_size size_mset subset_mset.le_imp_less_or_eq less_irrefl)

section \<open>The commit is safe, complete and drawn from the processed records\<close>

lemma commitable_from_processed:
  assumes "mset ps \<subseteq># mset rs" and "commitable_records ps rs = Some cs"
  shows "set cs \<subseteq> set ps"
proof (cases "length ps = length rs")
  case True
  then have "mset ps = mset rs" using assms(1) by (rule sub_mset_length_eq [rotated])
  then have "set ps = set rs" by (metis set_mset_mset)
  then show ?thesis using assms(2) True by (simp add: commitable_records_def)
next
  case False
  then show ?thesis using assms(2)
    by (auto simp: commitable_records_def findMax_unfold dest: max_below_Some
        split: option.splits bool.splits)
qed

lemma commitable_safe:
  assumes "wf_batch rs" and "mset ps \<subseteq># mset rs" and "commitable_records ps rs = Some cs"
    and "u \<in> set rs" and "u \<notin> set ps" and "c \<in> set cs"
  shows "rec_Offset c < rec_Offset u"
proof (cases "length ps = length rs")
  case True
  then have "set ps = set rs" using assms(2) by (metis sub_mset_length_eq set_mset_mset)
  then show ?thesis using assms(4,5) by simp
next
  case False
  have "max_below (commit_bound ps rs) None ps = Some c"
    using assms(3,6) False
    by (auto simp: commitable_records_def findMax_unfold split: option.splits bool.splits)
  then have "rec_Offset c < commit_bound ps rs" by (auto dest: max_below_Some)
  also have "\<dots> \<le> rec_Offset u"
    using assms sub_mset_set [OF assms(2)] by (intro commit_bound_le) auto
  finally show ?thesis .
qed

lemma commitable_complete:
  assumes "wf_batch rs" and "mset ps \<subseteq># mset rs" and "p \<in> set ps"
    and "\<And>u. u \<in> set rs \<Longrightarrow> u \<notin> set ps \<Longrightarrow> rec_Offset p < rec_Offset u"
  shows "\<exists>cs c. commitable_records ps rs = Some cs \<and> c \<in> set cs \<and> rec_Offset p \<le> rec_Offset c"
proof (cases "length ps = length rs")
  case True
  then show ?thesis using assms(2,3)
    by (auto simp: commitable_records_def dest: sub_mset_set)
next
  case False
  have sub: "set ps \<subseteq> set rs" using assms(2) by (rule sub_mset_set)
  then have "rec_Offset p < commit_bound ps rs"
    using assms by (intro commit_bound_above) auto
  then obtain x where "max_below (commit_bound ps rs) None ps = Some x" "rec_Offset p \<le> rec_Offset x"
    using max_below_complete [OF assms(3)] by blast
  then show ?thesis using False by (simp add: commitable_records_def findMax_unfold)
qed

section \<open>The interfaces of the partition consumer\<close>

text \<open>
  What the consumer relies on of the handler it is given: the records it returns are records of
  the batch, each at most as often as the batch has it.
\<close>

locale record_processor =
  fixes processRecords :: "'v kgo_record list \<Rightarrow> 'w \<Rightarrow> 'v kgo_record list \<times> 'w"
  assumes processed_sub: "mset (fst (processRecords rs w)) \<subseteq># mset rs"

text \<open>
  What it relies on of the Kafka client, as documented: committing records moves the group's
  position of the partition behind the highest of their offsets; a failed commit, or a commit of
  no record, leaves the position. \<open>pos\<close> reads the position, the first offset that a restarted
  consumer is given again.
\<close>

locale kafka_commit =
  fixes commit :: "'v kgo_record list \<Rightarrow> 'w \<Rightarrow> go_error option \<times> 'w"
    and capture :: "go_error \<Rightarrow> 'w \<Rightarrow> 'w"
    and pos :: "'w \<Rightarrow> int"
  assumes commit_ok:
      "rs \<noteq> [] \<Longrightarrow> commit rs w = (None, w') \<Longrightarrow> pos w' = Max (rec_Offset ` set rs) + 1"
    and commit_failed: "commit rs w = (Some e, w') \<Longrightarrow> pos w' = pos w"
    and commit_nothing: "commit [] w = (None, w') \<Longrightarrow> pos w' = pos w"
    and capture_pos: "pos (capture e w) = pos w"
begin

lemma commit_records_pos:
  assumes "commit_records commit capture records cs w = Ret w'"
  shows "pos w' = pos w \<or> (cs \<noteq> [] \<and> pos w' = Max (rec_Offset ` set cs) + 1)"
proof (cases "commit cs w")
  case (Pair e w1)
  show ?thesis
  proof (cases e)
    case None
    then show ?thesis using assms Pair commit_ok commit_nothing
      by (cases "cs = []") (auto simp: commit_records_def)
  next
    case (Some x)
    then have "pos w1 = pos w" using Pair commit_failed by simp
    then show ?thesis using assms Pair Some capture_pos
      by (auto simp: commit_records_def split: if_splits)
  qed
qed

lemma commit_records_ok:
  assumes "commit cs w = (None, w1)" and "cs \<noteq> []"
  shows "commit_records commit capture records cs w = Ret w1 \<and>
    pos w1 = Max (rec_Offset ` set cs) + 1"
  using assms commit_ok by (simp add: commit_records_def)

end

locale partition_consumer = record_processor processRecords + kafka_commit commit capture pos
  for processRecords :: "'v kgo_record list \<Rightarrow> 'w \<Rightarrow> 'v kgo_record list \<times> 'w"
    and commit :: "'v kgo_record list \<Rightarrow> 'w \<Rightarrow> go_error option \<times> 'w"
    and capture :: "go_error \<Rightarrow> 'w \<Rightarrow> 'w"
    and pos :: "'w \<Rightarrow> int" +
  assumes handler_pos: "pos (snd (processRecords rs w)) = pos w"
begin

text \<open>
  One batch never moves the position behind a record of the batch that was left unprocessed.
\<close>

lemma batch_keeps_unprocessed:
  assumes wf: "wf_batch rs"
    and run: "processRecordsAndCommit processRecords commit capture rs w = Ret w'"
    and u: "u \<in> set rs" "u \<notin> set (fst (processRecords rs w))"
    and pos: "pos w \<le> rec_Offset u"
  shows "pos w' \<le> rec_Offset u"
proof (cases "processRecords rs w")
  case (Pair ps w1)
  have w1: "pos w1 = pos w" using handler_pos [of rs w] Pair by simp
  show ?thesis
  proof (cases "commitable_records ps rs")
    case None
    then show ?thesis using run Pair w1 pos by (simp add: processRecordsAndCommit_def)
  next
    case (Some cs)
    have "pos w' = pos w1 \<or> (cs \<noteq> [] \<and> pos w' = Max (rec_Offset ` set cs) + 1)"
      using run Pair Some by (intro commit_records_pos) (simp add: processRecordsAndCommit_def)
    moreover have "rec_Offset c < rec_Offset u" if "c \<in> set cs" for c
      using commitable_safe [OF wf _ Some u(1)] u(2) that processed_sub [of rs w] Pair by simp
    then have "cs \<noteq> [] \<Longrightarrow> Max (rec_Offset ` set cs) + 1 \<le> rec_Offset u"
      by (auto intro!: zless_imp_add1_zle)
    ultimately show ?thesis using w1 pos by auto
  qed
qed

text \<open>A batch whose records were all processed moves the position behind all of them.\<close>

lemma full_batch_commits:
  assumes "rs \<noteq> []" and "processRecords rs w = (ps, w1)" and "length ps = length rs"
    and "commit rs w1 = (None, w2)"
  shows "processRecordsAndCommit processRecords commit capture rs w = Ret w2 \<and>
    pos w2 = Max (rec_Offset ` set rs) + 1"
  using assms commit_records_ok [of rs w1 w2 rs]
  by (simp add: processRecordsAndCommit_def commitable_records_def)

end

section \<open>The loop\<close>

fun_cases consume_BatchE: "consume P C E (Batch rs # es) w = Ret x"

lemma commit_records_returns: "rs \<noteq> [] \<Longrightarrow> \<exists>w'. commit_records C E rs cs w = Ret w'"
  by (simp add: commit_records_def split: prod.splits option.splits)

lemma processRecordsAndCommit_returns:
  assumes "rs \<noteq> []"
  obtains w' where "processRecordsAndCommit P C E rs w = Ret w'"
proof (cases "commitable_records (fst (P rs w)) rs")
  case None
  then show ?thesis using that by (simp add: processRecordsAndCommit_def split_beta)
next
  case (Some cs)
  obtain w' where "commit_records C E rs cs (snd (P rs w)) = Ret w'"
    using commit_records_returns [OF assms] by metis
  with Some show ?thesis using that
    by (simp add: processRecordsAndCommit_def split_beta)
qed

text \<open>The batches that arrive before the loop is told to stop.\<close>

fun served :: "'v pc_event list \<Rightarrow> 'v pc_event list" where
  "served (Batch rs # es) = Batch rs # served es"
| "served es = []"

lemma consume_served:
  "Quit \<in> set es \<or> CtxDone \<in> set es \<Longrightarrow>
     consume P C E es w = consume P C E (served es @ [Quit]) w"
proof (induction es arbitrary: w rule: served.induct)
  case (1 rs es)
  then have "consume P C E es = consume P C E (served es @ [Quit])" by auto
  then show ?case by simp
qed auto

lemma consume_returns:
  assumes "\<And>rs. Batch rs \<in> set es \<Longrightarrow> rs \<noteq> []"
  shows "\<exists>w'. consume P C E es w = Ret (w', Quit \<in> set es \<or> CtxDone \<in> set es)"
  using assms
proof (induction es arbitrary: w)
  case (Cons e es)
  show ?case
  proof (cases e)
    case (Batch rs)
    then have "rs \<noteq> []" using Cons.prems by simp
    then obtain w1 where "processRecordsAndCommit P C E rs w = Ret w1"
      by (rule processRecordsAndCommit_returns)
    moreover have "\<exists>w'. consume P C E es w1 = Ret (w', Quit \<in> set es \<or> CtxDone \<in> set es)"
      by (rule Cons.IH) (use Cons.prems in simp)
    ultimately show ?thesis by (simp add: Batch)
  qed simp_all
qed simp

section \<open>Runs of the loop\<close>

text \<open>
  What happens to each batch of a run: the records that were processed, and those whose commit
  went through.
\<close>

fun consume_log ::
    "('v kgo_record list \<Rightarrow> 'w \<Rightarrow> 'v kgo_record list \<times> 'w)
     \<Rightarrow> ('v kgo_record list \<Rightarrow> 'w \<Rightarrow> go_error option \<times> 'w) \<Rightarrow> (go_error \<Rightarrow> 'w \<Rightarrow> 'w)
     \<Rightarrow> 'v kgo_record list list \<Rightarrow> 'w \<Rightarrow> ('v kgo_record list \<times> 'v kgo_record list option) list" where
  "consume_log P C E [] w = []"
| "consume_log P C E (rs # bs) w =
     (case P rs w of (ps, w1) \<Rightarrow>
        (case commitable_records ps rs of
           None \<Rightarrow> (ps, None) # consume_log P C E bs w1
         | Some cs \<Rightarrow>
             (case C cs w1 of
                (None, w2) \<Rightarrow> (ps, Some cs) # consume_log P C E bs w2
              | (Some e, w2) \<Rightarrow> (ps, None) # consume_log P C E bs (E e w2))))"

text \<open>Batches as a partition delivers them: each well-formed and not empty, offsets rise from batch to batch.\<close>

definition log_order :: "'v kgo_record list list \<Rightarrow> bool" where
  "log_order bs \<longleftrightarrow>
     (\<forall>rs \<in> set bs. rs \<noteq> [] \<and> wf_batch rs) \<and>
     sorted_wrt (\<lambda>rs rs'. \<forall>r \<in> set rs. \<forall>r' \<in> set rs'. rec_Offset r < rec_Offset r') bs"

lemma log_order_Cons:
  "log_order (rs # bs) \<longleftrightarrow> rs \<noteq> [] \<and> wf_batch rs \<and> log_order bs \<and>
     (\<forall>rs' \<in> set bs. \<forall>r \<in> set rs. \<forall>r' \<in> set rs'. rec_Offset r < rec_Offset r')"
  by (auto simp: log_order_def)

lemma length_consume_log [simp]: "length (consume_log P C E bs w) = length bs"
  by (induction P C E bs w rule: consume_log.induct) (simp_all split: prod.splits option.splits)

context partition_consumer
begin

text \<open>One batch of the run, in step with its log.\<close>

lemma batch_log:
  assumes rs: "rs \<noteq> []" and run: "processRecordsAndCommit processRecords commit capture rs w = Ret w1"
  obtains committed where
    "consume_log processRecords commit capture (rs # bs) w =
       (fst (processRecords rs w), committed) # consume_log processRecords commit capture bs w1"
    and "committed = None \<Longrightarrow> pos w1 = pos w"
    and "\<And>cs. committed = Some cs \<Longrightarrow> \<exists>r \<in> set rs. pos w1 = rec_Offset r + 1"
proof (cases "commitable_records (fst (processRecords rs w)) rs")
  case None
  then show ?thesis using that [of None] run handler_pos [of rs w]
    by (auto simp: processRecordsAndCommit_def split_beta)
next
  case (Some cs)
  have sub: "set cs \<subseteq> set rs"
    using commitable_from_processed [OF processed_sub Some] sub_mset_set [OF processed_sub] by blast
  have ne: "cs \<noteq> []"
    using Some rs by (auto simp: commitable_records_def split: if_splits option.splits prod.splits bool.splits)
  have commit: "commit_records commit capture rs cs (snd (processRecords rs w)) = Ret w1"
    using run Some by (simp add: processRecordsAndCommit_def split_beta)
  show ?thesis
  proof (cases "commit cs (snd (processRecords rs w))")
    case (Pair e w2)
    show ?thesis
    proof (cases e)
      case None
      then have w1: "w1 = w2" "pos w1 = Max (rec_Offset ` set cs) + 1"
        using commit_records_ok [OF _ ne, of "snd (processRecords rs w)" w2 rs] Pair commit by auto
      have "Max (rec_Offset ` set cs) \<in> rec_Offset ` set cs" using ne by (intro Max_in) auto
      then show ?thesis using that [of "Some cs"] Some Pair None w1 sub by (auto simp: split_beta)
    next
      case (Some e')
      then have "w1 = capture e' w2" using commit Pair rs by (simp add: commit_records_def)
      then show ?thesis
        using that [of None] \<open>commitable_records _ rs = Some cs\<close> Pair Some handler_pos [of rs w]
          commit_failed [of cs "snd (processRecords rs w)" e' w2] capture_pos [of e' w2]
        by (auto simp: split_beta)
    qed
  qed
qed

text \<open>Over a run the position is that of the last commit.\<close>

lemma run_pos:
  assumes "log_order bs" and "consume processRecords commit capture (map Batch bs) w = Ret (w', stopped)"
  shows "if \<forall>l \<in> set (consume_log processRecords commit capture bs w). snd l = None then pos w' = pos w
         else \<exists>r \<in> set (concat bs). pos w' = rec_Offset r + 1"
  using assms
proof (induction bs arbitrary: w)
  case (Cons rs bs)
  have ne: "rs \<noteq> []" and order: "log_order bs" using Cons.prems(1) by (auto simp: log_order_Cons)
  obtain w1 where w1: "processRecordsAndCommit processRecords commit capture rs w = Ret w1"
    and rest: "consume processRecords commit capture (map Batch bs) w1 = Ret (w', stopped)"
    using Cons.prems(2) by (auto simp: go_bind_Ret_iff)
  obtain committed where
    log: "consume_log processRecords commit capture (rs # bs) w =
       (fst (processRecords rs w), committed) # consume_log processRecords commit capture bs w1"
    and none: "committed = None \<Longrightarrow> pos w1 = pos w"
    and some: "\<And>cs. committed = Some cs \<Longrightarrow> \<exists>r \<in> set rs. pos w1 = rec_Offset r + 1"
    by (rule batch_log [OF ne w1, of bs]) blast
  show ?case using Cons.IH [OF order rest] none some unfolding log
    by (cases committed) (auto split: if_splits)
qed simp

lemma unprocessed_in_run:
  assumes "log_order bs" and "consume processRecords commit capture (map Batch bs) w = Ret (w', stopped)"
    and "i < length bs" and "u \<in> set (bs ! i)"
    and "u \<notin> set (fst (consume_log processRecords commit capture bs w ! i))"
    and "pos w \<le> rec_Offset u"
  shows "rec_Offset u < pos w' \<longleftrightarrow>
    (\<exists>j. i < j \<and> j < length bs \<and> snd (consume_log processRecords commit capture bs w ! j) \<noteq> None)"
  using assms
proof (induction bs arbitrary: w i)
  case (Cons rs bs)
  have ne: "rs \<noteq> []" and wf: "wf_batch rs" and order: "log_order bs"
    and later: "\<And>r r'. r \<in> set rs \<Longrightarrow> r' \<in> set (concat bs) \<Longrightarrow> rec_Offset r < rec_Offset r'"
    using Cons.prems(1) by (auto simp: log_order_Cons)
  obtain w1 where w1: "processRecordsAndCommit processRecords commit capture rs w = Ret w1"
    and rest: "consume processRecords commit capture (map Batch bs) w1 = Ret (w', stopped)"
    using Cons.prems(2) by (auto simp: go_bind_Ret_iff)
  obtain committed where
    log: "consume_log processRecords commit capture (rs # bs) w =
       (fst (processRecords rs w), committed) # consume_log processRecords commit capture bs w1"
    and none: "committed = None \<Longrightarrow> pos w1 = pos w"
    and some: "\<And>cs. committed = Some cs \<Longrightarrow> \<exists>r \<in> set rs. pos w1 = rec_Offset r + 1"
    by (rule batch_log [OF ne w1, of bs]) blast
  let ?L = "consume_log processRecords commit capture bs w1"
  show ?case
  proof (cases i)
    case 0
    have u: "u \<in> set rs" "u \<notin> set (fst (processRecords rs w))"
      using Cons.prems(4,5) 0 log by simp_all
    have before: "pos w1 \<le> rec_Offset u" using batch_keeps_unprocessed [OF wf w1 u Cons.prems(6)] .
    have behind: "rec_Offset u < rec_Offset r + 1" if "rs' \<in> set bs" "r \<in> set rs'" for rs' r
    proof -
      have "r \<in> set (concat bs)" using that by auto
      from later [OF u(1) this] show ?thesis by simp
    qed
    have "rec_Offset u < pos w' \<longleftrightarrow> \<not> (\<forall>l \<in> set ?L. snd l = None)"
      using run_pos [OF order rest] before behind by (auto split: if_splits)
    also have "\<dots> \<longleftrightarrow> (\<exists>j. j < length bs \<and> snd (?L ! j) \<noteq> None)"
      by (auto simp: all_set_conv_all_nth)
    also have "\<dots> \<longleftrightarrow> (\<exists>j. 0 < j \<and> j < length (rs # bs) \<and> snd (((fst (processRecords rs w), committed) # ?L) ! j) \<noteq> None)"
      by (auto simp: gr0_conv_Suc intro: exI [of _ "Suc _"])
    finally show ?thesis using 0 log by simp
  next
    case (Suc k)
    have k: "k < length bs" "u \<in> set (bs ! k)" "u \<notin> set (fst (?L ! k))"
      using Cons.prems(3-5) Suc log by simp_all
    have "u \<in> set (concat bs)" using k nth_mem [OF k(1)] by auto
    then have "rec_Offset r < rec_Offset u" if "r \<in> set rs" for r using later that by blast
    then have "pos w1 \<le> rec_Offset u"
      using none some Cons.prems(6) by (cases committed) (fastforce simp: zless_imp_add1_zle)+
    from Cons.IH [OF order rest k this]
    have "rec_Offset u < pos w' \<longleftrightarrow> (\<exists>j. k < j \<and> j < length bs \<and> snd (?L ! j) \<noteq> None)" .
    also have "\<dots> \<longleftrightarrow> (\<exists>j. Suc k < j \<and> j < length (rs # bs) \<and> snd (((fst (processRecords rs w), committed) # ?L) ! j) \<noteq> None)"
      by (auto simp: less_Suc_eq_0_disj)
    finally show ?thesis using Suc log by simp
  qed
qed simp

end

section \<open>The record a partial commit should name\<close>

text \<open>
  The specification of the partial commit: a processed record is safe to commit when it lies
  below every record of the batch that was left unprocessed.
\<close>

definition safe_to_commit ::
    "'v kgo_record list \<Rightarrow> 'v kgo_record list \<Rightarrow> 'v kgo_record \<Rightarrow> bool" where
  "safe_to_commit ps rs p \<longleftrightarrow>
     p \<in> set ps \<and> (\<forall>u \<in> set rs. u \<notin> set ps \<longrightarrow> rec_Offset p < rec_Offset u)"

lemma safe_to_commit_bound:
  assumes "wf_batch rs" and "set ps \<subseteq> set rs"
  shows "safe_to_commit ps rs p \<longleftrightarrow> p \<in> set ps \<and> rec_Offset p < commit_bound ps rs"
proof
  assume "safe_to_commit ps rs p"
  then show "p \<in> set ps \<and> rec_Offset p < commit_bound ps rs"
    using commit_bound_above [OF assms, of p] assms(2) by (auto simp: safe_to_commit_def)
next
  assume "p \<in> set ps \<and> rec_Offset p < commit_bound ps rs"
  then show "safe_to_commit ps rs p"
    using commit_bound_le [OF assms] by (force simp: safe_to_commit_def)
qed

lemma findMax_None:
  assumes "wf_batch rs" and "set ps \<subseteq> set rs" and "fst (findMaxCommitableRecord ps rs) = None"
  shows "\<not> safe_to_commit ps rs p"
  using assms max_below_complete [of p ps "commit_bound ps rs" None]
  by (auto simp: findMax_unfold safe_to_commit_bound)

lemma findMax_Some:
  assumes "wf_batch rs" and "set ps \<subseteq> set rs"
    and "fst (findMaxCommitableRecord ps rs) = Some r"
  shows "safe_to_commit ps rs r \<and> (\<forall>p. safe_to_commit ps rs p \<longrightarrow> rec_Offset p \<le> rec_Offset r)"
proof -
  have r: "max_below (commit_bound ps rs) None ps = Some r"
    using assms(3) by (simp add: findMax_unfold)
  have "rec_Offset p \<le> rec_Offset r" if "safe_to_commit ps rs p" for p
    using max_below_complete [of p ps "commit_bound ps rs" None] that r
    by (auto simp: safe_to_commit_bound [OF assms(1,2)])
  then show ?thesis
    using max_below_Some [OF r] by (simp add: safe_to_commit_bound [OF assms(1,2)])
qed

section \<open>A reference broker\<close>

text \<open>
  A group position and the list of captured errors: the smallest world that has the documented
  behaviour of a commit. It instantiates the interface above in the witnesses.
\<close>

definition broker_commit ::
    "'v kgo_record list \<Rightarrow> int \<times> go_error list \<Rightarrow> go_error option \<times> int \<times> go_error list" where
  "broker_commit rs w =
     (None, if rs = [] then fst w else foldl max (rec_Offset (hd rs)) (map rec_Offset rs) + 1, snd w)"

definition broker_capture :: "go_error \<Rightarrow> int \<times> go_error list \<Rightarrow> int \<times> go_error list" where
  "broker_capture e w = (fst w, snd w @ [e])"

lemma foldl_max_Max: "foldl max (a::int) xs = Max (insert a (set xs))"
proof (induction xs arbitrary: a)
  case (Cons x xs)
  then show ?case by (cases "xs = []") (simp_all add: max.assoc)
qed simp

interpretation broker: kafka_commit broker_commit broker_capture fst
proof unfold_locales
  fix rs :: "'a kgo_record list" and w w'
  assume "rs \<noteq> []" and "broker_commit rs w = (None, w')"
  then show "fst w' = Max (rec_Offset ` set rs) + 1"
    by (cases rs) (auto simp: broker_commit_def foldl_max_Max)
qed (auto simp: broker_commit_def broker_capture_def)

text \<open>A handler that keeps the records that pass a test: the shape of a batch with failures.\<close>

definition keep_handler ::
    "('v kgo_record \<Rightarrow> bool) \<Rightarrow> 'v kgo_record list \<Rightarrow> 'w \<Rightarrow> 'v kgo_record list \<times> 'w" where
  "keep_handler ok rs w = (filter ok rs, w)"

interpretation keep: partition_consumer "keep_handler ok" broker_commit broker_capture fst
  for ok :: "'v kgo_record \<Rightarrow> bool"
  by unfold_locales (auto simp: keep_handler_def)

section \<open>Properties\<close>

text \<open>
  C15: \<open>findMaxCommitableRecord\<close> is exact: on the processed part of a batch it returns the
  processed record of highest offset below every unprocessed record of the batch, and it returns
  nothing only when no processed record lies below all of them.
\<close>

theorem findMaxCommitableRecord_spec:
  assumes "wf_batch rs" and "set ps \<subseteq> set rs"
  shows "case findMaxCommitableRecord ps rs of
      (None, ok) \<Rightarrow> \<not> ok \<and> (\<forall>p. \<not> safe_to_commit ps rs p)
    | (Some r, ok) \<Rightarrow> ok \<and> safe_to_commit ps rs r \<and>
        (\<forall>p. safe_to_commit ps rs p \<longrightarrow> rec_Offset p \<le> rec_Offset r)"
proof (cases "fst (findMaxCommitableRecord ps rs)")
  case None
  with findMax_None [OF assms None] show ?thesis by (auto simp: findMax_unfold)
next
  case (Some r)
  with findMax_Some [OF assms Some] show ?thesis by (auto simp: findMax_unfold)
qed

abbreviation sample_record :: "string \<Rightarrow> int \<Rightarrow> unit kgo_record" where
  "sample_record k n \<equiv>
     \<lparr>rec_Topic = ''events_raw'', rec_Partition = 0, rec_Key = k, rec_Value = (), rec_Offset = n\<rparr>"

theorem findMaxCommitableRecord_spec_witness:
  "safe_to_commit [sample_record ''a'' 1, sample_record ''c'' 5]
     [sample_record ''a'' 1, sample_record ''b'' 3, sample_record ''c'' 5] (sample_record ''a'' 1)"
proof -
  let ?rs = "[sample_record ''a'' 1, sample_record ''b'' 3, sample_record ''c'' 5]"
  let ?ps = "[sample_record ''a'' 1, sample_record ''c'' 5]"
  have wf: "wf_batch ?rs" by (simp add: wf_batch_def MaxInt64_def)
  have "findMaxCommitableRecord ?ps ?rs = (Some (sample_record ''a'' 1), True)" by (simp add: findMaxCommitableRecord_def Let_def commit_key_def itoa_def int_digits.simps digit_char_def map_get_bool_def MaxInt64_def)
  with findMaxCommitableRecord_spec [OF wf, of ?ps] show ?thesis by simp
qed

text \<open>
  C14: at-least-once delivery within a batch. With any handler that returns records of the batch
  and any client with the documented commit, running \<open>processRecordsAndCommit\<close> on a fetched batch
  leaves the group's position at or before every record of the batch that was not processed, so a
  restarted consumer is given that record again.
\<close>

theorem batch_at_least_once:
  assumes "partition_consumer processRecords commit capture pos"
    and "wf_batch records"
    and "processRecordsAndCommit processRecords commit capture records w = Ret w'"
    and "u \<in> set records" and "u \<notin> set (fst (processRecords records w))"
    and "pos w \<le> rec_Offset u"
  shows "pos w' \<le> rec_Offset u"
  using assms by (rule partition_consumer.batch_keeps_unprocessed)

theorem batch_at_least_once_witness:
  "fst (0::int, [] :: go_error list) \<le> 3 \<and>
   (\<exists>w'. processRecordsAndCommit (keep_handler (\<lambda>r. rec_Key r \<noteq> ''b'')) broker_commit broker_capture
      [sample_record ''a'' 1, sample_record ''b'' 3, sample_record ''c'' 5] (0, []) = Ret w' \<and> fst w' \<le> 3)"
proof -
  let ?P = "keep_handler (\<lambda>r. rec_Key r \<noteq> ''b'')
      :: unit kgo_record list \<Rightarrow> int \<times> go_error list \<Rightarrow> unit kgo_record list \<times> int \<times> go_error list"
  let ?rs = "[sample_record ''a'' 1, sample_record ''b'' 3, sample_record ''c'' 5]"
  have wf: "wf_batch ?rs" by (simp add: wf_batch_def MaxInt64_def)
  obtain w' where w': "processRecordsAndCommit ?P broker_commit broker_capture ?rs (0, []) = Ret w'"
    by (rule processRecordsAndCommit_returns [OF list.distinct(2)])
  have "fst w' \<le> rec_Offset (sample_record ''b'' 3)"
    by (rule batch_at_least_once [OF keep.partition_consumer_axioms wf w'])
      (simp_all add: keep_handler_def)
  then show ?thesis using w' by auto
qed

text \<open>
  C29: what happens to a record left unprocessed (a retryable failure) when the loop goes on. Over
  a run of batches in log order the group's position moves behind such a record exactly when one of
  the batches after its own is committed, wholly or in part: then the record is not delivered again,
  although the code left it uncommitted for a retry. As long as no later batch is committed, it is
  the first record a restarted consumer can be given.
\<close>

theorem passed_over_by_later_commit:
  assumes "partition_consumer processRecords commit capture pos"
    and "log_order batches"
    and "consume processRecords commit capture (map Batch batches) w = Ret (w', stopped)"
    and "i < length batches" and "u \<in> set (batches ! i)"
    and "u \<notin> set (fst (consume_log processRecords commit capture batches w ! i))"
    and "pos w \<le> rec_Offset u"
  shows "rec_Offset u < pos w' \<longleftrightarrow>
    (\<exists>j. i < j \<and> j < length batches \<and> snd (consume_log processRecords commit capture batches w ! j) \<noteq> None)"
  using assms by (rule partition_consumer.unprocessed_in_run)

theorem passed_over_by_later_commit_witness:
  "\<exists>w'. consume (keep_handler (\<lambda>r. rec_Key r \<noteq> ''b'')) broker_commit broker_capture
      (map Batch [[sample_record ''a'' 1, sample_record ''b'' 3], [sample_record ''c'' 5]]) (0, [])
      = Ret (w', False) \<and> 3 < fst w'"
proof -
  let ?P = "keep_handler (\<lambda>r. rec_Key r \<noteq> ''b'')
      :: unit kgo_record list \<Rightarrow> int \<times> go_error list \<Rightarrow> unit kgo_record list \<times> int \<times> go_error list"
  let ?bs = "[[sample_record ''a'' 1, sample_record ''b'' 3], [sample_record ''c'' 5]]"
  have order: "log_order ?bs" by (simp add: log_order_def wf_batch_def MaxInt64_def)
  obtain w' where w': "consume ?P broker_commit broker_capture (map Batch ?bs) (0, []) = Ret (w', False)"
    using consume_returns [of "map Batch ?bs" ?P broker_commit broker_capture "(0, [])"] by auto
  have log: "snd (consume_log ?P broker_commit broker_capture ?bs (0, []) ! 1) = Some [sample_record ''c'' 5]"
    by (auto simp: keep_handler_def commitable_records_def broker_commit_def split: option.splits)
  have "\<not> rec_Key (sample_record ''b'' 3) \<noteq> ''b''" by simp
  then have out: "sample_record ''b'' 3 \<notin> set (fst (consume_log ?P broker_commit broker_capture ?bs (0, []) ! 0))"
    by (simp add: keep_handler_def split: option.splits prod.splits)
  have "rec_Offset (sample_record ''b'' 3) < fst w' \<longleftrightarrow>
    (\<exists>j. 0 < j \<and> j < length ?bs \<and> snd (consume_log ?P broker_commit broker_capture ?bs (0, []) ! j) \<noteq> None)"
    by (rule passed_over_by_later_commit [OF keep.partition_consumer_axioms order w' _ _ out]) simp_all
  moreover have "\<exists>j. 0 < j \<and> j < length ?bs \<and> snd (consume_log ?P broker_commit broker_capture ?bs (0, []) ! j) \<noteq> None"
    using log by (intro exI [of _ 1]) simp
  ultimately show ?thesis using w' by auto
qed

text \<open>
  C30: the consume loop. Without empty batches it never panics and it returns exactly when it is
  told to stop; what arrives after the stop is not processed.
\<close>

theorem consume_stops:
  assumes "\<forall>rs. Batch rs \<in> set es \<longrightarrow> rs \<noteq> []"
  shows "(\<exists>w'. consume P C E es w = Ret (w', Quit \<in> set es \<or> CtxDone \<in> set es)) \<and>
    (Quit \<in> set es \<or> CtxDone \<in> set es \<longrightarrow>
       consume P C E es w = consume P C E (served es @ [Quit]) w)"
  using consume_returns [of es P C E w] consume_served [of es P C E w] assms by blast

theorem consume_stops_witness:
  "\<exists>w'. consume (keep_handler (\<lambda>_. True)) broker_commit broker_capture
     [Batch [sample_record ''a'' 1], Quit, Batch [sample_record ''b'' 2]] (0, []) = Ret (w', True)"
proof -
  let ?es = "[Batch [sample_record ''a'' 1], Quit, Batch [sample_record ''b'' 2]]"
  have "\<forall>rs. Batch rs \<in> set ?es \<longrightarrow> rs \<noteq> []" by simp
  from consume_stops [OF this, THEN conjunct1] show ?thesis by fastforce
qed

end
