(* ===== verification/Consumer_Group.thy ===== *)
theory Consumer_Group
  imports Kafka_Consumer
begin

text \<open>
  config/kafka/consumer.go: the consumer group. The Kafka client calls \<open>assigned\<close> and \<open>lost\<close> when
  partitions come and go, one goroutine per partition waits for batches (\<open>consume\<close>), one goroutine
  polls and hands out batches (\<open>poll\<close>), and \<open>gracefulShutdown\<close> runs when the context is done. They
  share the map of consumers, so the group is a step relation: a rule for each point where a
  goroutine or a callback moves, labelled with the move.

  The client is a parameter: its moves are labels, and \<open>kgo_contract\<close> says which label
  sequences its documentation allows (callbacks run one at a time and never between a poll that
  blocks rebalances and \<open>AllowRebalance\<close>, partitions are assigned once before they are lost, and
  \<open>Close\<close> does not return while rebalances are blocked). What a goroutine does with a batch is
  \<open>processRecordsAndCommit\<close>; here a batch only starts and ends. Log lines are left out.
\<close>

section \<open>The state\<close>

record TopicPartition =
  tp_topic :: string
  tp_partition :: int

text \<open>
  A consumer: its goroutine waits in the \<open>select\<close>, handles a batch, or has returned (then \<open>done\<close> is
  closed). \<open>pc_quit\<close> is whether the quit channel is closed, \<open>pc_once\<close> whether its \<open>sync.Once\<close> ran.
\<close>

datatype 'v pc_status = Selecting | Handling "'v kgo_record list" | Returned

record 'v PartitionConsumer =
  pc_topic :: string
  pc_partition :: int
  pc_quit :: bool
  pc_once :: bool
  pc_status :: "'v pc_status"

definition pc_tp :: "'v PartitionConsumer \<Rightarrow> TopicPartition" where
  "pc_tp pc = \<lparr>tp_topic = pc_topic pc, tp_partition = pc_partition pc\<rparr>"

text \<open>The polling goroutine, the callback \<open>lost\<close> (with the consumers it waits for) and the shutdown.\<close>

datatype 'v poll_status =
    PollLoop
  | Dispatching "(TopicPartition \<times> 'v kgo_record list) list"
  | Offering nat "'v kgo_record list" "(TopicPartition \<times> 'v kgo_record list) list"
  | PollStopped

datatype shutdown_status = Running | ShuttingDown "nat list" "nat list" | Closing | Closed

text \<open>The group. A \<open>*PartitionConsumer\<close> is an index into the consumers that were ever created.\<close>

record 'v ConsumerGroup =
  cg_consumers :: "TopicPartition \<rightharpoonup> nat"
  cg_store :: "'v PartitionConsumer list"
  cg_ctx_done :: bool
  cg_poll :: "'v poll_status"
  cg_lost :: "nat list option"
  cg_shutdown :: shutdown_status

definition set_status :: "nat \<Rightarrow> 'v pc_status \<Rightarrow> 'v ConsumerGroup \<Rightarrow> 'v ConsumerGroup" where
  "set_status i st cg = cg\<lparr>cg_store := (cg_store cg)[i := (cg_store cg ! i)\<lparr>pc_status := st\<rparr>]\<rparr>"

text \<open>\<open>NewConsumerGroup\<close> makes an empty map; \<open>Start\<close> starts the polling goroutine.\<close>

definition new_group :: "'v ConsumerGroup" where
  "new_group = \<lparr>cg_consumers = Map.empty, cg_store = [], cg_ctx_done = False, cg_poll = PollLoop,
                cg_lost = None, cg_shutdown = Running\<rparr>"

section \<open>The callbacks\<close>

text \<open>The client hands over a \<open>map[string][]int32\<close>: its entries, in the order of the iteration.\<close>

type_synonym partitions = "(string \<times> int list) list"

definition topic_partitions :: "partitions \<Rightarrow> TopicPartition list" where
  "topic_partitions m =
     concat (map (\<lambda>(topic, ps). map (\<lambda>p. \<lparr>tp_topic = topic, tp_partition = p\<rparr>) ps) m)"

definition new_consumer :: "TopicPartition \<Rightarrow> 'v PartitionConsumer" where
  "new_consumer tp = \<lparr>pc_topic = tp_topic tp, pc_partition = tp_partition tp, pc_quit = False,
                      pc_once = False, pc_status = Selecting\<rparr>"

definition assign_one :: "TopicPartition \<Rightarrow> 'v ConsumerGroup \<Rightarrow> 'v ConsumerGroup" where
  "assign_one tp cg =
     cg\<lparr>cg_consumers := (cg_consumers cg)(tp \<mapsto> length (cg_store cg)),
        cg_store := cg_store cg @ [new_consumer tp]\<rparr>"

definition assigned :: "partitions \<Rightarrow> 'v ConsumerGroup \<Rightarrow> 'v ConsumerGroup" where
  "assigned m cg = fold assign_one (topic_partitions m) cg"

text \<open>Closing a closed channel panics; the \<open>sync.Once\<close> is there to prevent it.\<close>

definition closeQuitChannel :: "'v PartitionConsumer \<Rightarrow> 'v PartitionConsumer go" where
  "closeQuitChannel pc =
     (if pc_once pc then Ret pc
      else if pc_quit pc then Panic ''close of closed channel''
      else Ret (pc\<lparr>pc_quit := True, pc_once := True\<rparr>))"

text \<open>
  The loop of \<open>lost\<close>: the consumer is looked up without a check, so an unknown partition is a nil
  pointer. The callback then waits (deferred \<open>errgroup.Wait\<close>) for the consumers it told to quit.
\<close>

fun lost_each :: "TopicPartition list \<Rightarrow> nat list \<Rightarrow> 'v ConsumerGroup \<Rightarrow> ('v ConsumerGroup \<times> nat list) go" where
  "lost_each [] ws cg = Ret (cg, ws)"
| "lost_each (tp # tps) ws cg =
     (case cg_consumers cg tp of
        None \<Rightarrow> Panic ''invalid memory address or nil pointer dereference''
      | Some i \<Rightarrow>
          go_bind (closeQuitChannel (cg_store cg ! i)) (\<lambda>pc.
            lost_each tps (ws @ [i])
              (cg\<lparr>cg_consumers := (cg_consumers cg)(tp := None), cg_store := (cg_store cg)[i := pc]\<rparr>)))"

definition lost :: "partitions \<Rightarrow> 'v ConsumerGroup \<Rightarrow> 'v ConsumerGroup go" where
  "lost m cg =
     go_bind (lost_each (topic_partitions m) [] cg) (\<lambda>(cg', ws). Ret (cg'\<lparr>cg_lost := Some ws\<rparr>))"

section \<open>Polling\<close>

record 'v fetches =
  IsClientClosed :: bool
  fetch_errors :: "go_error list"
  fetch_partitions :: "(TopicPartition \<times> 'v kgo_record list) list"

text \<open>\<open>EachError\<close>: a context error is remembered, any other one panics.\<close>

fun check_errors :: "go_error list \<Rightarrow> bool \<Rightarrow> bool go" where
  "check_errors [] hasContextError = Ret hasContextError"
| "check_errors (e # es) hasContextError =
     (if e = ErrContextCanceled \<or> e = ErrDeadlineExceeded then check_errors es True
      else Panic (error_msg e))"

text \<open>
  \<open>pollRecords\<close> from the return of \<open>PollRecords\<close> to the loop over the partitions; stopping is the
  \<open>return false\<close> that ends \<open>poll\<close>.
\<close>

definition pollRecords :: "'v fetches \<Rightarrow> 'v ConsumerGroup \<Rightarrow> 'v ConsumerGroup go" where
  "pollRecords fs cg =
     (if IsClientClosed fs then Ret (cg\<lparr>cg_poll := PollStopped\<rparr>)
      else go_bind (check_errors (fetch_errors fs) False) (\<lambda>hasContextError.
        if hasContextError \<or> cg_ctx_done cg then Ret (cg\<lparr>cg_poll := PollStopped\<rparr>)
        else Ret (cg\<lparr>cg_poll := Dispatching (fetch_partitions fs)\<rparr>)))"

section \<open>Steps\<close>

text \<open>
  The labels. The calls and returns of the client: \<open>Assigned\<close>, \<open>Lost\<close>, \<open>PollReturned\<close> (with whether
  this poll blocks rebalances), \<open>CloseReturned\<close>. What the code tells the client: \<open>LostReturned\<close>,
  \<open>AllowRebalance\<close>, \<open>CloseCalled\<close>. The rest is internal.
\<close>

datatype 'v label =
    Assigned partitions | Lost partitions | LostReturned
  | PollDone | PollReturned "'v fetches" bool | Lookup | Sent nat "'v kgo_record list" | SendDone | AllowRebalance
  | Handled nat | QuitSeen nat | DoneSeen nat
  | Cancel | Shutdown "nat list" | ShutdownQuit nat | CloseCalled | CloseReturned

inductive group_step :: "'v ConsumerGroup \<Rightarrow> 'v label \<Rightarrow> 'v ConsumerGroup \<Rightarrow> bool" where
  assigned: "group_step cg (Assigned m) (assigned m cg)"
| lost: "lost m cg = Ret cg' \<Longrightarrow> group_step cg (Lost m) cg'"
| lost_returned: "cg_lost cg = Some ws \<Longrightarrow> \<forall>i \<in> set ws. pc_status (cg_store cg ! i) = Returned \<Longrightarrow>
    group_step cg LostReturned (cg\<lparr>cg_lost := None\<rparr>)"
| poll_done: "cg_poll cg = PollLoop \<Longrightarrow> cg_ctx_done cg \<Longrightarrow>
    group_step cg PollDone (cg\<lparr>cg_poll := PollStopped\<rparr>)"
| poll_returned: "cg_poll cg = PollLoop \<Longrightarrow> pollRecords fs cg = Ret cg' \<Longrightarrow>
    group_step cg (PollReturned fs blocks) cg'"
| lookup: "cg_poll cg = Dispatching ((tp, recs) # rest) \<Longrightarrow>
    group_step cg Lookup
      (cg\<lparr>cg_poll := (case cg_consumers cg tp of None \<Rightarrow> Dispatching rest | Some i \<Rightarrow> Offering i recs rest)\<rparr>)"
| sent: "cg_poll cg = Offering i recs rest \<Longrightarrow> pc_status (cg_store cg ! i) = Selecting \<Longrightarrow>
    group_step cg (Sent i recs) ((set_status i (Handling recs) cg)\<lparr>cg_poll := Dispatching rest\<rparr>)"
| send_done: "cg_poll cg = Offering i recs rest \<Longrightarrow> cg_ctx_done cg \<Longrightarrow>
    group_step cg SendDone (cg\<lparr>cg_poll := Dispatching rest\<rparr>)"
| allow_rebalance: "cg_poll cg = Dispatching [] \<Longrightarrow>
    group_step cg AllowRebalance (cg\<lparr>cg_poll := PollLoop\<rparr>)"
| handled: "i < length (cg_store cg) \<Longrightarrow> pc_status (cg_store cg ! i) = Handling recs \<Longrightarrow>
    group_step cg (Handled i) (set_status i Selecting cg)"
| quit_seen: "i < length (cg_store cg) \<Longrightarrow> pc_status (cg_store cg ! i) = Selecting \<Longrightarrow>
    pc_quit (cg_store cg ! i) \<Longrightarrow> group_step cg (QuitSeen i) (set_status i Returned cg)"
| done_seen: "i < length (cg_store cg) \<Longrightarrow> pc_status (cg_store cg ! i) = Selecting \<Longrightarrow>
    cg_ctx_done cg \<Longrightarrow> group_step cg (DoneSeen i) (set_status i Returned cg)"
| cancel: "group_step cg Cancel (cg\<lparr>cg_ctx_done := True\<rparr>)"
| shutdown: "cg_shutdown cg = Running \<Longrightarrow> cg_ctx_done cg \<Longrightarrow> distinct ids \<Longrightarrow>
    set ids = ran (cg_consumers cg) \<Longrightarrow>
    group_step cg (Shutdown ids) (cg\<lparr>cg_shutdown := ShuttingDown ids ids\<rparr>)"
| shutdown_quit: "cg_shutdown cg = ShuttingDown todo ids \<Longrightarrow> i \<in> set todo \<Longrightarrow>
    closeQuitChannel (cg_store cg ! i) = Ret pc \<Longrightarrow>
    group_step cg (ShutdownQuit i)
      (cg\<lparr>cg_store := (cg_store cg)[i := pc], cg_shutdown := ShuttingDown (remove1 i todo) ids\<rparr>)"
| close_called: "cg_shutdown cg = ShuttingDown [] ids \<Longrightarrow>
    \<forall>i \<in> set ids. pc_status (cg_store cg ! i) = Returned \<Longrightarrow>
    group_step cg CloseCalled (cg\<lparr>cg_shutdown := Closing\<rparr>)"
| close_returned: "cg_shutdown cg = Closing \<Longrightarrow> group_step cg CloseReturned (cg\<lparr>cg_shutdown := Closed\<rparr>)"

text \<open>A panic in a callback or in the polling goroutine ends the process.\<close>

inductive group_panics :: "'v ConsumerGroup \<Rightarrow> 'v label \<Rightarrow> string \<Rightarrow> bool" where
  lost: "lost m cg = Panic msg \<Longrightarrow> group_panics cg (Lost m) msg"
| poll: "cg_poll cg = PollLoop \<Longrightarrow> pollRecords fs cg = Panic msg \<Longrightarrow> group_panics cg (PollReturned fs blocks) msg"
| shutdown_quit: "cg_shutdown cg = ShuttingDown todo ids \<Longrightarrow> i \<in> set todo \<Longrightarrow>
    closeQuitChannel (cg_store cg ! i) = Panic msg \<Longrightarrow> group_panics cg (ShutdownQuit i) msg"

inductive group_run :: "'v ConsumerGroup \<Rightarrow> 'v label list \<Rightarrow> 'v ConsumerGroup \<Rightarrow> bool" where
  start: "group_run cg [] cg"
| step: "group_run cg tr cg1 \<Longrightarrow> group_step cg1 l cg2 \<Longrightarrow> group_run cg (tr @ [l]) cg2"

section \<open>What the client promises\<close>

text \<open>The client's own bookkeeping, read off the labels.\<close>

record kgo_client =
  cl_assigned :: "TopicPartition set"
  cl_callback :: bool
  cl_blocked :: bool

definition idle_client :: kgo_client where
  "idle_client = \<lparr>cl_assigned = {}, cl_callback = False, cl_blocked = False\<rparr>"

fun client_step :: "'v label \<Rightarrow> kgo_client \<Rightarrow> kgo_client" where
  "client_step (Assigned m) cl = cl\<lparr>cl_assigned := cl_assigned cl \<union> set (topic_partitions m)\<rparr>"
| "client_step (Lost m) cl =
     cl\<lparr>cl_assigned := cl_assigned cl - set (topic_partitions m), cl_callback := True\<rparr>"
| "client_step LostReturned cl = cl\<lparr>cl_callback := False\<rparr>"
| "client_step (PollReturned fs blocks) cl = cl\<lparr>cl_blocked := cl_blocked cl \<or> blocks\<rparr>"
| "client_step AllowRebalance cl = cl\<lparr>cl_blocked := False\<rparr>"
| "client_step _ cl = cl"

fun client_allows :: "kgo_client \<Rightarrow> 'v label \<Rightarrow> bool" where
  "client_allows cl (Assigned m) \<longleftrightarrow>
     \<not> cl_callback cl \<and> \<not> cl_blocked cl \<and> distinct (topic_partitions m) \<and>
     set (topic_partitions m) \<inter> cl_assigned cl = {}"
| "client_allows cl (Lost m) \<longleftrightarrow>
     \<not> cl_callback cl \<and> \<not> cl_blocked cl \<and> distinct (topic_partitions m) \<and>
     set (topic_partitions m) \<subseteq> cl_assigned cl"
| "client_allows cl (PollReturned fs blocks) \<longleftrightarrow> (fetch_partitions fs \<noteq> [] \<longrightarrow> blocks)"
| "client_allows cl CloseReturned \<longleftrightarrow> \<not> cl_callback cl \<and> \<not> cl_blocked cl"
| "client_allows cl _ \<longleftrightarrow> True"

fun allowed_from :: "kgo_client \<Rightarrow> 'v label list \<Rightarrow> bool" where
  "allowed_from cl [] \<longleftrightarrow> True"
| "allowed_from cl (l # ls) \<longleftrightarrow> client_allows cl l \<and> allowed_from (client_step l cl) ls"

definition client_after :: "'v label list \<Rightarrow> kgo_client" where
  "client_after tr = fold client_step tr idle_client"

definition kgo_contract :: "'v label list \<Rightarrow> bool" where
  "kgo_contract tr \<longleftrightarrow> allowed_from idle_client tr"

lemma allowed_from_append:
  "allowed_from cl (tr @ tr') \<longleftrightarrow> allowed_from cl tr \<and> allowed_from (fold client_step tr cl) tr'"
  by (induction tr arbitrary: cl) auto

lemma kgo_contract_append:
  "kgo_contract (tr @ tr') \<longleftrightarrow> kgo_contract tr \<and> allowed_from (client_after tr) tr'"
  by (simp add: kgo_contract_def client_after_def allowed_from_append)

lemma client_after_snoc [simp]: "client_after (tr @ [l]) = client_step l (client_after tr)"
  by (simp add: client_after_def)

lemma client_after_Nil [simp]: "client_after [] = idle_client"
  by (simp add: client_after_def)

section \<open>The invariant\<close>

text \<open>
  The map holds exactly the assigned partitions; a goroutine that has not returned is the one in
  the map for its partition, or the running \<open>lost\<close> waits for it.
\<close>

definition tracked :: "'v ConsumerGroup \<Rightarrow> kgo_client \<Rightarrow> bool" where
  "tracked cg cl \<longleftrightarrow>
     dom (cg_consumers cg) = cl_assigned cl \<and> (cl_callback cl \<longleftrightarrow> cg_lost cg \<noteq> None) \<and>
     (\<forall>tp i. cg_consumers cg tp = Some i \<longrightarrow> i < length (cg_store cg) \<and> pc_tp (cg_store cg ! i) = tp) \<and>
     (\<forall>i < length (cg_store cg). pc_status (cg_store cg ! i) \<noteq> Returned \<longrightarrow>
        cg_consumers cg (pc_tp (cg_store cg ! i)) = Some i \<or> (\<exists>ws. cg_lost cg = Some ws \<and> i \<in> set ws))"

text \<open>The consumers that \<open>lost\<close> waits for are no longer in the map, and they differ in partition.\<close>

definition waited :: "'v ConsumerGroup \<Rightarrow> bool" where
  "waited cg \<longleftrightarrow>
     (\<forall>ws. cg_lost cg = Some ws \<longrightarrow>
        (\<forall>i \<in> set ws. i < length (cg_store cg) \<and> cg_consumers cg (pc_tp (cg_store cg ! i)) = None) \<and>
        inj_on (\<lambda>i. pc_tp (cg_store cg ! i)) (set ws))"

text \<open>
  A quit channel is closed by its \<open>sync.Once\<close> only, and before the context is done the consumers
  of the map have neither been told to quit nor returned.
\<close>

definition quit_by_once :: "'v ConsumerGroup \<Rightarrow> bool" where
  "quit_by_once cg \<longleftrightarrow> (\<forall>pc \<in> set (cg_store cg). pc_quit pc \<longleftrightarrow> pc_once pc)"

definition serving :: "'v ConsumerGroup \<Rightarrow> bool" where
  "serving cg \<longleftrightarrow>
     (\<not> cg_ctx_done cg \<longrightarrow>
        cg_shutdown cg = Running \<and>
        (\<forall>i \<in> ran (cg_consumers cg). \<not> pc_quit (cg_store cg ! i) \<and> pc_status (cg_store cg ! i) \<noteq> Returned))"

definition shutdown_ids :: "'v ConsumerGroup \<Rightarrow> bool" where
  "shutdown_ids cg \<longleftrightarrow>
     (\<forall>todo ids. cg_shutdown cg = ShuttingDown todo ids \<longrightarrow>
        set todo \<subseteq> {..< length (cg_store cg)} \<and> set ids \<subseteq> {..< length (cg_store cg)})"

text \<open>While batches are handed out rebalances are blocked, so the consumer being offered one stays.\<close>

definition offering :: "'v ConsumerGroup \<Rightarrow> kgo_client \<Rightarrow> bool" where
  "offering cg cl \<longleftrightarrow>
     (case cg_poll cg of
        Offering i recs rest \<Rightarrow> cl_blocked cl \<and> i \<in> ran (cg_consumers cg)
      | Dispatching (x # xs) \<Rightarrow> cl_blocked cl
      | _ \<Rightarrow> True)"

definition group_inv :: "'v ConsumerGroup \<Rightarrow> kgo_client \<Rightarrow> bool" where
  "group_inv cg cl \<longleftrightarrow> tracked cg cl \<and> waited cg \<and> quit_by_once cg \<and> serving cg \<and> shutdown_ids cg \<and> offering cg cl"

lemmas group_inv_defs = group_inv_def tracked_def waited_def quit_by_once_def serving_def shutdown_ids_def offering_def

lemma group_inv_start: "group_inv new_group idle_client"
  by (simp add: group_inv_defs new_group_def idle_client_def)

lemma pc_tp_simps [simp]:
  "pc_tp (new_consumer tp) = tp"
  "pc_tp (pc\<lparr>pc_status := st\<rparr>) = pc_tp pc"
  "pc_tp (pc\<lparr>pc_quit := q, pc_once := q'\<rparr>) = pc_tp pc"
  by (simp_all add: pc_tp_def new_consumer_def)

lemma new_consumer_simps [simp]:
  "\<not> pc_quit (new_consumer tp)" "\<not> pc_once (new_consumer tp)" "pc_status (new_consumer tp) = Selecting"
  by (simp_all add: new_consumer_def)

lemma closeQuitChannel_Ret:
  "closeQuitChannel pc = Ret pc' \<Longrightarrow> pc_quit pc \<longleftrightarrow> pc_once pc \<Longrightarrow>
     pc' = pc\<lparr>pc_quit := True, pc_once := True\<rparr>"
  by (auto simp: closeQuitChannel_def split: if_splits)

lemma closeQuitChannel_ok:
  "pc_quit pc \<longleftrightarrow> pc_once pc \<Longrightarrow> closeQuitChannel pc = Ret (pc\<lparr>pc_quit := True, pc_once := True\<rparr>)"
  by (auto simp: closeQuitChannel_def)

lemma set_update_iff: "i < length xs \<Longrightarrow> (\<forall>y \<in> set (xs[i := x]). P y) \<longleftrightarrow> P x \<and> (\<forall>j < length xs. j \<noteq> i \<longrightarrow> P (xs ! j))"
  by (auto simp: all_set_conv_all_nth nth_list_update)

text \<open>One new partition.\<close>

lemma assign_one_inv:
  assumes "group_inv cg cl" "cg_lost cg = None" "tp \<notin> cl_assigned cl"
  shows "group_inv (assign_one tp cg) (cl\<lparr>cl_assigned := insert tp (cl_assigned cl)\<rparr>)"
proof -
  have fresh: "cg_consumers cg tp = None" using assms(1,3) by (auto simp: group_inv_def tracked_def)
  have bound: "\<And>i. i \<in> ran (cg_consumers cg) \<Longrightarrow> i < length (cg_store cg)"
    using assms(1) by (auto simp: group_inv_def tracked_def ran_def)
  have "tracked (assign_one tp cg) (cl\<lparr>cl_assigned := insert tp (cl_assigned cl)\<rparr>)"
  proof -
    have old: "i < length (cg_store cg) \<and> pc_tp (cg_store cg ! i) = t" if "cg_consumers cg t = Some i" for t i
      using assms(1) that by (simp add: group_inv_def tracked_def)
    have live: "cg_consumers cg (pc_tp (cg_store cg ! i)) = Some i"
      if "i < length (cg_store cg)" "pc_status (cg_store cg ! i) \<noteq> Returned" for i
      using assms(1,2) that by (simp add: group_inv_def tracked_def)
    have "dom (cg_consumers cg) = cl_assigned cl" "cl_callback cl \<longleftrightarrow> cg_lost cg \<noteq> None"
      using assms(1) by (simp_all add: group_inv_def tracked_def)
    moreover have "i < length (cg_store (assign_one tp cg)) \<and> pc_tp (cg_store (assign_one tp cg) ! i) = t"
      if "cg_consumers (assign_one tp cg) t = Some i" for t i
      using that old [of t i] by (auto simp: assign_one_def nth_append split: if_splits)
    moreover have "cg_consumers (assign_one tp cg) (pc_tp (cg_store (assign_one tp cg) ! i)) = Some i"
      if "i < length (cg_store (assign_one tp cg))" "pc_status (cg_store (assign_one tp cg) ! i) \<noteq> Returned" for i
    proof (cases "i < length (cg_store cg)")
      case True
      then show ?thesis using that live [of i] fresh by (auto simp: assign_one_def nth_append)
    next
      case False
      then have "i = length (cg_store cg)" using that(1) by (simp add: assign_one_def)
      then show ?thesis by (simp add: assign_one_def)
    qed
    ultimately show ?thesis by (simp add: tracked_def) (simp add: assign_one_def)
  qed
  moreover have "waited (assign_one tp cg)" using assms by (simp add: waited_def assign_one_def)
  moreover have "quit_by_once (assign_one tp cg)"
    using assms by (auto simp: group_inv_def quit_by_once_def assign_one_def)
  moreover have "serving (assign_one tp cg)"
    using assms bound
    by (auto simp: group_inv_def serving_def assign_one_def ran_map_upd fresh nth_append)
  moreover have "shutdown_ids (assign_one tp cg)"
    using assms by (fastforce simp: group_inv_def shutdown_ids_def assign_one_def)
  moreover have "offering (assign_one tp cg) (cl\<lparr>cl_assigned := insert tp (cl_assigned cl)\<rparr>)"
    using assms by (auto simp: group_inv_def offering_def assign_one_def ran_map_upd fresh
      split: poll_status.splits list.splits)
  ultimately show ?thesis by (simp add: group_inv_def)
qed

lemma fold_assign_inv:
  "group_inv cg cl \<Longrightarrow> cg_lost cg = None \<Longrightarrow> distinct tps \<Longrightarrow> set tps \<inter> cl_assigned cl = {} \<Longrightarrow>
     group_inv (fold assign_one tps cg) (cl\<lparr>cl_assigned := cl_assigned cl \<union> set tps\<rparr>)"
proof (induction tps arbitrary: cg cl)
  case (Cons tp tps)
  have "group_inv (assign_one tp cg) (cl\<lparr>cl_assigned := insert tp (cl_assigned cl)\<rparr>)"
    using Cons.prems by (intro assign_one_inv) auto
  from Cons.IH [OF this] Cons.prems show ?case by (auto simp: assign_one_def insert_commute)
qed simp

text \<open>One lost partition: its consumer moves from the map to the list that is waited for.\<close>

lemma lost_one_inv:
  assumes inv: "group_inv (cg\<lparr>cg_lost := Some ws\<rparr>) cl" and i: "cg_consumers cg tp = Some i"
    and free: "\<not> cl_blocked cl"
  shows "\<exists>pc. closeQuitChannel (cg_store cg ! i) = Ret pc \<and>
    group_inv (cg\<lparr>cg_consumers := (cg_consumers cg)(tp := None), cg_store := (cg_store cg)[i := pc],
                 cg_lost := Some (ws @ [i])\<rparr>) (cl\<lparr>cl_assigned := cl_assigned cl - {tp}\<rparr>)"
proof -
  define pc where "pc = (cg_store cg ! i)\<lparr>pc_quit := True, pc_once := True\<rparr>"
  have len: "i < length (cg_store cg)" and tp: "pc_tp (cg_store cg ! i) = tp"
    using inv i by (auto simp: group_inv_def tracked_def)
  have once: "pc_quit (cg_store cg ! i) \<longleftrightarrow> pc_once (cg_store cg ! i)"
    using inv len by (auto simp: group_inv_def quit_by_once_def)
  have ptp: "pc_tp ((cg_store cg)[i := pc] ! j) = pc_tp (cg_store cg ! j)" for j
    using len by (cases "j = i") (simp_all add: pc_def)
  have st: "pc_status ((cg_store cg)[i := pc] ! j) = pc_status (cg_store cg ! j)" for j
    using len by (cases "j = i") (simp_all add: pc_def)
  have map: "\<And>tp' j. cg_consumers cg tp' = Some j \<Longrightarrow> pc_tp (cg_store cg ! j) = tp'"
    using inv by (auto simp: group_inv_def tracked_def)
  let ?cg = "cg\<lparr>cg_consumers := (cg_consumers cg)(tp := None), cg_store := (cg_store cg)[i := pc],
                cg_lost := Some (ws @ [i])\<rparr>"
  have "tracked ?cg (cl\<lparr>cl_assigned := cl_assigned cl - {tp}\<rparr>)"
  proof -
    have old: "j < length (cg_store cg) \<and> pc_tp (cg_store cg ! j) = t" if "cg_consumers cg t = Some j" for t j
      using inv that by (simp add: group_inv_def tracked_def)
    have live: "cg_consumers cg (pc_tp (cg_store cg ! j)) = Some j \<or> j \<in> set ws"
      if "j < length (cg_store cg)" "pc_status (cg_store cg ! j) \<noteq> Returned" for j
      using inv that by (simp add: group_inv_def tracked_def)
    have "dom (cg_consumers cg) = cl_assigned cl" "cl_callback cl"
      using inv by (simp_all add: group_inv_def tracked_def)
    moreover have "cg_consumers ?cg (pc_tp (cg_store ?cg ! j)) = Some j \<or> j \<in> set (ws @ [i])"
      if "j < length (cg_store ?cg)" "pc_status (cg_store ?cg ! j) \<noteq> Returned" for j
      using that live [of j] i tp by (auto simp: ptp st)
    moreover have "j < length (cg_store ?cg) \<and> pc_tp (cg_store ?cg ! j) = t"
      if "cg_consumers ?cg t = Some j" for t j
      using that old [of t j] by (simp add: ptp split: if_splits)
    ultimately show ?thesis unfolding tracked_def by simp
  qed
  moreover have "waited ?cg"
    using inv i len tp by (auto simp: group_inv_def waited_def ptp inj_on_def)
  moreover have "quit_by_once ?cg"
    using inv len by (auto simp: group_inv_def quit_by_once_def pc_def dest!: set_update_subset_insert [THEN subsetD])
  moreover have "serving ?cg"
  proof -
    have other: "j \<noteq> i \<and> j \<in> ran (cg_consumers cg)" if "j \<in> ran ((cg_consumers cg)(tp := None))" for j
      using that map tp by (auto simp: ran_def split: if_splits)
    then have "(cg_store cg)[i := pc] ! j = cg_store cg ! j \<and> j \<in> ran (cg_consumers cg)"
      if "j \<in> ran ((cg_consumers cg)(tp := None))" for j
      using other [OF that] by (metis nth_list_update_neq)
    then show ?thesis using inv by (simp add: group_inv_def serving_def)
  qed
  moreover have "shutdown_ids ?cg" using inv by (simp add: group_inv_def shutdown_ids_def)
  moreover have "offering ?cg (cl\<lparr>cl_assigned := cl_assigned cl - {tp}\<rparr>)"
    using inv free by (auto simp: group_inv_def offering_def split: poll_status.splits list.splits)
  ultimately show ?thesis using once by (intro exI [of _ pc]) (simp add: closeQuitChannel_ok pc_def group_inv_def)
qed

lemma lost_each_inv:
  "group_inv (cg\<lparr>cg_lost := Some ws\<rparr>) cl \<Longrightarrow> \<not> cl_blocked cl \<Longrightarrow> distinct tps \<Longrightarrow> set tps \<subseteq> cl_assigned cl \<Longrightarrow>
     \<exists>cg' ws'. lost_each tps ws cg = Ret (cg', ws') \<and>
       group_inv (cg'\<lparr>cg_lost := Some ws'\<rparr>) (cl\<lparr>cl_assigned := cl_assigned cl - set tps\<rparr>)"
proof (induction tps arbitrary: cg ws cl)
  case (Cons tp tps)
  have "dom (cg_consumers cg) = cl_assigned cl"
    using Cons.prems(1) by (simp add: group_inv_def tracked_def)
  then obtain i where i: "cg_consumers cg tp = Some i" using Cons.prems(4) by fastforce
  from lost_one_inv [OF Cons.prems(1) i Cons.prems(2)] obtain pc where
    pc: "closeQuitChannel (cg_store cg ! i) = Ret pc" and
    inv: "group_inv (cg\<lparr>cg_consumers := (cg_consumers cg)(tp := None), cg_store := (cg_store cg)[i := pc],
                 cg_lost := Some (ws @ [i])\<rparr>) (cl\<lparr>cl_assigned := cl_assigned cl - {tp}\<rparr>)" by blast
  let ?cg = "cg\<lparr>cg_consumers := (cg_consumers cg)(tp := None), cg_store := (cg_store cg)[i := pc]\<rparr>"
  have "\<exists>cg' ws'. lost_each tps (ws @ [i]) ?cg = Ret (cg', ws') \<and>
       group_inv (cg'\<lparr>cg_lost := Some ws'\<rparr>) (cl\<lparr>cl_assigned := cl_assigned cl - {tp} - set tps\<rparr>)"
    using Cons.IH [where cg = ?cg and ws = "ws @ [i]" and cl = "cl\<lparr>cl_assigned := cl_assigned cl - {tp}\<rparr>"] inv Cons.prems(2-4)
    by auto
  moreover have "cl_assigned cl - {tp} - set tps = cl_assigned cl - set (tp # tps)" by auto
  ultimately show ?case by (simp add: i pc)
qed auto

lemma lost_inv:
  assumes "group_inv cg cl" and "client_allows cl (Lost m)"
  shows "\<exists>cg'. lost m cg = Ret cg' \<and> group_inv cg' (client_step (Lost m) cl)"
proof -
  have "group_inv (cg\<lparr>cg_lost := Some []\<rparr>) (cl\<lparr>cl_callback := True\<rparr>)"
    using assms by (auto simp: group_inv_defs split: poll_status.splits list.splits)
  from lost_each_inv [OF this, of "topic_partitions m"] assms(2) show ?thesis
    by (cases cl) (auto simp: lost_def)
qed

text \<open>A goroutine changes its status.\<close>

lemma set_status_inv:
  assumes inv: "group_inv cg cl" and i: "i < length (cg_store cg)" and old: "pc_status (cg_store cg ! i) \<noteq> Returned"
    and st: "st = Returned \<Longrightarrow> pc_quit (cg_store cg ! i) \<or> cg_ctx_done cg"
  shows "group_inv (set_status i st cg) cl"
proof -
  let ?pc = "(cg_store cg ! i)\<lparr>pc_status := st\<rparr>"
  have tp: "pc_tp ((cg_store cg)[i := ?pc] ! j) = pc_tp (cg_store cg ! j)"
    and q: "pc_quit ((cg_store cg)[i := ?pc] ! j) = pc_quit (cg_store cg ! j)" for j
    using i by (cases "j = i"; simp)+
  have "tracked (set_status i st cg) cl"
  proof -
    have live: "cg_consumers cg (pc_tp (cg_store cg ! j)) = Some j \<or> (\<exists>ws. cg_lost cg = Some ws \<and> j \<in> set ws)"
      if "j < length (cg_store cg)" "pc_status ((cg_store cg)[i := ?pc] ! j) \<noteq> Returned" for j
      using inv that old by (cases "j = i") (simp_all add: group_inv_def tracked_def)
    show ?thesis using inv live
      unfolding group_inv_def tracked_def set_status_def by (simp add: tp)
  qed
  moreover have "waited (set_status i st cg)" using inv by (simp add: group_inv_def waited_def set_status_def tp)
  moreover have "quit_by_once (set_status i st cg)"
    using inv i by (auto simp: group_inv_def quit_by_once_def set_status_def dest!: set_update_subset_insert [THEN subsetD])
  moreover have "serving (set_status i st cg)"
  proof -
    have "pc_status ((cg_store cg)[i := ?pc] ! j) \<noteq> Returned"
      if "\<not> cg_ctx_done cg" "j \<in> ran (cg_consumers cg)" for j
      using inv that st i by (cases "j = i") (auto simp: group_inv_def serving_def)
    then show ?thesis using inv by (simp add: group_inv_def serving_def set_status_def q)
  qed
  moreover have "shutdown_ids (set_status i st cg)" using inv by (simp add: group_inv_def shutdown_ids_def set_status_def)
  moreover have "offering (set_status i st cg) cl"
    using inv by (auto simp: group_inv_def offering_def set_status_def split: poll_status.splits list.splits)
  ultimately show ?thesis by (simp add: group_inv_def)
qed

text \<open>The polling goroutine moves; only \<open>offering\<close> has to be shown again.\<close>

lemma poll_inv:
  "group_inv cg cl \<Longrightarrow> offering (cg\<lparr>cg_poll := p\<rparr>) (cl\<lparr>cl_blocked := b\<rparr>) \<Longrightarrow>
     group_inv (cg\<lparr>cg_poll := p\<rparr>) (cl\<lparr>cl_blocked := b\<rparr>)"
  by (simp add: group_inv_def tracked_def waited_def quit_by_once_def serving_def shutdown_ids_def)

lemma poll_inv':
  assumes "group_inv cg cl" "offering (cg\<lparr>cg_poll := p\<rparr>) cl"
  shows "group_inv (cg\<lparr>cg_poll := p\<rparr>) cl"
  using poll_inv [of cg cl p "cl_blocked cl"] assms by simp

lemma pollRecords_Ret:
  "pollRecords fs cg = Ret cg' \<Longrightarrow>
     cg' = cg\<lparr>cg_poll := PollStopped\<rparr> \<or> cg' = cg\<lparr>cg_poll := Dispatching (fetch_partitions fs)\<rparr>"
  by (auto simp: pollRecords_def go_bind_Ret_iff split: if_splits)

lemma offering_simps [simp]:
  "offering (cg\<lparr>cg_poll := PollStopped\<rparr>) cl" "offering (cg\<lparr>cg_poll := PollLoop\<rparr>) cl"
  "offering (cg\<lparr>cg_poll := Dispatching []\<rparr>) cl"
  "offering (cg\<lparr>cg_poll := Dispatching (x # xs)\<rparr>) cl \<longleftrightarrow> cl_blocked cl"
  "offering (cg\<lparr>cg_poll := Offering i recs rest\<rparr>) cl \<longleftrightarrow> cl_blocked cl \<and> i \<in> ran (cg_consumers cg)"
  by (simp_all add: offering_def)

lemma offering_dispatch: "cl_blocked cl \<Longrightarrow> offering (cg\<lparr>cg_poll := Dispatching xs\<rparr>) cl"
  by (cases xs) simp_all

text \<open>The shutdown closes the quit channel of a consumer.\<close>

lemma shutdown_quit_inv:
  assumes inv: "group_inv cg cl" and sh: "cg_shutdown cg = ShuttingDown todo ids" and i: "i \<in> set todo"
    and pc: "closeQuitChannel (cg_store cg ! i) = Ret pc"
  shows "group_inv (cg\<lparr>cg_store := (cg_store cg)[i := pc], cg_shutdown := ShuttingDown (remove1 i todo) ids\<rparr>) cl"
proof -
  have len: "i < length (cg_store cg)" using inv sh i by (auto simp: group_inv_def shutdown_ids_def)
  have "pc_quit (cg_store cg ! i) \<longleftrightarrow> pc_once (cg_store cg ! i)"
    using inv len by (auto simp: group_inv_def quit_by_once_def)
  from closeQuitChannel_Ret [OF pc this] have pc': "pc = (cg_store cg ! i)\<lparr>pc_quit := True, pc_once := True\<rparr>" .
  have tp: "pc_tp ((cg_store cg)[i := pc] ! j) = pc_tp (cg_store cg ! j)"
    and st: "pc_status ((cg_store cg)[i := pc] ! j) = pc_status (cg_store cg ! j)" for j
    using len by (cases "j = i"; simp add: pc')+
  let ?cg = "cg\<lparr>cg_store := (cg_store cg)[i := pc], cg_shutdown := ShuttingDown (remove1 i todo) ids\<rparr>"
  have "tracked ?cg cl" using inv unfolding group_inv_def tracked_def by (simp add: tp st)
  moreover have "waited ?cg" using inv by (simp add: group_inv_def waited_def tp)
  moreover have "quit_by_once ?cg"
    using inv len by (auto simp: group_inv_def quit_by_once_def pc' dest!: set_update_subset_insert [THEN subsetD])
  moreover have "serving ?cg" using inv sh by (auto simp: group_inv_def serving_def)
  moreover have "shutdown_ids ?cg"
    using inv sh by (auto simp: group_inv_def shutdown_ids_def dest: notin_set_remove1 set_remove1_subset [THEN subsetD])
  moreover have "offering ?cg cl"
    using inv by (auto simp: group_inv_def offering_def split: poll_status.splits list.splits)
  ultimately show ?thesis by (simp add: group_inv_def)
qed

lemma group_step_inv:
  assumes "group_step cg l cg'" and "client_allows cl l" and inv: "group_inv cg cl"
  shows "group_inv cg' (client_step l cl)"
  using assms(1)
proof cases
  case (assigned m)
  with assms(2) have allow: "client_allows cl (Assigned m)" by simp
  then have "cg_lost cg = None" using inv by (simp add: group_inv_def tracked_def)
  with fold_assign_inv [OF inv this, of "topic_partitions m"] allow assigned show ?thesis
    by (auto simp: assigned_def)
next
  case (lost m)
  with lost_inv [OF inv, of m] assms(2) show ?thesis by auto
next
  case (lost_returned ws)
  have "tracked (cg\<lparr>cg_lost := None\<rparr>) (cl\<lparr>cl_callback := False\<rparr>)"
    using inv lost_returned unfolding group_inv_def tracked_def by auto
  moreover have "offering (cg\<lparr>cg_lost := None\<rparr>) (cl\<lparr>cl_callback := False\<rparr>)"
    using inv by (auto simp: group_inv_def offering_def split: poll_status.splits list.splits)
  ultimately show ?thesis using inv lost_returned
    by (simp add: group_inv_def waited_def quit_by_once_def serving_def shutdown_ids_def)
next
  case (poll_returned fs blocks)
  from poll_returned(1) assms(2) have "client_allows cl (PollReturned fs blocks)" by simp
  then have "offering (cg\<lparr>cg_poll := Dispatching (fetch_partitions fs)\<rparr>) (cl\<lparr>cl_blocked := cl_blocked cl \<or> blocks\<rparr>)"
    by (cases "fetch_partitions fs") simp_all
  with pollRecords_Ret [OF poll_returned(3)] show ?thesis
    using poll_inv [OF inv, of _ "cl_blocked cl \<or> blocks"] poll_returned(1) by auto
next
  case (lookup tp recs rest)
  have blocked: "cl_blocked cl" using inv lookup(3) by (simp add: group_inv_def offering_def)
  show ?thesis
  proof (cases "cg_consumers cg tp")
    case None
    then show ?thesis using lookup poll_inv' [OF inv offering_dispatch [OF blocked]] by simp
  next
    case (Some i)
    then have "i \<in> ran (cg_consumers cg)" by (auto simp: ran_def)
    then show ?thesis using lookup blocked Some poll_inv' [OF inv, of "Offering i recs rest"] by simp
  qed
next
  case (sent i recs rest)
  have blocked: "cl_blocked cl" and "i \<in> ran (cg_consumers cg)"
    using inv sent(3) by (simp_all add: group_inv_def offering_def)
  then have len: "i < length (cg_store cg)" using inv by (auto simp: group_inv_def tracked_def ran_def)
  have "group_inv (set_status i (Handling recs) cg) cl"
    by (rule set_status_inv [OF inv len]) (use sent in auto)
  from poll_inv' [OF this offering_dispatch [OF blocked]] show ?thesis using sent by simp
next
  case (send_done i recs rest)
  have blocked: "cl_blocked cl" using inv send_done(3) by (simp add: group_inv_def offering_def)
  then show ?thesis using send_done poll_inv' [OF inv offering_dispatch [OF blocked]] by simp
next
  case (shutdown ids)
  have "set ids \<subseteq> {..< length (cg_store cg)}"
    using inv shutdown by (auto simp: group_inv_def tracked_def ran_def)
  then show ?thesis using inv shutdown unfolding group_inv_defs by (auto split: poll_status.splits list.splits)
next
  case (shutdown_quit todo ids i pc)
  then show ?thesis using shutdown_quit_inv [OF inv shutdown_quit(3-5)] by simp
next
  case (handled i recs)
  then show ?thesis using set_status_inv [OF inv handled(3), of Selecting] by simp
next
  case (quit_seen i)
  then show ?thesis using set_status_inv [OF inv quit_seen(3)] by simp
next
  case (done_seen i)
  then show ?thesis using set_status_inv [OF inv done_seen(3)] by simp
next
  case poll_done
  then show ?thesis using poll_inv' [OF inv, of PollStopped] by simp
next
  case allow_rebalance
  then show ?thesis using poll_inv [OF inv, of PollLoop False] by simp
next
  case cancel
  then show ?thesis using inv
    unfolding group_inv_def tracked_def waited_def quit_by_once_def serving_def shutdown_ids_def offering_def
    by (auto split: poll_status.splits list.splits)
next
  case (close_called ids)
  then show ?thesis using inv unfolding group_inv_def tracked_def waited_def quit_by_once_def serving_def shutdown_ids_def offering_def
    by (simp split: poll_status.splits list.splits)
next
  case close_returned
  then show ?thesis using inv unfolding group_inv_def tracked_def waited_def quit_by_once_def serving_def shutdown_ids_def offering_def
    by (simp split: poll_status.splits list.splits)
qed

lemma group_run_inv:
  assumes "group_run cg tr cg'" and "cg = new_group" and "kgo_contract tr"
  shows "group_inv cg' (client_after tr)"
  using assms
proof (induction rule: group_run.induct)
  case (start cg)
  then show ?case by (simp add: group_inv_start)
next
  case (step cg tr cg1 l cg2)
  then have "group_inv cg1 (client_after tr)" "client_allows (client_after tr) l"
    by (simp_all add: kgo_contract_append)
  with step.hyps(2) show ?case by (simp add: group_step_inv)
qed

section \<open>Partitions and their consumers\<close>

lemma tracked_consumer:
  "group_inv cg cl \<Longrightarrow> cg_consumers cg tp = Some i \<Longrightarrow> i < length (cg_store cg) \<and> pc_tp (cg_store cg ! i) = tp"
  unfolding group_inv_def tracked_def by blast

text \<open>A goroutine that has not returned is the one of its partition, in the map or waited for.\<close>

lemma live_consumer_unique:
  assumes inv: "group_inv cg cl" and "i < length (cg_store cg)" "j < length (cg_store cg)"
    and "pc_status (cg_store cg ! i) \<noteq> Returned" "pc_status (cg_store cg ! j) \<noteq> Returned"
    and tp: "pc_tp (cg_store cg ! i) = pc_tp (cg_store cg ! j)"
  shows "i = j"
proof -
  have live: "cg_consumers cg (pc_tp (cg_store cg ! k)) = Some k \<or> (\<exists>ws. cg_lost cg = Some ws \<and> k \<in> set ws)"
    if "k \<in> {i, j}" for k
    using inv assms(2-5) that unfolding group_inv_def tracked_def by blast
  have gone: "cg_consumers cg (pc_tp (cg_store cg ! k)) = None" if "cg_lost cg = Some ws" "k \<in> set ws" for ws k
    using inv that by (simp add: group_inv_def waited_def)
  have inj: "inj_on (\<lambda>k. pc_tp (cg_store cg ! k)) (set ws)" if "cg_lost cg = Some ws" for ws
    using inv that by (simp add: group_inv_def waited_def)
  show ?thesis
  proof (cases "cg_consumers cg (pc_tp (cg_store cg ! i))")
    case None
    with live [of i] live [of j] tp obtain ws where "cg_lost cg = Some ws" "i \<in> set ws" "j \<in> set ws" by auto
    with inj tp show ?thesis by (meson inj_onD)
  next
    case (Some k)
    have own: "cg_consumers cg (pc_tp (cg_store cg ! l)) = Some l" if "l \<in> {i, j}" for l
    proof -
      have "cg_consumers cg (pc_tp (cg_store cg ! l)) \<noteq> None" using Some tp that by auto
      then have "\<not> (\<exists>ws. cg_lost cg = Some ws \<and> l \<in> set ws)" using gone by (elim contrapos_nn exE conjE)
      with live [OF that] show ?thesis by simp
    qed
    have "cg_consumers cg (pc_tp (cg_store cg ! i)) = Some i" by (rule own) simp
    then have "cg_consumers cg (pc_tp (cg_store cg ! j)) = Some i" unfolding tp .
    moreover have "cg_consumers cg (pc_tp (cg_store cg ! j)) = Some j" by (rule own) simp
    ultimately show ?thesis by (rule option.inject [THEN iffD1, OF trans [OF sym]])
  qed
qed

text \<open>
  C6: at most one goroutine works for a partition. In every state the group reaches, two consumers
  of the same topic and partition whose goroutines have not returned are the same consumer; and a
  consumer still at work on a partition the group no longer owns exists only while \<open>lost\<close> waits
  for it, so the partition is not given to anyone else before its last batch has ended.
\<close>
theorem one_consumer_per_partition:
  assumes "group_run new_group tr cg" and "kgo_contract tr"
    and "i < length (cg_store cg)" and "pc_status (cg_store cg ! i) \<noteq> Returned"
  shows "(\<forall>j < length (cg_store cg). pc_status (cg_store cg ! j) \<noteq> Returned \<longrightarrow>
            pc_tp (cg_store cg ! j) = pc_tp (cg_store cg ! i) \<longrightarrow> j = i) \<and>
         (pc_tp (cg_store cg ! i) \<notin> cl_assigned (client_after tr) \<longrightarrow>
            (\<exists>ws. cg_lost cg = Some ws \<and> i \<in> set ws) \<and> cl_callback (client_after tr))"
proof (rule conjI)
  have inv: "group_inv cg (client_after tr)" by (rule group_run_inv) (use assms in auto)
  then show "\<forall>j < length (cg_store cg). pc_status (cg_store cg ! j) \<noteq> Returned \<longrightarrow>
           pc_tp (cg_store cg ! j) = pc_tp (cg_store cg ! i) \<longrightarrow> j = i"
    using assms(3,4) live_consumer_unique by blast
next
  have inv: "group_inv cg (client_after tr)" by (rule group_run_inv) (use assms in auto)
  have "cg_consumers cg (pc_tp (cg_store cg ! i)) = Some i \<or> (\<exists>ws. cg_lost cg = Some ws \<and> i \<in> set ws)"
    using inv assms(3,4) unfolding group_inv_def tracked_def by blast
  moreover have "dom (cg_consumers cg) = cl_assigned (client_after tr)"
    and "cl_callback (client_after tr) \<longleftrightarrow> cg_lost cg \<noteq> None"
    using inv by (simp_all add: group_inv_def tracked_def)
  ultimately show "pc_tp (cg_store cg ! i) \<notin> cl_assigned (client_after tr) \<longrightarrow>
           (\<exists>ws. cg_lost cg = Some ws \<and> i \<in> set ws) \<and> cl_callback (client_after tr)"
    by (auto simp: dom_def)
qed

text \<open>
  C7: the callbacks and the shutdown do not panic. Whatever the client may do next in a reachable
  state, neither \<open>lost\<close> (a nil consumer, a quit channel closed twice) nor \<open>gracefulShutdown\<close> panics;
  only a fetch error that is not a context error does, and then with the message of that error.
\<close>
theorem callbacks_do_not_panic:
  assumes "group_run new_group tr cg" and "kgo_contract (tr @ [l])" and "group_panics cg l msg"
  shows "\<exists>fs blocks e. l = PollReturned fs blocks \<and> e \<in> set (fetch_errors fs) \<and> msg = error_msg e \<and>
           e \<noteq> ErrContextCanceled \<and> e \<noteq> ErrDeadlineExceeded"
proof -
  have inv: "group_inv cg (client_after tr)" by (rule group_run_inv) (use assms in \<open>auto simp: kgo_contract_append\<close>)
  have allow: "client_allows (client_after tr) l" using assms(2) by (simp add: kgo_contract_append)
  have check: "check_errors es b = Panic msg \<Longrightarrow>
    \<exists>e \<in> set es. msg = error_msg e \<and> e \<noteq> ErrContextCanceled \<and> e \<noteq> ErrDeadlineExceeded" for es b
    by (induction es b rule: check_errors.induct) (auto split: if_splits)
  from assms(3) show ?thesis
  proof cases
    case (lost m)
    then show ?thesis using lost_inv [OF inv, of m] allow by simp
  next
    case (poll fs blocks)
    then have "check_errors (fetch_errors fs) False = Panic msg"
      by (cases "check_errors (fetch_errors fs) False") (auto simp: pollRecords_def split: if_splits)
    from check [OF this] poll(1) show ?thesis by blast
  next
    case (shutdown_quit todo ids i)
    have "i < length (cg_store cg)" using inv shutdown_quit(2,3) by (auto simp: group_inv_def shutdown_ids_def)
    then have "pc_quit (cg_store cg ! i) \<longleftrightarrow> pc_once (cg_store cg ! i)"
      using inv by (auto simp: group_inv_def quit_by_once_def)
    with shutdown_quit(4) show ?thesis by (simp add: closeQuitChannel_ok)
  qed
qed


section \<open>A goroutine runs consume\<close>

text \<open>The alternatives the goroutine of consumer \<open>i\<close> selects in a run of the group, in order.\<close>

fun selected :: "nat \<Rightarrow> 'v label \<Rightarrow> 'v pc_event list" where
  "selected i (Sent j recs) = (if j = i then [Batch recs] else [])"
| "selected i (QuitSeen j) = (if j = i then [Quit] else [])"
| "selected i (DoneSeen j) = (if j = i then [CtxDone] else [])"
| "selected i _ = []"

definition pc_events :: "nat \<Rightarrow> 'v label list \<Rightarrow> 'v pc_event list" where
  "pc_events i tr = concat (map (selected i) tr)"

definition returned :: "'v ConsumerGroup \<Rightarrow> nat \<Rightarrow> bool" where
  "returned cg i \<longleftrightarrow> i < length (cg_store cg) \<and> pc_status (cg_store cg ! i) = Returned"

lemma returned_assigned: "returned (assigned m cg) i \<longleftrightarrow> returned cg i"
proof -
  have one: "returned (assign_one tp cg) i \<longleftrightarrow> returned cg i" for tp and cg :: "'v ConsumerGroup"
    by (auto simp: returned_def assign_one_def nth_append less_Suc_eq)
  have "returned (fold assign_one tps cg) i \<longleftrightarrow> returned cg i" for tps
    by (induction tps arbitrary: cg) (simp_all add: one)
  then show ?thesis by (simp add: assigned_def)
qed

lemma update_status:
  "pc_status pc = pc_status (pcs ! i) \<Longrightarrow> pc_status (pcs[i := pc] ! j) = pc_status (pcs ! j)"
  by (cases "i < length pcs"; cases "j = i") (simp_all add: list_update_beyond)

lemma lost_each_frame:
  "lost_each tps ws cg = Ret (cg', ws') \<Longrightarrow>
     cg_poll cg' = cg_poll cg \<and> length (cg_store cg') = length (cg_store cg) \<and>
     (\<forall>i. pc_status (cg_store cg' ! i) = pc_status (cg_store cg ! i))"
proof (induction tps ws cg rule: lost_each.induct)
  case (2 tp tps ws cg)
  then obtain i pc where i: "cg_consumers cg tp = Some i" and pc: "closeQuitChannel (cg_store cg ! i) = Ret pc"
    and rest: "lost_each tps (ws @ [i])
        (cg\<lparr>cg_consumers := (cg_consumers cg)(tp := None), cg_store := (cg_store cg)[i := pc]\<rparr>) = Ret (cg', ws')"
    by (auto simp: go_bind_Ret_iff split: option.splits)
  have "pc_status pc = pc_status (cg_store cg ! i)" using pc by (auto simp: closeQuitChannel_def split: if_splits)
  then have "pc_status ((cg_store cg)[i := pc] ! j) = pc_status (cg_store cg ! j)" for j
    by (rule update_status)
  with "2.IH" [OF i pc rest] show ?case by simp
qed simp

lemma lost_frame:
  "lost m cg = Ret cg' \<Longrightarrow> cg_poll cg' = cg_poll cg \<and> (returned cg' i \<longleftrightarrow> returned cg i)"
  by (auto simp: lost_def returned_def go_bind_Ret_iff dest: lost_each_frame)

text \<open>How a step changes whether the goroutine of \<open>i\<close> has returned.\<close>

lemma group_step_returned:
  assumes "group_step cg l cg'" and inv: "group_inv cg cl"
  shows "if selected i l = [] then returned cg' i = returned cg i
         else \<not> returned cg i \<and> (returned cg' i \<longleftrightarrow> l = QuitSeen i \<or> l = DoneSeen i)"
  using assms(1)
proof cases
  case (lost m)
  then show ?thesis using lost_frame by auto
next
  case (assigned m)
  then show ?thesis by (simp add: returned_assigned)
next
  case (sent j recs rest)
  have "j \<in> ran (cg_consumers cg)" using inv sent(3) by (simp add: group_inv_def offering_def)
  then have "j < length (cg_store cg)" using tracked_consumer [OF inv] by (auto simp: ran_def)
  then show ?thesis using sent by (auto simp: returned_def set_status_def nth_list_update)
next
  case (shutdown_quit todo ids j pc)
  have "pc_status pc = pc_status (cg_store cg ! j)"
    using shutdown_quit(5) by (auto simp: closeQuitChannel_def split: if_splits)
  then have "pc_status ((cg_store cg)[j := pc] ! k) = pc_status (cg_store cg ! k)" for k
    by (rule update_status)
  then show ?thesis using shutdown_quit by (simp add: returned_def)
next
  case (poll_returned fs blocks)
  then show ?thesis by (auto simp: returned_def dest!: pollRecords_Ret)
qed (auto simp: returned_def set_status_def nth_list_update)

lemma selected_cases:
  "selected i l \<noteq> [] \<Longrightarrow> (\<exists>recs. selected i l = [Batch recs] \<and> l = Sent i recs) \<or>
     (selected i l = [Quit] \<and> l = QuitSeen i) \<or> (selected i l = [CtxDone] \<and> l = DoneSeen i)"
  by (cases l) (auto split: if_splits)

lemma pc_events_shape:
  assumes "group_run cg0 tr cg" and "cg0 = new_group" and "kgo_contract tr"
  shows "\<exists>bs. pc_events i tr = map Batch bs @ [] \<and> \<not> returned cg i \<or>
           returned cg i \<and> (pc_events i tr = map Batch bs @ [Quit] \<or> pc_events i tr = map Batch bs @ [CtxDone])"
  using assms
proof (induction rule: group_run.induct)
  case (start cg)
  then show ?case by (auto simp: pc_events_def returned_def new_group_def)
next
  case (step cg tr cg1 l cg2)
  have con: "kgo_contract tr" using step.prems(2) by (simp add: kgo_contract_append)
  have inv: "group_inv cg1 (client_after tr)" by (rule group_run_inv [OF step.hyps(1) step.prems(1) con])
  note change = group_step_returned [OF step.hyps(2) inv, of i]
  have ev: "pc_events i (tr @ [l]) = pc_events i tr @ selected i l" by (simp add: pc_events_def)
  from step.IH [OF step.prems(1) con] obtain bs where IH:
    "pc_events i tr = map Batch bs @ [] \<and> \<not> returned cg1 i \<or>
     returned cg1 i \<and> (pc_events i tr = map Batch bs @ [Quit] \<or> pc_events i tr = map Batch bs @ [CtxDone])" by blast
  show ?case
  proof (cases "selected i l = []")
    case True
    with change IH ev show ?thesis by auto
  next
    case False
    with change IH have old: "pc_events i tr = map Batch bs" by auto
    from selected_cases [OF False] show ?thesis
    proof (elim disjE exE conjE)
      fix recs assume "selected i l = [Batch recs]" "l = Sent i recs"
      then have "pc_events i (tr @ [l]) = map Batch (bs @ [recs]) @ [] \<and> \<not> returned cg2 i"
        using change old ev by simp
      then show ?thesis by blast
    qed (use change old ev in auto)
  qed
qed

lemma consume_flag:
  "consume P C E es w = Ret (w', b) \<Longrightarrow> b \<longleftrightarrow> Quit \<in> set es \<or> CtxDone \<in> set es"
  by (induction P C E es w rule: consume.induct) (auto simp: go_bind_Ret_iff)

text \<open>
  C9: the group refines the loop of a single consumer. What the goroutine of a consumer selects in
  a run of the group is a sequence of batches that ends with the closed quit channel or the done
  context exactly when the goroutine has returned, and \<open>consume\<close> run on this sequence ends its loop
  in just that case.
\<close>
theorem goroutine_refines_consume:
  assumes "group_run new_group tr cg" and "kgo_contract tr" and "i < length (cg_store cg)"
  shows "(\<exists>bs stop. pc_events i tr = map Batch bs @ stop \<and>
            (if pc_status (cg_store cg ! i) = Returned then stop = [Quit] \<or> stop = [CtxDone] else stop = [])) \<and>
         (\<forall>P C E w w' b. consume P C E (pc_events i tr) w = Ret (w', b) \<longrightarrow>
            b = (pc_status (cg_store cg ! i) = Returned))"
proof -
  obtain bs where "pc_events i tr = map Batch bs @ [] \<and> \<not> returned cg i \<or>
      returned cg i \<and> (pc_events i tr = map Batch bs @ [Quit] \<or> pc_events i tr = map Batch bs @ [CtxDone])"
    using pc_events_shape [OF assms(1) refl assms(2)] by blast
  moreover have "returned cg i \<longleftrightarrow> pc_status (cg_store cg ! i) = Returned"
    using assms(3) by (simp add: returned_def)
  ultimately obtain stop where shape: "pc_events i tr = map Batch bs @ stop"
    "if pc_status (cg_store cg ! i) = Returned then stop = [Quit] \<or> stop = [CtxDone] else stop = []"
    by (metis (full_types))
  moreover have "b = (pc_status (cg_store cg ! i) = Returned)"
    if "consume P C E (pc_events i tr) w = Ret (w', b)" for P C E w w' b
    using consume_flag [OF that] shape by (auto split: if_splits)
  ultimately show ?thesis by blast
qed

section \<open>A shutdown that hangs\<close>

lemma stopped_poll_stays:
  assumes "group_step cg l cg'" and "cg_poll cg = PollStopped"
  shows "cg_poll cg' = PollStopped \<and> l \<noteq> AllowRebalance"
  using assms(1)
proof cases
  case (assigned m)
  have one: "cg_poll (assign_one tp cg) = cg_poll cg" for tp and cg :: "'v ConsumerGroup"
    by (simp add: assign_one_def)
  have "cg_poll (fold assign_one tps cg) = cg_poll cg" for tps
    by (induction tps arbitrary: cg) (simp_all add: one)
  then show ?thesis using assigned assms(2) by (simp add: assigned_def)
next
  case (lost m)
  then show ?thesis using lost_frame [of m cg cg'] assms(2) by simp
qed (use assms(2) in \<open>simp_all add: set_status_def\<close>)

lemma stopped_run:
  assumes "group_run cg tr cg'" and "cg_poll cg = PollStopped"
  shows "cg_poll cg' = PollStopped \<and> AllowRebalance \<notin> set tr"
  using assms by (induction rule: group_run.induct) (auto dest: stopped_poll_stays)

lemma blocked_for_good:
  "allowed_from cl tr \<Longrightarrow> cl_blocked cl \<Longrightarrow> AllowRebalance \<notin> set tr \<Longrightarrow>
     (\<forall>m. Assigned m \<notin> set tr \<and> Lost m \<notin> set tr) \<and> CloseReturned \<notin> set tr"
proof (induction tr arbitrary: cl)
  case (Cons l tr)
  have "cl_blocked (client_step l cl)" using Cons.prems by (cases l) auto
  with Cons.IH [of "client_step l cl"] Cons.prems have "(\<forall>m. Assigned m \<notin> set tr \<and> Lost m \<notin> set tr) \<and> CloseReturned \<notin> set tr" by simp
  moreover have "(\<forall>m. l \<noteq> Assigned m \<and> l \<noteq> Lost m) \<and> l \<noteq> CloseReturned" using Cons.prems(1,2) by auto
  ultimately show ?case by auto
qed simp

text \<open>
  C10: a shutdown can hang. When the context is done by the time a poll that blocks rebalances
  returns, \<open>pollRecords\<close> returns without \<open>AllowRebalance\<close> and the polling goroutine is over: from
  there on no run gives a partition back, and the \<open>Close\<close> of \<open>gracefulShutdown\<close> never returns.
\<close>
theorem shutdown_hangs_after_blocking_poll:
  assumes "cg_ctx_done cg" and "group_step cg (PollReturned fs True) cg1" and "group_run cg1 tr' cg'"
    and "kgo_contract (tr @ PollReturned fs True # tr')"
  shows "(\<forall>m. Assigned m \<notin> set tr' \<and> Lost m \<notin> set tr') \<and> CloseReturned \<notin> set tr'"
proof -
  from assms(2) have "cg_poll cg1 = PollStopped"
    using assms(1) by cases (auto simp: pollRecords_def go_bind_Ret_iff split: if_splits)
  then have "AllowRebalance \<notin> set tr'" using stopped_run assms(3) by blast
  moreover have "allowed_from (client_step (PollReturned fs True) (client_after tr)) tr'"
    using assms(4) by (simp add: kgo_contract_append)
  ultimately show ?thesis by (intro blocked_for_good) auto
qed

section \<open>A run\<close>

text \<open>
  One partition is assigned, a batch is polled, handed over, and the partition is lost while its
  batch is still handled.
\<close>

definition raw_partitions :: partitions where
  "raw_partitions = [(''events_raw'', [0])]"

definition raw_0 :: TopicPartition where
  "raw_0 = \<lparr>tp_topic = ''events_raw'', tp_partition = 0\<rparr>"

definition one_batch :: "unit fetches" where
  "one_batch = \<lparr>IsClientClosed = False, fetch_errors = [], fetch_partitions = [(raw_0, [sample_record ''a'' 1])]\<rparr>"

definition one_consumer :: "bool \<Rightarrow> bool \<Rightarrow> 'v pc_status \<Rightarrow> bool \<Rightarrow> 'v poll_status \<Rightarrow> 'v ConsumerGroup" where
  "one_consumer owned quit st ctx p =
     \<lparr>cg_consumers = (if owned then [raw_0 \<mapsto> 0] else Map.empty),
      cg_store = [\<lparr>pc_topic = ''events_raw'', pc_partition = 0, pc_quit = quit, pc_once = quit, pc_status = st\<rparr>],
      cg_ctx_done = ctx, cg_poll = p, cg_lost = (if owned then None else Some [0]), cg_shutdown = Running\<rparr>"

lemmas sample_defs = raw_partitions_def raw_0_def one_batch_def one_consumer_def new_group_def
  topic_partitions_def assigned_def assign_one_def new_consumer_def pollRecords_def set_status_def
  lost_def closeQuitChannel_def

lemma sample_offer:
  "group_run new_group [Assigned raw_partitions, PollReturned one_batch True, Lookup]
     (one_consumer True False Selecting False (Offering 0 [sample_record ''a'' 1] []))"
proof -
  have 1: "group_run new_group [Assigned raw_partitions] (one_consumer True False Selecting False PollLoop)"
    using group_run.step [OF group_run.start group_step.assigned [of new_group raw_partitions]]
    by (simp add: sample_defs)
  have "group_step (one_consumer True False Selecting False PollLoop) (PollReturned one_batch True)
      (one_consumer True False Selecting False (Dispatching [(raw_0, [sample_record ''a'' 1])]))"
    by (rule group_step.poll_returned) (simp_all add: sample_defs)
  from group_run.step [OF 1 this] have 2: "group_run new_group [Assigned raw_partitions, PollReturned one_batch True]
      (one_consumer True False Selecting False (Dispatching [(raw_0, [sample_record ''a'' 1])]))" by simp
  from group_run.step [OF 2 group_step.lookup] show ?thesis
    by (simp add: one_consumer_def)
qed

lemma sample_offer_allowed: "kgo_contract [Assigned raw_partitions, PollReturned one_batch True, Lookup]"
  by (simp add: kgo_contract_def idle_client_def raw_partitions_def topic_partitions_def)


definition sample_labels :: "unit label list" where
  "sample_labels = [Assigned raw_partitions, PollReturned one_batch True, Lookup, Sent 0 [sample_record ''a'' 1],
     AllowRebalance, Lost raw_partitions]"

lemma sample_lost_run:
  "group_run new_group sample_labels (one_consumer False True (Handling [sample_record ''a'' 1]) False PollLoop)"
proof -
  let ?st = "Handling [sample_record ''a'' 1]"
  have "group_step (one_consumer True False Selecting False (Offering 0 [sample_record ''a'' 1] [])) (Sent 0 [sample_record ''a'' 1])
      ((set_status 0 ?st (one_consumer True False Selecting False (Offering 0 [sample_record ''a'' 1] [])))\<lparr>cg_poll := Dispatching []\<rparr>)"
    by (rule group_step.sent) (simp_all add: one_consumer_def)
  from group_run.step [OF sample_offer this] have 1: "group_run new_group
      [Assigned raw_partitions, PollReturned one_batch True, Lookup, Sent 0 [sample_record ''a'' 1]]
      (one_consumer True False ?st False (Dispatching []))" by (simp add: one_consumer_def set_status_def)
  have "group_step (one_consumer True False ?st False (Dispatching [])) AllowRebalance
      ((one_consumer True False ?st False (Dispatching []))\<lparr>cg_poll := PollLoop\<rparr>)"
    by (rule group_step.allow_rebalance) (simp add: one_consumer_def)
  from group_run.step [OF 1 this] have 2: "group_run new_group
      [Assigned raw_partitions, PollReturned one_batch True, Lookup, Sent 0 [sample_record ''a'' 1], AllowRebalance]
      (one_consumer True False ?st False PollLoop)" by (simp add: one_consumer_def)
  have "group_step (one_consumer True False ?st False PollLoop) (Lost raw_partitions) (one_consumer False True ?st False PollLoop)"
    by (rule group_step.lost) (simp add: sample_defs)
  from group_run.step [OF 2 this] show ?thesis by (simp add: sample_labels_def)
qed

lemma sample_lost_allowed: "kgo_contract sample_labels"
  by (simp add: sample_labels_def kgo_contract_def idle_client_def raw_partitions_def topic_partitions_def)

theorem one_consumer_per_partition_witness:
  "raw_0 \<notin> cl_assigned (client_after sample_labels) \<and> cl_callback (client_after sample_labels)"
proof -
  have "raw_0 \<notin> cl_assigned (client_after sample_labels)"
    by (simp add: sample_labels_def client_after_def idle_client_def raw_partitions_def topic_partitions_def raw_0_def)
  then show ?thesis
    using one_consumer_per_partition [OF sample_lost_run sample_lost_allowed, of 0]
    by (simp add: one_consumer_def pc_tp_def raw_0_def)
qed

theorem goroutine_refines_consume_witness:
  "\<exists>bs. pc_events 0 sample_labels = map Batch bs"
  using goroutine_refines_consume [OF sample_lost_run sample_lost_allowed, of 0]
  by (auto simp: one_consumer_def)

theorem callbacks_do_not_panic_witness:
  "group_panics (one_consumer False True (Handling [sample_record ''a'' 1]) False PollLoop)
     (PollReturned \<lparr>IsClientClosed = False, fetch_errors = [ErrMsg ''broker down''], fetch_partitions = []\<rparr> False)
     ''broker down'' \<and>
   (\<exists>e \<in> {ErrMsg ''broker down''}. ''broker down'' = error_msg e)"
proof -
  let ?fs = "\<lparr>IsClientClosed = False, fetch_errors = [ErrMsg ''broker down''], fetch_partitions = []\<rparr> :: unit fetches"
  have panics: "group_panics (one_consumer False True (Handling [sample_record ''a'' 1]) False PollLoop) (PollReturned ?fs False) ''broker down''"
    by (rule group_panics.poll) (simp_all add: one_consumer_def pollRecords_def)
  have "kgo_contract (sample_labels @ [PollReturned ?fs False])"
    using sample_lost_allowed by (simp add: kgo_contract_append)
  from callbacks_do_not_panic [OF sample_lost_run this panics] panics show ?thesis by auto
qed
text \<open>The context is done when the poll returns with a batch; the shutdown then gets as far as \<open>Close\<close>.\<close>

lemma sample_hang:
  "group_run (one_consumer True False Selecting True PollStopped)
     [DoneSeen 0, Shutdown [0], ShutdownQuit 0, CloseCalled]
     ((one_consumer True True Returned True PollStopped)\<lparr>cg_shutdown := Closing\<rparr> :: unit ConsumerGroup)"
proof -
  let ?cg = "\<lambda>quit. one_consumer True quit Returned True PollStopped :: unit ConsumerGroup"
  have "group_step (one_consumer True False Selecting True PollStopped) (DoneSeen 0)
      (set_status 0 Returned (one_consumer True False Selecting True PollStopped) :: unit ConsumerGroup)"
    by (rule group_step.done_seen) (simp_all add: one_consumer_def)
  from group_run.step [OF group_run.start this]
  have 1: "group_run (one_consumer True False Selecting True PollStopped) [DoneSeen 0] (?cg False)"
    by (simp add: one_consumer_def set_status_def)
  have "group_step (?cg False) (Shutdown [0]) ((?cg False)\<lparr>cg_shutdown := ShuttingDown [0] [0]\<rparr>)"
    by (rule group_step.shutdown) (simp_all add: one_consumer_def)
  from group_run.step [OF 1 this] have 2: "group_run (one_consumer True False Selecting True PollStopped)
      [DoneSeen 0, Shutdown [0]] ((?cg False)\<lparr>cg_shutdown := ShuttingDown [0] [0]\<rparr>)" by simp
  let ?c = "(?cg False)\<lparr>cg_shutdown := ShuttingDown [0] [0]\<rparr>"
  have "group_step ?c (ShutdownQuit 0)
      (?c\<lparr>cg_store := (cg_store ?c)[0 := (cg_store ?c ! 0)\<lparr>pc_quit := True, pc_once := True\<rparr>],
          cg_shutdown := ShuttingDown (remove1 0 [0]) [0]\<rparr>)"
    by (rule group_step.shutdown_quit) (simp_all add: one_consumer_def closeQuitChannel_def)
  from group_run.step [OF 2 this] have 3: "group_run (one_consumer True False Selecting True PollStopped)
      [DoneSeen 0, Shutdown [0], ShutdownQuit 0] ((?cg True)\<lparr>cg_shutdown := ShuttingDown [] [0]\<rparr>)"
    by (simp add: one_consumer_def)
  have "group_step ((?cg True)\<lparr>cg_shutdown := ShuttingDown [] [0]\<rparr>) CloseCalled
      (((?cg True)\<lparr>cg_shutdown := ShuttingDown [] [0]\<rparr>)\<lparr>cg_shutdown := Closing\<rparr>)"
    by (rule group_step.close_called [of _ "[0]"]) (simp_all add: one_consumer_def)
  from group_run.step [OF 3 this] show ?thesis by simp
qed

theorem shutdown_hangs_after_blocking_poll_witness:
  "\<exists>cg :: unit ConsumerGroup. cg_shutdown cg = Closing \<and>
     group_run (one_consumer True False Selecting True PollStopped) [DoneSeen 0, Shutdown [0], ShutdownQuit 0, CloseCalled] cg \<and>
     (\<forall>m. Lost m \<notin> set [DoneSeen 0, Shutdown [0], ShutdownQuit 0, CloseCalled :: unit label])"
proof -
  have poll: "group_step (one_consumer True False Selecting True PollLoop) (PollReturned one_batch True)
      (one_consumer True False Selecting True PollStopped)"
    by (rule group_step.poll_returned) (simp_all add: one_consumer_def one_batch_def pollRecords_def)
  have "kgo_contract ([Assigned raw_partitions, Cancel] @ PollReturned one_batch True #
      [DoneSeen 0, Shutdown [0], ShutdownQuit 0, CloseCalled])"
    by (simp add: kgo_contract_def idle_client_def raw_partitions_def topic_partitions_def)
  from shutdown_hangs_after_blocking_poll [OF _ poll sample_hang this]
  have "\<forall>m. Lost m \<notin> set [DoneSeen 0, Shutdown [0], ShutdownQuit 0, CloseCalled :: unit label]"
    by (simp add: one_consumer_def)
  with sample_hang show ?thesis
    by (intro exI [of _ "(one_consumer True True Returned True PollStopped)\<lparr>cg_shutdown := Closing\<rparr>"]) simp
qed

end
