(* ===== verification/Go_Float.thy ===== *)
theory Go_Float
  imports Prelude
begin

text \<open>
  Go's \<open>float64\<close>: the IEEE 754 double, with the operations the processor uses.

  A finite value is \<open>Fin m e\<close>, the dyadic number \<open>m * 2 ^ e\<close>, in the canonical form of the
  format: \<open>2 ^ 52 \<le> \<bar>m\<bar> < 2 ^ 53\<close> and \<open>e \<ge> -1074\<close>, or \<open>e = -1074\<close> for a subnormal number, or
  \<open>Fin 0 0\<close>. Every operation computes its exact result as a fraction of integers and rounds it once, to
  nearest with ties to even (\<open>round_frac\<close>), as the standard demands. \<open>parse_float\<close> is
  \<open>strconv.ParseFloat(s, 64)\<close> and the \<open>fmt_\<close> functions are the float verbs of \<open>fmt\<close> and the
  number format of \<open>encoding/json\<close>.
\<close>

datatype f64 = NaN | PosInf | NegInf | NegZero | Fin int int

section \<open>Rounding a fraction to the format\<close>

function ilog2 :: "int \<Rightarrow> int" where
  "ilog2 n = (if n \<le> 1 then 0 else 1 + ilog2 (n div 2))"
  by pat_completeness auto
termination
  by (relation "measure nat") auto

declare ilog2.simps [simp del]

definition half_even_div :: "int \<Rightarrow> int \<Rightarrow> int" where
  "half_even_div a b =
     (let q = a div b; r = a mod b
      in if b < 2 * r \<or> (2 * r = b \<and> odd q) then q + 1 else q)"

text \<open>The exponent of the last mantissa bit of \<open>p / q\<close>: that of the leading bit less 52.\<close>

definition frac_exponent :: "int \<Rightarrow> int \<Rightarrow> int" where
  "frac_exponent p q =
     (let k = ilog2 p - ilog2 q;
          below = (if 0 \<le> k then p < q * 2 ^ nat k else p * 2 ^ nat (- k) < q)
      in max ((if below then k - 1 else k) - 52) (-1074))"

definition scale_div :: "int \<Rightarrow> int \<Rightarrow> int \<Rightarrow> int" where
  "scale_div p q e =
     (if 0 \<le> e then half_even_div p (q * 2 ^ nat e) else half_even_div (p * 2 ^ nat (- e)) q)"

definition signed_zero :: "bool \<Rightarrow> f64" where
  "signed_zero neg = (if neg then NegZero else Fin 0 0)"

definition signed_inf :: "bool \<Rightarrow> f64" where
  "signed_inf neg = (if neg then NegInf else PosInf)"

text \<open>The double nearest to \<open>p / q\<close> (negated when \<open>neg\<close>); overflow gives an infinity.\<close>

definition round_frac :: "bool \<Rightarrow> int \<Rightarrow> int \<Rightarrow> f64" where
  "round_frac neg p q =
     (if p = 0 then signed_zero neg
      else let e = frac_exponent p q;
               m = scale_div p q e;
               (m', e') = (if m = 2 ^ 53 then (2 ^ 52, e + 1) else (m, e))
           in if m' = 0 then signed_zero neg
              else if 971 < e' then signed_inf neg
              else Fin (if neg then - m' else m') e')"

section \<open>Reading a float\<close>

definition is_finite_f64 :: "f64 \<Rightarrow> bool" where
  "is_finite_f64 x \<longleftrightarrow> (case x of Fin m e \<Rightarrow> True | NegZero \<Rightarrow> True | _ \<Rightarrow> False)"

definition neg_f64 :: "f64 \<Rightarrow> bool" where
  "neg_f64 x \<longleftrightarrow> (case x of Fin m e \<Rightarrow> m < 0 | NegZero \<Rightarrow> True | NegInf \<Rightarrow> True | _ \<Rightarrow> False)"

text \<open>The magnitude of a finite float as a fraction.\<close>

fun f64_num :: "f64 \<Rightarrow> int" where
  "f64_num (Fin m e) = (if 0 \<le> e then \<bar>m\<bar> * 2 ^ nat e else \<bar>m\<bar>)"
| "f64_num _ = 0"

fun f64_den :: "f64 \<Rightarrow> int" where
  "f64_den (Fin m e) = (if 0 \<le> e then 1 else 2 ^ nat (- e))"
| "f64_den _ = 1"

section \<open>Arithmetic\<close>

text \<open>\<open>float64(i)\<close> for an int64.\<close>

definition f64_of_int :: "int \<Rightarrow> f64" where
  "f64_of_int i = round_frac (i < 0) \<bar>i\<bar> 1"

definition signed_num :: "f64 \<Rightarrow> int" where
  "signed_num x = (if neg_f64 x then - f64_num x else f64_num x)"

definition f64_sub :: "f64 \<Rightarrow> f64 \<Rightarrow> f64" where
  "f64_sub x y =
     (if is_finite_f64 x \<and> is_finite_f64 y
      then let n = signed_num x * f64_den y - signed_num y * f64_den x
           in if n = 0 then signed_zero (x = NegZero \<and> y = Fin 0 0)
              else round_frac (n < 0) \<bar>n\<bar> (f64_den x * f64_den y)
      else if x = NaN \<or> y = NaN \<or> x = y then NaN
      else if is_finite_f64 y then x
      else if y = PosInf then NegInf else PosInf)"

definition f64_mul :: "f64 \<Rightarrow> f64 \<Rightarrow> f64" where
  "f64_mul x y =
     (let neg = (neg_f64 x \<noteq> neg_f64 y)
      in if is_finite_f64 x \<and> is_finite_f64 y
         then round_frac neg (f64_num x * f64_num y) (f64_den x * f64_den y)
         else if x = NaN \<or> y = NaN then NaN
         else if (is_finite_f64 x \<and> f64_num x = 0) \<or> (is_finite_f64 y \<and> f64_num y = 0) then NaN
         else signed_inf neg)"

definition f64_div :: "f64 \<Rightarrow> f64 \<Rightarrow> f64" where
  "f64_div x y =
     (let neg = (neg_f64 x \<noteq> neg_f64 y)
      in if x = NaN \<or> y = NaN then NaN
         else if is_finite_f64 x
         then (if \<not> is_finite_f64 y then signed_zero neg
               else if f64_num y = 0 then (if f64_num x = 0 then NaN else signed_inf neg)
               else round_frac neg (f64_num x * f64_den y) (f64_den x * f64_num y))
         else if is_finite_f64 y then signed_inf neg else NaN)"

text \<open>\<open>math.Trunc\<close>.\<close>

definition f64_trunc :: "f64 \<Rightarrow> f64" where
  "f64_trunc x =
     (if is_finite_f64 x then round_frac (neg_f64 x) (f64_num x div f64_den x) 1 else x)"

text \<open>
  \<open>int64(x)\<close>: truncation towards zero. Go leaves the result open when the value does not fit
  (a NaN, an infinity or a magnitude from \<open>2 ^ 63\<close> on); the model takes the amd64 result.
\<close>

definition int64_of_f64 :: "f64 \<Rightarrow> int" where
  "int64_of_f64 x =
     (if is_finite_f64 x
      then let n = f64_num x div f64_den x; i = (if neg_f64 x then - n else n)
           in if MinInt64 \<le> i \<and> i \<le> MaxInt64 then i else MinInt64
      else MinInt64)"

section \<open>strconv.ParseFloat\<close>

definition lower :: "char \<Rightarrow> char" where
  "lower c = (if 65 \<le> (of_char c :: nat) \<and> (of_char c :: nat) \<le> 90
              then char_of ((of_char c :: nat) + 32) else c)"

definition hex_digit :: "char \<Rightarrow> int option" where
  "hex_digit c =
     (if is_digit c then Some (digit_val c)
      else let l = (of_char (lower c) :: nat)
           in if 97 \<le> l \<and> l \<le> 102 then Some (int l - 87) else None)"

definition base_digit :: "int \<Rightarrow> char \<Rightarrow> int option" where
  "base_digit base c =
     (if is_digit c then Some (digit_val c) else if base = 16 then hex_digit c else None)"

text \<open>
  The mantissa loop of \<open>readFloat\<close>: digits, underscores (skipped here) and at most one point.
  It returns the digits read as a number, how many followed the point, whether there was a digit
  and the rest of the input.
\<close>

fun read_mantissa :: "int \<Rightarrow> int \<Rightarrow> int \<Rightarrow> bool \<Rightarrow> bool \<Rightarrow> string \<Rightarrow> int \<times> int \<times> bool \<times> string" where
  "read_mantissa base m k sawdot sawdigit [] = (m, k, sawdigit, [])"
| "read_mantissa base m k sawdot sawdigit (c # cs) =
     (if c = CHR ''_'' then read_mantissa base m k sawdot sawdigit cs
      else if c = CHR ''.''
      then (if sawdot then (m, k, sawdigit, c # cs) else read_mantissa base m k True sawdigit cs)
      else (case base_digit base c of
              Some d \<Rightarrow> read_mantissa base (m * base + d) (if sawdot then k + 1 else k) sawdot True cs
            | None \<Rightarrow> (m, k, sawdigit, c # cs)))"

fun read_exp_digits :: "int \<Rightarrow> string \<Rightarrow> int \<times> string" where
  "read_exp_digits e [] = (e, [])"
| "read_exp_digits e (c # cs) =
     (if c = CHR ''_'' then read_exp_digits e cs
      else if is_digit c
      then read_exp_digits (if e < 10000 then e * 10 + digit_val c else e) cs
      else (e, c # cs))"

text \<open>The exponent after its letter: \<open>None\<close> when no digit follows.\<close>

definition read_exponent :: "string \<Rightarrow> (int \<times> string) option" where
  "read_exponent cs =
     (let (neg, ds) =
        (case cs of c # cs' \<Rightarrow> if c = CHR ''+'' then (False, cs')
                              else if c = CHR ''-'' then (True, cs') else (False, cs)
         | [] \<Rightarrow> (False, []))
      in case ds of
           [] \<Rightarrow> None
         | d # _ \<Rightarrow> if is_digit d
                   then (let (e, rest) = read_exp_digits 0 ds in Some (if neg then - e else e, rest))
                   else None)"

text \<open>
  \<open>underscoreOK\<close>: an underscore stands between digits, or between a base prefix and a digit. The
  state is the last character seen: \<open>CHR ''0''\<close> for a digit or the prefix, \<open>CHR ''_''\<close>, \<open>CHR ''!''\<close>
  for any other, \<open>CHR ''^''\<close> at the start.
\<close>

fun underscore_scan :: "bool \<Rightarrow> char \<Rightarrow> string \<Rightarrow> bool" where
  "underscore_scan hex i [] = (i \<noteq> CHR ''_'')"
| "underscore_scan hex i (c # cs) =
     (if is_digit c \<or> (hex \<and> hex_digit c \<noteq> None) then underscore_scan hex (CHR ''0'') cs
      else if c = CHR ''_''
      then (if i \<noteq> CHR ''0'' then False else underscore_scan hex (CHR ''_'') cs)
      else if i = CHR ''_'' then False else underscore_scan hex (CHR ''!'') cs)"

definition drop_sign :: "string \<Rightarrow> string" where
  "drop_sign cs = (case cs of [] \<Rightarrow> [] | c # cs' \<Rightarrow>
     if c = CHR ''+'' \<or> c = CHR ''-'' then cs' else cs)"

definition underscoreOK :: "string \<Rightarrow> bool" where
  "underscoreOK s =
     (case drop_sign s of
        c0 # c1 # cs \<Rightarrow>
          if c0 = CHR ''0'' \<and> (lower c1 = CHR ''b'' \<or> lower c1 = CHR ''o'' \<or> lower c1 = CHR ''x'')
          then underscore_scan (lower c1 = CHR ''x'') (CHR ''0'') cs
          else underscore_scan False (CHR ''^'') (c0 # c1 # cs)
      | cs \<Rightarrow> underscore_scan False (CHR ''^'') cs)"

text \<open>\<open>special\<close>: the spellings of infinity and NaN, in any case.\<close>

definition special_float :: "string \<Rightarrow> f64 option" where
  "special_float s =
     (let l = map lower s; u = drop_sign l
      in if u = ''inf'' \<or> u = ''infinity'' then Some (signed_inf (take 1 s = ''-''))
         else if l = ''nan'' then Some NaN else None)"

text \<open>\<open>m * base ^ - k * b ^ e\<close> as a fraction, rounded; \<open>b\<close> is 10, or 2 after a hex mantissa.\<close>

definition scaled_float :: "bool \<Rightarrow> int \<Rightarrow> int \<Rightarrow> int \<Rightarrow> f64" where
  "scaled_float neg b m x =
     (if 0 \<le> x then round_frac neg (m * b ^ nat x) 1 else round_frac neg m (b ^ nat (- x)))"

definition finish_float :: "string \<Rightarrow> bool \<Rightarrow> int \<Rightarrow> int \<Rightarrow> int \<Rightarrow> int \<Rightarrow> string \<Rightarrow> f64 option" where
  "finish_float s neg base m k e rest =
     (if rest \<noteq> [] \<or> (CHR ''_'' \<in> set s \<and> \<not> underscoreOK s) then None
      else let f = (if base = 16 then scaled_float neg 2 m (e - 4 * k) else scaled_float neg 10 m (e - k))
           in if f = PosInf \<or> f = NegInf then None else Some f)"

text \<open>
  The value of a well-formed number in range, \<open>None\<close> where Go returns an error (syntax or range).
\<close>

definition parse_float :: "string \<Rightarrow> f64 option" where
  "parse_float s =
     (case special_float s of
        Some f \<Rightarrow> Some f
      | None \<Rightarrow>
          let neg = (take 1 s = ''-''); body = drop_sign s;
              hex = (take 2 (map lower body) = ''0x'' \<and> 2 < length body);
              base = (if hex then 16 else 10 :: int);
              (m, k, sawdigit, rest) =
                read_mantissa base 0 0 False False (if hex then drop 2 body else body)
          in if \<not> sawdigit then None
             else (case rest of
                     c # cs \<Rightarrow>
                       if lower c = (if hex then CHR ''p'' else CHR ''e'')
                       then (case read_exponent cs of
                               None \<Rightarrow> None
                             | Some (e, rest') \<Rightarrow> finish_float s neg base m k e rest')
                       else None
                   | [] \<Rightarrow> if hex then None else finish_float s neg base m k 0 []))"

section \<open>Shortest decimal digits\<close>

text \<open>
  The decimal point position of \<open>p / q > 0\<close>: the \<open>d\<close> with \<open>10 ^ (d - 1) \<le> p / q < 10 ^ d\<close>.
\<close>

function dec_up :: "int \<Rightarrow> int \<Rightarrow> int" where
  "dec_up p q = (if q \<le> 0 \<or> p < q then 0 else 1 + dec_up p (10 * q))"
  by pat_completeness auto
termination
  by (relation "measure (\<lambda>(p, q). nat (p + 1 - q))") auto

function dec_down :: "int \<Rightarrow> int \<Rightarrow> int" where
  "dec_down p q = (if p \<le> 0 \<or> q \<le> 10 * p then 0 else dec_down (10 * p) q - 1)"
  by pat_completeness auto
termination
  by (relation "measure (\<lambda>(p, q). nat (q - p))") auto

declare dec_up.simps [simp del] dec_down.simps [simp del]

definition dec_point :: "int \<Rightarrow> int \<Rightarrow> int" where
  "dec_point p q = (if q \<le> p then dec_up p q else dec_down p q)"

definition dec_scaled :: "int \<Rightarrow> int \<Rightarrow> int \<Rightarrow> int \<times> int" where
  "dec_scaled p q x = (if 0 \<le> x then (p * 10 ^ nat x, q) else (p, q * 10 ^ nat (- x)))"

text \<open>
  The least number of digits for which a decimal rounds back to the float; of the two neighbours
  that do, the nearer. Seventeen digits always suffice, so the search ends there. The result is
  the digits as a number, and how many were asked for.
\<close>

fun shortest_from :: "nat \<Rightarrow> int \<Rightarrow> int \<Rightarrow> int \<Rightarrow> f64 \<Rightarrow> int \<Rightarrow> int \<times> int" where
  "shortest_from fuel p q dp f n =
     (let (a, b) = dec_scaled p q (n - dp); lo = a div b; r = a mod b;
          fits_lo = (scaled_float False 10 lo (dp - n) = f);
          fits_hi = (scaled_float False 10 (lo + 1) (dp - n) = f)
      in if fits_lo \<and> (\<not> fits_hi \<or> 2 * r \<le> b) then (lo, n)
         else if fits_hi then (lo + 1, n)
         else (case fuel of 0 \<Rightarrow> (lo, n) | Suc fuel' \<Rightarrow> shortest_from fuel' p q dp f (n + 1)))"

declare shortest_from.simps [simp del]

definition strip_zeros :: "string \<Rightarrow> string" where
  "strip_zeros ds = rev (dropWhile (\<lambda>c. c = CHR ''0'') (rev ds))"

text \<open>Digits and decimal point of the magnitude: no digits and point 0 for zero.\<close>

definition shortest_digits :: "f64 \<Rightarrow> string \<times> int" where
  "shortest_digits x =
     (let p = f64_num x; q = f64_den x in
      if p = 0 then ([], 0)
      else let dp = dec_point p q;
               f = (case x of Fin m e \<Rightarrow> Fin \<bar>m\<bar> e | _ \<Rightarrow> x);
               (d, n) = shortest_from 16 p q dp f 1;
               ds = itoa d
           in (strip_zeros ds, dp + (int (length ds) - n)))"

section \<open>The float verbs\<close>

definition zeros :: "int \<Rightarrow> string" where
  "zeros n = replicate (nat n) (CHR ''0'')"

definition sign_prefix :: "f64 \<Rightarrow> string" where
  "sign_prefix x = (if neg_f64 x then ''-'' else [])"

text \<open>\<open>strconv\<close>'s \<open>%f\<close> and \<open>%e\<close> layouts of shortest digits.\<close>

definition layout_f :: "string \<Rightarrow> int \<Rightarrow> string" where
  "layout_f ds dp =
     (let nd = int (length ds);
          whole = (if 0 < dp then take (nat dp) ds @ zeros (dp - nd) else ''0'');
          frac = (if dp < nd then zeros (- dp) @ drop (nat dp) ds else [])
      in if frac = [] then whole else whole @ ''.'' @ frac)"

definition layout_e :: "string \<Rightarrow> int \<Rightarrow> string" where
  "layout_e ds dp =
     (let first = take 1 (ds @ ''0''); rest = drop 1 ds;
          x = (if ds = [] then 0 else dp - 1); ax = itoa \<bar>x\<bar>
      in first @ (if rest = [] then [] else ''.'' @ rest) @ ''e'' @ (if x < 0 then ''-'' else ''+'')
         @ (if length ax < 2 then ''0'' @ ax else ax))"

fun nonfinite_text :: "f64 \<Rightarrow> string" where
  "nonfinite_text NaN = ''NaN''"
| "nonfinite_text PosInf = ''+Inf''"
| "nonfinite_text NegInf = ''-Inf''"
| "nonfinite_text _ = []"

text \<open>
  \<open>fmt.Sprintf("%v", x)\<close>: the shortest \<open>%g\<close>, which switches to exponent form below \<open>1e-04\<close> and
  from the decimal exponent 6 on, the precision \<open>strconv\<close> takes for this decision when it prints
  the shortest digits.
\<close>

definition fmt_v :: "f64 \<Rightarrow> string" where
  "fmt_v x =
     (if \<not> is_finite_f64 x then nonfinite_text x
      else let (ds, dp) = shortest_digits x; e = dp - 1
           in sign_prefix x @ (if e < -4 \<or> 6 \<le> e then layout_e ds dp else layout_f ds dp))"

text \<open>\<open>fmt.Sprintf("%f", x)\<close>: six decimals, correctly rounded.\<close>

definition fmt_f6 :: "f64 \<Rightarrow> string" where
  "fmt_f6 x =
     (if \<not> is_finite_f64 x then nonfinite_text x
      else let n = half_even_div (f64_num x * 1000000) (f64_den x);
               fr = itoa (n mod 1000000)
           in sign_prefix x @ itoa (n div 1000000) @ ''.'' @ zeros (6 - int (length fr)) @ fr)"

text \<open>
  The number \<open>encoding/json\<close> writes: \<open>%f\<close> layout, or \<open>%e\<close> below \<open>1e-6\<close> and from \<open>1e21\<close> on with a
  one-digit negative exponent shortened (\<open>e-09\<close> to \<open>e-9\<close>). \<open>None\<close> for NaN and infinities, which it
  rejects.
\<close>

definition clean_exponent :: "string \<Rightarrow> string" where
  "clean_exponent s =
     (let n = length s in
      if 4 \<le> n \<and> take 3 (drop (n - 4) s) = ''e-0'' then take (n - 2) s @ drop (n - 1) s else s)"

definition json_float :: "f64 \<Rightarrow> string option" where
  "json_float x =
     (if \<not> is_finite_f64 x then None
      else let (ds, dp) = shortest_digits x;
               sci = (ds \<noteq> [] \<and> (dp - 1 < -6 \<or> 21 \<le> dp - 1))
           in Some (sign_prefix x @
                (if sci then clean_exponent (layout_e ds dp) else layout_f ds dp)))"

end
