(* ===== verification/Go_Any.thy ===== *)
theory Go_Any
  imports Go_Float
begin

text \<open>
  Go's \<open>any\<close>, for the dynamic types that reach the processor: what \<open>encoding/json\<close> puts into an
  interface value (nil, bool, float64, string, slice, map) and the two integer types the
  timestamp functions also accept. \<open>sprintf_v\<close> is \<open>fmt.Sprintf("%v", x)\<close> on these types.
\<close>

datatype any =
    ANil
  | ABool bool
  | AInt int
  | AInt64 int
  | AFloat f64
  | AStr string
  | AArr "any list"
  | AMap "(string \<times> any) list"

fun join_with :: "string \<Rightarrow> string list \<Rightarrow> string" where
  "join_with sep [] = []"
| "join_with sep [s] = s"
| "join_with sep (s # t # ts) = s @ sep @ join_with sep (t # ts)"

text \<open>A map prints its entries in key order, whatever the order they are stored in.\<close>

fun sprintf_v :: "any \<Rightarrow> string" where
  "sprintf_v ANil = ''<nil>''"
| "sprintf_v (ABool b) = (if b then ''true'' else ''false'')"
| "sprintf_v (AInt i) = itoa i"
| "sprintf_v (AInt64 i) = itoa i"
| "sprintf_v (AFloat x) = fmt_v x"
| "sprintf_v (AStr s) = s"
| "sprintf_v (AArr xs) = ''['' @ join_with '' '' (map sprintf_v xs) @ '']''"
| "sprintf_v (AMap kvs) =
     ''map['' @ join_with '' '' (map (\<lambda>(k, t). k @ '':'' @ t)
        (sort_key fst (map (\<lambda>(k, v). (k, sprintf_v v)) kvs))) @ '']''"

end
