(* ===== verification/Go_Time.thy ===== *)
theory Go_Time
  imports Go_Any Go_Result "HOL-Library.Monad_Syntax"
begin

text \<open>
  Instants, and utils/time.go.

  A \<open>time.Time\<close> is the instant it denotes, in nanoseconds since the Unix epoch: the processor
  compares instants and formats them in UTC, so the location and the monotonic reading play no part
  but in \<open>CustomTime\<close>, which keeps the offset of its location. The zero time of Go is the first instant of year 1. The calendar (\<open>civil_from_days\<close>,
  \<open>days_from_civil\<close>), \<open>time.Parse\<close> for the two layouts in use and \<open>Format\<close> are those of the
  standard library.
\<close>

section \<open>Instants\<close>

type_synonym instant = int

definition Second :: int where "Second = 1000000000"

definition Millisecond :: int where "Millisecond = 1000000"

definition zero_time :: instant where
  "zero_time = -62135596800 * 1000000000"

text \<open>\<open>time.Unix(sec, nsec)\<close>; the seconds are kept in an int64 counted from year 1.\<close>

definition time_Unix :: "int \<Rightarrow> int \<Rightarrow> instant" where
  "time_Unix sec nsec =
     (wrap64 (wrap64 (sec + nsec div 1000000000) + 62135596800) - 62135596800) * 1000000000
     + nsec mod 1000000000"

definition UnixMilli :: "instant \<Rightarrow> int" where
  "UnixMilli t = wrap64 (t div 1000000)"

definition UnixMicro :: "instant \<Rightarrow> int" where
  "UnixMicro t = wrap64 (t div 1000)"

text \<open>\<open>time.UnixMicro(us)\<close>.\<close>

definition time_UnixMicro :: "int \<Rightarrow> instant" where
  "time_UnixMicro us = us * 1000"

definition Truncate :: "int \<Rightarrow> instant \<Rightarrow> instant" where
  "Truncate d t = t - t mod d"

lemma Truncate_le: "0 < d \<Longrightarrow> Truncate d t \<le> t \<and> t < Truncate d t + d"
  by (simp add: Truncate_def)

lemma Truncate_multiple: "Truncate d t mod d = 0"
  by (simp add: Truncate_def minus_mod_eq_mult_div)

lemma time_Unix_seconds:
  assumes "\<bar>n\<bar> \<le> 2 ^ 62"
  shows "time_Unix n 0 = n * 1000000000"
proof -
  have "wrap64 n = n" and "wrap64 (n + 62135596800) = n + 62135596800"
    using assms by (auto intro!: wrap64_id simp: MinInt64_def MaxInt64_def)
  then show ?thesis by (simp add: time_Unix_def)
qed

section \<open>The calendar\<close>

definition is_leap :: "int \<Rightarrow> bool" where
  "is_leap y \<longleftrightarrow> y mod 4 = 0 \<and> (y mod 100 \<noteq> 0 \<or> y mod 400 = 0)"

definition days_in :: "int \<Rightarrow> int \<Rightarrow> int" where
  "days_in m y = (if m = 2 then (if is_leap y then 29 else 28)
                  else if m = 4 \<or> m = 6 \<or> m = 9 \<or> m = 11 then 30 else 31)"

text \<open>Years are counted from March, in eras of 400 years, so that the leap day comes last.\<close>

definition days_from_civil :: "int \<Rightarrow> int \<Rightarrow> int \<Rightarrow> int" where
  "days_from_civil y m d =
     (let y' = (if m \<le> 2 then y - 1 else y); era = y' div 400; yoe = y' mod 400;
          mp = (if 2 < m then m - 3 else m + 9);
          doy = (153 * mp + 2) div 5 + d - 1;
          doe = yoe * 365 + yoe div 4 - yoe div 100 + doy
      in era * 146097 + doe - 719468)"

text \<open>The year within an era, from the day of the era, and the day within that year.\<close>

definition era_year :: "int \<Rightarrow> int" where
  "era_year doe = (doe - doe div 1460 + doe div 36524 - doe div 146096) div 365"

definition year_day :: "int \<Rightarrow> int" where
  "year_day doe = doe - (365 * era_year doe + era_year doe div 4 - era_year doe div 100)"

text \<open>Month and day of the month, from the day of the year counted from March.\<close>

definition month_index :: "int \<Rightarrow> int" where
  "month_index doy = (5 * doy + 2) div 153"

definition month_of :: "int \<Rightarrow> int" where
  "month_of doy = (if month_index doy < 10 then month_index doy + 3 else month_index doy - 9)"

definition day_of :: "int \<Rightarrow> int" where
  "day_of doy = doy - (153 * month_index doy + 2) div 5 + 1"

definition civil_from_days :: "int \<Rightarrow> int \<times> int \<times> int" where
  "civil_from_days z =
     (let w = z + 719468; doe = w mod 146097; m = month_of (year_day doe)
      in (era_year doe + w div 146097 * 400 + (if m \<le> 2 then 1 else 0), m, day_of (year_day doe)))"

section \<open>Format\<close>

definition pad_int :: "int \<Rightarrow> int \<Rightarrow> string" where
  "pad_int w n =
     (let ds = int_digits \<bar>n\<bar>
      in (if n < 0 then ''-'' else []) @ zeros (w - int (length ds)) @ ds)"

text \<open>The layout \<open>2006-01-02T15:04:05\<close>, in UTC.\<close>

definition format_datetime :: "instant \<Rightarrow> string" where
  "format_datetime t =
     (let s = t div 1000000000; (y, m, d) = civil_from_days (s div 86400); r = s mod 86400
      in pad_int 4 y @ ''-'' @ pad_int 2 m @ ''-'' @ pad_int 2 d @ ''T'' @
         pad_int 2 (r div 3600) @ '':'' @ pad_int 2 (r div 60 mod 60) @ '':'' @ pad_int 2 (r mod 60))"

text \<open>\<open>t.UTC().Format(time.RFC3339)\<close>.\<close>

definition format_RFC3339 :: "instant \<Rightarrow> string" where
  "format_RFC3339 t = format_datetime t @ ''Z''"

section \<open>Parse\<close>

text \<open>Two digits, or (\<open>fixed\<close> false) one; the fields of the layouts.\<close>

fun getnum :: "bool \<Rightarrow> string \<Rightarrow> (int \<times> string) option" where
  "getnum fixed (a # b # cs) =
     (if \<not> is_digit a then None
      else if is_digit b then Some (10 * digit_val a + digit_val b, cs)
      else if fixed then None else Some (digit_val a, b # cs))"
| "getnum fixed [a] = (if is_digit a \<and> \<not> fixed then Some (digit_val a, []) else None)"
| "getnum fixed [] = None"

definition getyear :: "string \<Rightarrow> (int \<times> string) option" where
  "getyear s = (if 4 \<le> length s \<and> list_all is_digit (take 4 s)
                then Some (digits_val (take 4 s), drop 4 s) else None)"

fun skip_char :: "char \<Rightarrow> string \<Rightarrow> string option" where
  "skip_char c (d # ds) = (if c = d then Some ds else None)"
| "skip_char c [] = None"

definition in_range :: "int \<Rightarrow> int \<Rightarrow> int \<Rightarrow> unit option" where
  "in_range lo hi n = (if lo \<le> n \<and> n \<le> hi then Some () else None)"

text \<open>
  A fraction after the seconds is accepted though the layouts have none: a point or comma and at
  least one digit; digits behind the ninth are dropped.
\<close>

definition getfrac :: "string \<Rightarrow> int \<times> string" where
  "getfrac s =
     (case s of
        p # d # cs \<Rightarrow>
          if (p = CHR ''.'' \<or> p = CHR '','') \<and> is_digit d
          then (let ds = takeWhile is_digit (d # cs); used = take 9 ds
                in (digits_val used * 10 ^ (9 - length used), dropWhile is_digit (d # cs)))
          else (0, s)
      | _ \<Rightarrow> (0, s))"

text \<open>The layout \<open>2006-01-02T15:04:05\<close>: the instant, and what is left of the input.\<close>

definition parse_datetime :: "string \<Rightarrow> (instant \<times> string) option" where
  "parse_datetime s0 = do {
     (y, s1) \<leftarrow> getyear s0;
     s2 \<leftarrow> skip_char (CHR ''-'') s1;
     (m, s3) \<leftarrow> getnum True s2;
     _ \<leftarrow> in_range 1 12 m;
     s4 \<leftarrow> skip_char (CHR ''-'') s3;
     (d, s5) \<leftarrow> getnum True s4;
     s6 \<leftarrow> skip_char (CHR ''T'') s5;
     (h, s7) \<leftarrow> getnum False s6;
     _ \<leftarrow> in_range 0 23 h;
     s8 \<leftarrow> skip_char (CHR '':'') s7;
     (mi, s9) \<leftarrow> getnum True s8;
     _ \<leftarrow> in_range 0 59 mi;
     s10 \<leftarrow> skip_char (CHR '':'') s9;
     (sec, s11) \<leftarrow> getnum True s10;
     _ \<leftarrow> in_range 0 59 sec;
     let (nsec, s12) = getfrac s11;
     _ \<leftarrow> in_range 1 (days_in m y) d;
     Some ((days_from_civil y m d * 86400 + h * 3600 + mi * 60 + sec) * 1000000000 + nsec, s12)
   }"

text \<open>The zone \<open>Z07:00\<close>: \<open>Z\<close>, or a sign and hours and minutes; the offset in seconds.\<close>

definition parse_zone :: "string \<Rightarrow> int option" where
  "parse_zone s =
     (if s = ''Z'' then Some 0
      else case s of
        sg # r \<Rightarrow>
          if sg = CHR ''+'' \<or> sg = CHR ''-''
          then do {
            (h, r1) \<leftarrow> getnum True r;
            r2 \<leftarrow> skip_char (CHR '':'') r1;
            (mi, r3) \<leftarrow> getnum True r2;
            _ \<leftarrow> in_range 0 24 h;
            _ \<leftarrow> in_range 0 60 mi;
            if r3 = [] then Some ((if sg = CHR ''-'' then -1 else 1) * (h * 60 + mi) * 60) else None
          }
          else None
      | [] \<Rightarrow> None)"

definition parse_RFC3339 :: "string \<Rightarrow> instant option" where
  "parse_RFC3339 s = do {
     (t, rest) \<leftarrow> parse_datetime s;
     off \<leftarrow> parse_zone rest;
     Some (t - off * 1000000000)
   }"

definition parse_local :: "string \<Rightarrow> instant option" where
  "parse_local s = do {
     (t, rest) \<leftarrow> parse_datetime s;
     if rest = [] then Some t else None
   }"

section \<open>ToTime and ToFloat64Timestamp\<close>

text \<open>
  The error \<open>strconv.ParseFloat\<close> returns, and the one of \<open>time.Parse\<close>; only their presence
  matters to the callers.
\<close>

definition float_error :: "string \<Rightarrow> go_error" where
  "float_error s = ErrMsg (''strconv.ParseFloat: parsing '' @ s)"

definition time_error :: "string \<Rightarrow> go_error" where
  "time_error s = ErrMsg (''parsing time '' @ s)"

definition unsupported_timestamp :: go_error where
  "unsupported_timestamp = ErrMsg ''Unsupported timestamp type''"

text \<open>The whole seconds of a float timestamp, and the nanoseconds of its fraction.\<close>

definition float_seconds :: "f64 \<Rightarrow> int" where
  "float_seconds f = int64_of_f64 f"

definition float_nanoseconds :: "f64 \<Rightarrow> int" where
  "float_nanoseconds f =
     int64_of_f64 (f64_mul (f64_sub f (f64_of_int (float_seconds f))) (f64_of_int 1000000000))"

text \<open>The common tail: \<open>time.Unix(seconds, nanoseconds).In(time.UTC).Truncate(time.Millisecond)\<close>.\<close>

definition unix_truncated :: "int \<Rightarrow> int \<Rightarrow> instant" where
  "unix_truncated seconds nanoseconds = Truncate Millisecond (time_Unix seconds nanoseconds)"

fun ToTime :: "any \<Rightarrow> instant result" where
  "ToTime (AStr s) =
     (case parse_float s of
        Some f \<Rightarrow> SuccessResult (unix_truncated (float_seconds f) (float_nanoseconds f))
      | None \<Rightarrow>
          (case parse_RFC3339 s of
             Some t \<Rightarrow> SuccessResult t
           | None \<Rightarrow> FailedResult (float_error s)))"
| "ToTime (AInt n) = SuccessResult (unix_truncated n 0)"
| "ToTime (AInt64 n) = SuccessResult (unix_truncated n 0)"
| "ToTime (AFloat f) = SuccessResult (unix_truncated (float_seconds f) (float_nanoseconds f))"
| "ToTime _ = FailedResult unsupported_timestamp"

fun ToFloat64Timestamp :: "any \<Rightarrow> f64 result" where
  "ToFloat64Timestamp (AStr s) =
     (case parse_float s of
        Some f \<Rightarrow>
          SuccessResult (f64_div (f64_trunc (f64_mul f (f64_of_int 1000))) (f64_of_int 1000))
      | None \<Rightarrow>
          (case parse_RFC3339 s of
             Some t \<Rightarrow> SuccessResult (f64_div (f64_of_int (UnixMilli t)) (f64_of_int 1000))
           | None \<Rightarrow> FailedResult (float_error s)))"
| "ToFloat64Timestamp (AInt n) = SuccessResult (f64_of_int n)"
| "ToFloat64Timestamp (AInt64 n) = SuccessResult (f64_of_int n)"
| "ToFloat64Timestamp (AFloat f) = SuccessResult f"
| "ToFloat64Timestamp _ = FailedResult unsupported_timestamp"

text \<open>The two conversions accept exactly the same timestamps.\<close>

lemma timestamp_conversions_agree:
  "Success (ToTime ts) \<longleftrightarrow> Success (ToFloat64Timestamp ts)"
  by (cases ts) (auto split: option.splits)

lemma unix_truncated_ms: "unix_truncated s n mod Millisecond = 0"
  by (simp add: unix_truncated_def Truncate_multiple)

lemma unix_truncated_seconds: "\<bar>n\<bar> \<le> 2 ^ 62 \<Longrightarrow> unix_truncated n 0 = n * Second"
  by (simp add: unix_truncated_def time_Unix_seconds Truncate_def Millisecond_def Second_def)

section \<open>CustomTime\<close>

text \<open>
  A \<open>CustomTime\<close> prints in its own location, so the offset of that location in seconds is kept
  beside the instant: \<open>time.Parse\<close> gives UTC for a layout without a zone and the offset of the text
  for \<open>time.RFC3339\<close>; the other results of \<open>ToTime\<close> are in UTC.
\<close>

record custom_time =
  ct_instant :: instant
  ct_offset :: int

definition RFC3339_offset :: "string \<Rightarrow> int" where
  "RFC3339_offset s =
     (case do { (_, rest) \<leftarrow> parse_datetime s; parse_zone rest } of Some off \<Rightarrow> off | None \<Rightarrow> 0)"

definition ToTime_offset :: "string \<Rightarrow> int" where
  "ToTime_offset s = (case parse_float s of Some _ \<Rightarrow> 0 | None \<Rightarrow> RFC3339_offset s)"

text \<open>\<open>strings.Trim(s, "\"")\<close>: every leading and trailing double quote goes.\<close>

definition trim_quotes :: "string \<Rightarrow> string" where
  "trim_quotes s =
     rev (dropWhile (\<lambda>c. c = CHR 0x22) (rev (dropWhile (\<lambda>c. c = CHR 0x22) s)))"

text \<open>
  \<open>UnmarshalJSON\<close> on the bytes of a JSON value: empty text and \<open>null\<close> leave the receiver, a local
  timestamp sets it, and what is not one may be a Unix timestamp (or anything else \<open>ToTime\<close> reads).
\<close>

definition CustomTime_unmarshal :: "string \<Rightarrow> custom_time \<Rightarrow> go_error + custom_time" where
  "CustomTime_unmarshal b ct =
     (let s = trim_quotes b
      in if s = ''null'' \<or> s = [] then Inr ct
         else case parse_local s of
           Some t \<Rightarrow> Inr \<lparr>ct_instant = t, ct_offset = 0\<rparr>
         | None \<Rightarrow>
             (let timeResult = ToTime (AStr s)
              in if Failure timeResult then Inl (time_error s)
                 else Inr \<lparr>ct_instant = (case Value timeResult of Some t \<Rightarrow> t | None \<Rightarrow> zero_time),
                           ct_offset = ToTime_offset s\<rparr>))"

definition CustomTime_String :: "custom_time \<Rightarrow> string" where
  "CustomTime_String ct = format_datetime (ct_instant ct + ct_offset ct * Second)"

text \<open>The JSON text: \<open>null\<close> for the zero time, the quoted timestamp otherwise.\<close>

definition CustomTime_marshal :: "custom_time \<Rightarrow> string" where
  "CustomTime_marshal ct =
     (if ct_instant ct = zero_time then ''null'' else CHR 0x22 # CustomTime_String ct @ [CHR 0x22])"

definition zero_CustomTime :: custom_time where
  "zero_CustomTime = \<lparr>ct_instant = zero_time, ct_offset = 0\<rparr>"

section \<open>NullTime\<close>

text \<open>A nullable instant; an invalid one keeps whatever instant it holds.\<close>

record null_time =
  nt_Time :: instant
  nt_Valid :: bool

definition NewNullTime :: "instant \<Rightarrow> null_time" where
  "NewNullTime t = \<lparr>nt_Time = t, nt_Valid = True\<rparr>"

definition no_time :: null_time where
  "no_time = \<lparr>nt_Time = zero_time, nt_Valid = False\<rparr>"

end
