(* ===== verification/Go_Json.thy ===== *)
theory Go_Json
  imports Go_Time "HOL-Library.AList"
begin

text \<open>
  utils/json.go, and what the processor uses of \<open>encoding/json\<close>, on parsed JSON values.

  A document is a \<open>json\<close> value: numbers keep their literal, objects the order and the repetitions
  of their keys. Text that is not JSON has no such value; the callers take a \<open>json option\<close>. A Go
  struct is described by the list of its fields (\<open>json_field\<close>: tag, encoder, decoder), in the
  order of the declaration; \<open>marshal_struct\<close>, \<open>unmarshal_struct\<close> and \<open>UnmarshalNestedJSON\<close> work on
  such a list, as the library works by reflection.
\<close>

section \<open>JSON values\<close>

datatype json =
    JNull
  | JBool bool
  | JNum string
  | JStr string
  | JArr "json list"
  | JObj "(string \<times> json) list"

text \<open>Reading fails with the first error.\<close>

fun sum_bind :: "'e + 'a \<Rightarrow> ('a \<Rightarrow> 'e + 'b) \<Rightarrow> 'e + 'b" where
  "sum_bind (Inl e) f = Inl e"
| "sum_bind (Inr x) f = f x"

fun sum_ok :: "'e + 'a \<Rightarrow> bool" where
  "sum_ok (Inl e) = False"
| "sum_ok (Inr x) = True"

fun map_sum_list :: "('a \<Rightarrow> 'e + 'b) \<Rightarrow> 'a list \<Rightarrow> 'e + 'b list" where
  "map_sum_list f [] = Inr []"
| "map_sum_list f (x # xs) = sum_bind (f x) (\<lambda>y. sum_bind (map_sum_list f xs) (\<lambda>ys. Inr (y # ys)))"

lemma map_sum_list_cong [fundef_cong]:
  "xs = ys \<Longrightarrow> (\<And>x. x \<in> set ys \<Longrightarrow> f x = g x) \<Longrightarrow> map_sum_list f xs = map_sum_list g ys"
  by (induction ys arbitrary: xs) auto

lemma map_sum_list_Inr: "(\<And>x. x \<in> set xs \<Longrightarrow> f x = Inr (g x)) \<Longrightarrow> map_sum_list f xs = Inr (map g xs)"
  by (induction xs) auto

definition json_error :: "string \<Rightarrow> go_error" where
  "json_error what = ErrMsg (''json: cannot unmarshal into Go value of type '' @ what)"

section \<open>strconv.ParseInt\<close>

text \<open>Base 10, 64 bits: an optional sign, digits, in range.\<close>

definition parse_int :: "string \<Rightarrow> int option" where
  "parse_int s =
     (let neg = (s \<noteq> [] \<and> hd s = CHR ''-'');
          ds = (if s \<noteq> [] \<and> (hd s = CHR ''-'' \<or> hd s = CHR ''+'') then tl s else s);
          n = (if neg then - digits_val ds else digits_val ds)
      in if ds = [] \<or> \<not> list_all is_digit ds \<or> n < MinInt64 \<or> MaxInt64 < n then None else Some n)"

lemma is_digit_plus [simp]: "\<not> is_digit (CHR ''+'')"
  by (simp add: is_digit_def)

lemma parse_int_itoa:
  assumes "MinInt64 \<le> i" and "i \<le> MaxInt64"
  shows "parse_int (itoa i) = Some i"
proof (cases "i < 0")
  case True
  then have "list_all is_digit (int_digits (- i))" by (simp add: int_digits_all)
  with True assms show ?thesis by (simp add: parse_int_def itoa_def Let_def)
next
  case False
  then have all: "list_all is_digit (int_digits i)" by (simp add: int_digits_all)
  then have "is_digit (hd (int_digits i))"
    using hd_in_set [OF int_digits_nonempty] by (auto simp: list_all_iff)
  then have "hd (int_digits i) \<noteq> CHR ''-''" "hd (int_digits i) \<noteq> CHR ''+''"
    by (metis is_digit_minus, metis is_digit_plus)
  with False all assms show ?thesis by (simp add: parse_int_def itoa_def Let_def)
qed

section \<open>Values of the basic types\<close>

text \<open>
  A decoder takes the JSON value and the field's present value: \<open>null\<close> leaves a string, a number
  or a bool as it is and empties a pointer, a slice or a map.
\<close>

fun decode_string :: "json \<Rightarrow> string \<Rightarrow> go_error + string" where
  "decode_string (JStr s) old = Inr s"
| "decode_string JNull old = Inr old"
| "decode_string _ old = Inl (json_error ''string'')"

fun decode_bool :: "json \<Rightarrow> bool \<Rightarrow> go_error + bool" where
  "decode_bool (JBool b) old = Inr b"
| "decode_bool JNull old = Inr old"
| "decode_bool _ old = Inl (json_error ''bool'')"

fun decode_int :: "json \<Rightarrow> int \<Rightarrow> go_error + int" where
  "decode_int (JNum l) old =
     (case parse_int l of Some i \<Rightarrow> Inr i | None \<Rightarrow> Inl (json_error ''int''))"
| "decode_int JNull old = Inr old"
| "decode_int _ old = Inl (json_error ''int'')"

fun decode_string_ptr :: "json \<Rightarrow> string option \<Rightarrow> go_error + string option" where
  "decode_string_ptr JNull old = Inr None"
| "decode_string_ptr (JStr s) old = Inr (Some s)"
| "decode_string_ptr _ old = Inl (json_error ''string'')"

fun encode_string_ptr :: "string option \<Rightarrow> json" where
  "encode_string_ptr None = JNull"
| "encode_string_ptr (Some s) = JStr s"

text \<open>\<open>[]string\<close>; \<open>None\<close> is the nil slice. A \<open>null\<close> element is the empty string.\<close>

type_synonym string_slice = "string list option"

fun decode_strings :: "json \<Rightarrow> go_error + string_slice" where
  "decode_strings JNull = Inr None"
| "decode_strings (JArr js) = sum_bind (map_sum_list (\<lambda>j. decode_string j []) js) (\<lambda>ss. Inr (Some ss))"
| "decode_strings _ = Inl (json_error ''[]string'')"

fun encode_strings :: "string_slice \<Rightarrow> json" where
  "encode_strings None = JNull"
| "encode_strings (Some ss) = JArr (map JStr ss)"

lemma decode_encode_strings [simp]: "decode_strings (encode_strings a) = Inr a"
proof (cases a)
  case (Some ss)
  have "map_sum_list (\<lambda>j. decode_string j []) (map JStr ss) = Inr ss"
    by (induction ss) auto
  with Some show ?thesis by simp
qed simp

text \<open>An object as a Go map: the last entry of a repeated key stays.\<close>

definition object_entries :: "(string \<times> json) list \<Rightarrow> (string \<times> json) list" where
  "object_entries kvs = fold (\<lambda>(k, j) m. AList.update k j m) kvs []"

lemma map_of_object_entries: "map_of (object_entries kvs) k = map_of (rev kvs) k"
proof -
  have "map_of (fold (\<lambda>(k, j) m. AList.update k j m) kvs m) k = (map_of m ++ map_of (rev kvs)) k" for m
    by (induction kvs arbitrary: m) (auto simp: update_conv' map_add_def split: option.splits)
  then show ?thesis by (simp add: object_entries_def)
qed

lemma distinct_object_entries: "distinct (map fst (object_entries kvs))"
proof -
  have "distinct (map fst m) \<Longrightarrow> distinct (map fst (fold (\<lambda>(k, j) m. AList.update k j m) kvs m))" for m
    by (induction kvs arbitrary: m) (auto simp: distinct_update)
  then show ?thesis by (simp add: object_entries_def)
qed

text \<open>
  \<open>any\<close>: a number becomes a float64 and must be in its range.
\<close>

fun decode_any :: "json \<Rightarrow> go_error + any" where
  "decode_any JNull = Inr ANil"
| "decode_any (JBool b) = Inr (ABool b)"
| "decode_any (JNum l) =
     (case parse_float l of Some f \<Rightarrow> Inr (AFloat f) | None \<Rightarrow> Inl (json_error ''float64''))"
| "decode_any (JStr s) = Inr (AStr s)"
| "decode_any (JArr js) = sum_bind (map_sum_list decode_any js) (\<lambda>xs. Inr (AArr xs))"
| "decode_any (JObj kvs) =
     sum_bind (map_sum_list (\<lambda>(k, j). sum_bind (decode_any j) (\<lambda>x. Inr (k, x))) kvs)
       (\<lambda>es. Inr (AMap (fold (\<lambda>(k, x) m. AList.update k x m) es [])))"

text \<open>\<open>map[string]any\<close>; \<open>None\<close> is the nil map.\<close>

type_synonym properties = "(string \<times> any) list option"

fun decode_properties :: "json \<Rightarrow> properties \<Rightarrow> go_error + properties" where
  "decode_properties JNull old = Inr None"
| "decode_properties (JObj kvs) old =
     sum_bind (map_sum_list (\<lambda>(k, j). sum_bind (decode_any j) (\<lambda>x. Inr (k, x))) kvs)
       (\<lambda>es. Inr (Some (fold (\<lambda>(k, x) m. AList.update k x m) es (case old of None \<Rightarrow> [] | Some m \<Rightarrow> m))))"
| "decode_properties _ old = Inl (json_error ''map[string]interface {}'')"

text \<open>Writing a value; NaN and the infinities have no JSON. Map keys are written in order.\<close>

fun encode_any :: "any \<Rightarrow> json option" where
  "encode_any ANil = Some JNull"
| "encode_any (ABool b) = Some (JBool b)"
| "encode_any (AInt i) = Some (JNum (itoa i))"
| "encode_any (AInt64 i) = Some (JNum (itoa i))"
| "encode_any (AFloat f) = map_option JNum (json_float f)"
| "encode_any (AStr s) = Some (JStr s)"
| "encode_any (AArr xs) = map_option JArr (those (map encode_any xs))"
| "encode_any (AMap kvs) =
     map_option JObj (those (map (\<lambda>(k, m). map_option (Pair k) m)
       (sort_key fst (map (\<lambda>(k, x). (k, encode_any x)) kvs))))"

definition encode_properties :: "properties \<Rightarrow> json option" where
  "encode_properties p = (case p of None \<Rightarrow> Some JNull | Some kvs \<Rightarrow> encode_any (AMap kvs))"

section \<open>NullTime\<close>

definition NullTime_MarshalJSON :: "null_time \<Rightarrow> json" where
  "NullTime_MarshalJSON nt = (if \<not> nt_Valid nt then JNull else JNum (itoa (UnixMicro (nt_Time nt))))"

text \<open>
  \<open>null\<close> and the empty string only clear \<open>Valid\<close>; an integer counts microseconds; a string is an
  RFC 3339 timestamp.
\<close>

definition NullTime_UnmarshalJSON :: "json \<Rightarrow> null_time \<Rightarrow> go_error + null_time" where
  "NullTime_UnmarshalJSON data nt =
     (if data = JNull then Inr (nt\<lparr>nt_Valid := False\<rparr>)
      else case decode_int data 0 of
        Inr microseconds \<Rightarrow> Inr \<lparr>nt_Time = time_UnixMicro microseconds, nt_Valid = True\<rparr>
      | Inl _ \<Rightarrow>
          (case decode_string data [] of
             Inl e \<Rightarrow> Inl e
           | Inr s \<Rightarrow>
               if s = [] then Inr (nt\<lparr>nt_Valid := False\<rparr>)
               else case parse_RFC3339 s of
                 Some t \<Rightarrow> Inr \<lparr>nt_Time = t, nt_Valid = True\<rparr>
               | None \<Rightarrow> Inl (ErrMsg (''unable to parse timestamp string: '' @ s))))"

text \<open>What survives a round trip: the microsecond, and nothing of an invalid time.\<close>

definition stored_time :: "null_time \<Rightarrow> null_time" where
  "stored_time nt =
     (if nt_Valid nt then \<lparr>nt_Time = time_UnixMicro (UnixMicro (nt_Time nt)), nt_Valid = True\<rparr> else no_time)"

lemma NullTime_roundtrip [simp]:
  "NullTime_UnmarshalJSON (NullTime_MarshalJSON nt) no_time = Inr (stored_time nt)"
proof -
  have "parse_int (itoa (UnixMicro (nt_Time nt))) = Some (UnixMicro (nt_Time nt))"
    using wrap64_range by (intro parse_int_itoa) (simp_all add: UnixMicro_def)
  then show ?thesis
    by (simp add: NullTime_UnmarshalJSON_def NullTime_MarshalJSON_def stored_time_def no_time_def)
qed

lemma stored_time_valid [simp]: "nt_Valid (stored_time nt) = nt_Valid nt"
  by (simp add: stored_time_def no_time_def)

section \<open>Structs\<close>

record 't json_field =
  jf_tag :: string
  jf_enc :: "'t \<Rightarrow> json"
  jf_dec :: "json \<Rightarrow> 't \<Rightarrow> go_error + 't"

definition marshal_struct :: "'t json_field list \<Rightarrow> 't \<Rightarrow> json" where
  "marshal_struct fs x = JObj (map (\<lambda>f. (jf_tag f, jf_enc f x)) fs)"

text \<open>
  \<open>json.Unmarshal\<close> prefers the field with exactly the key's name, then the first field whose name
  differs in case only; other keys are ignored.
\<close>

definition fold_name :: "string \<Rightarrow> string" where
  "fold_name = map lower"

definition find_field :: "'t json_field list \<Rightarrow> string \<Rightarrow> 't json_field option" where
  "find_field fs k =
     (case find (\<lambda>f. jf_tag f = k) fs of
        Some f \<Rightarrow> Some f
      | None \<Rightarrow> find (\<lambda>f. fold_name (jf_tag f) = fold_name k) fs)"

fun unmarshal_entries :: "'t json_field list \<Rightarrow> (string \<times> json) list \<Rightarrow> 't \<Rightarrow> go_error + 't" where
  "unmarshal_entries fs [] x = Inr x"
| "unmarshal_entries fs ((k, j) # kvs) x =
     (case find_field fs k of
        None \<Rightarrow> unmarshal_entries fs kvs x
      | Some f \<Rightarrow> sum_bind (jf_dec f j x) (unmarshal_entries fs kvs))"

fun unmarshal_struct :: "'t json_field list \<Rightarrow> json \<Rightarrow> 't \<Rightarrow> go_error + 't" where
  "unmarshal_struct fs (JObj kvs) x = unmarshal_entries fs kvs x"
| "unmarshal_struct fs JNull x = Inr x"
| "unmarshal_struct fs _ x = Inl (json_error ''struct'')"

text \<open>Field by field, what reading back a written struct does.\<close>

fun decode_encoded :: "'t json_field list \<Rightarrow> 't \<Rightarrow> 't \<Rightarrow> go_error + 't" where
  "decode_encoded [] x z = Inr z"
| "decode_encoded (f # fs) x z = sum_bind (jf_dec f (jf_enc f x) z) (decode_encoded fs x)"

lemma find_field_exact:
  assumes "distinct (map jf_tag fs)" and "f \<in> set fs"
  shows "find_field fs (jf_tag f) = Some f"
proof -
  have "find (\<lambda>g. jf_tag g = jf_tag f) fs = Some f"
    using assms by (induction fs) (auto simp: image_iff)
  then show ?thesis by (simp add: find_field_def)
qed

lemma unmarshal_marshal:
  assumes "distinct (map jf_tag fs)"
  shows "unmarshal_struct fs (marshal_struct fs x) z = decode_encoded fs x z"
proof -
  have "set gs \<subseteq> set fs \<Longrightarrow>
      unmarshal_entries fs (map (\<lambda>f. (jf_tag f, jf_enc f x)) gs) z = decode_encoded gs x z" for gs
  proof (induction gs arbitrary: z)
    case (Cons g gs)
    then have "unmarshal_entries fs (map (\<lambda>f. (jf_tag f, jf_enc f x)) gs) = decode_encoded gs x" by auto
    with Cons.prems show ?case by (simp add: find_field_exact [OF assms])
  qed simp
  then show ?thesis by (simp add: marshal_struct_def)
qed

section \<open>UnmarshalNestedJSON\<close>

text \<open>\<open>strings.Split(s, sep)\<close> for a one-character separator.\<close>

fun split_on :: "char \<Rightarrow> string \<Rightarrow> string list" where
  "split_on c [] = [[]]"
| "split_on c (d # ds) =
     (if d = c then [] # split_on c ds
      else case split_on c ds of p # ps \<Rightarrow> (d # p) # ps | [] \<Rightarrow> [[d]])"

text \<open>An object, or \<open>null\<close>, as \<open>map[string]json.RawMessage\<close>.\<close>

fun raw_object :: "json \<Rightarrow> (string \<times> json) list option" where
  "raw_object (JObj kvs) = Some (object_entries kvs)"
| "raw_object JNull = Some []"
| "raw_object _ = None"

definition set_field :: "string \<Rightarrow> string \<Rightarrow> 't json_field \<Rightarrow> json \<Rightarrow> 't \<Rightarrow> go_error + 't" where
  "set_field what tag f j v =
     (case jf_dec f j v of
        Inr v' \<Rightarrow> Inr v'
      | Inl e \<Rightarrow> Inl (ErrMsg (''failed to unmarshal '' @ what @ tag @ '': '' @ error_msg e)))"

text \<open>
  A tag with one dot names a field of a nested object; a missing, null or ill-formed parent
  leaves the field as it is, without an error.
\<close>

definition nested_field :: "(string \<times> json) list \<Rightarrow> 't json_field \<Rightarrow> 't \<Rightarrow> go_error + 't" where
  "nested_field raw f v =
     (let jsonTag = hd (split_on (CHR '','') (jf_tag f))
      in if jf_tag f = [] \<or> jf_tag f = ''-'' then Inr v
         else if CHR ''.'' \<in> set jsonTag
         then (let parts = split_on (CHR ''.'') jsonTag
               in if length parts = 2
                  then case map_of raw (parts ! 0) of
                         None \<Rightarrow> Inr v
                       | Some parentJSON \<Rightarrow>
                           if parentJSON = JNull then Inr v
                           else case raw_object parentJSON of
                             None \<Rightarrow> Inr v
                           | Some parent \<Rightarrow>
                               (case map_of parent (parts ! 1) of
                                  None \<Rightarrow> Inr v
                                | Some childJSON \<Rightarrow> set_field ''nested field '' jsonTag f childJSON v)
                  else Inr v)
         else case map_of raw jsonTag of
                None \<Rightarrow> Inr v
              | Some rawValue \<Rightarrow> set_field ''field '' jsonTag f rawValue v)"

fun nested_fields :: "(string \<times> json) list \<Rightarrow> 't json_field list \<Rightarrow> 't \<Rightarrow> go_error + 't" where
  "nested_fields raw [] v = Inr v"
| "nested_fields raw (f # fs) v = sum_bind (nested_field raw f v) (nested_fields raw fs)"

text \<open>\<open>None\<close> is text that is not JSON.\<close>

definition UnmarshalNestedJSON :: "'t json_field list \<Rightarrow> json option \<Rightarrow> 't \<Rightarrow> go_error + 't" where
  "UnmarshalNestedJSON fs data v =
     (case data of
        None \<Rightarrow> Inl (ErrMsg ''invalid character'')
      | Some j \<Rightarrow>
          (case raw_object j of
             None \<Rightarrow> Inl (json_error ''map[string]json.RawMessage'')
           | Some raw \<Rightarrow> nested_fields raw fs v))"

text \<open>Where a field's value lies in a message.\<close>

fun json_get :: "json \<Rightarrow> string \<Rightarrow> json option" where
  "json_get (JObj kvs) k = map_of (rev kvs) k"
| "json_get _ k = None"

lemma map_of_raw_object: "raw_object j = Some raw \<Longrightarrow> map_of raw k = json_get j k"
  by (cases j) (auto simp: map_of_object_entries)

lemma split_on_absent: "c \<notin> set s \<Longrightarrow> split_on c s = [s]"
  by (induction s) auto

lemma split_on_append: "c \<notin> set s \<Longrightarrow> split_on c (s @ c # t) = s # split_on c t"
  by (induction s) auto

text \<open>
  A plain field: absent keeps, present decodes. A field two names deep: as if the parent object's
  entries were in the message, and kept when there is no parent object.
\<close>

lemma nested_field_plain:
  assumes "jf_tag f \<noteq> []" and "jf_tag f \<noteq> ''-''" and "CHR '','' \<notin> set (jf_tag f)"
    and "CHR ''.'' \<notin> set (jf_tag f)"
  shows "nested_field raw f v =
    (case map_of raw (jf_tag f) of None \<Rightarrow> Inr v | Some j \<Rightarrow> set_field ''field '' (jf_tag f) f j v)"
  using assms by (simp add: nested_field_def split_on_absent Let_def)

lemma nested_field_dotted:
  assumes "jf_tag f = p @ CHR ''.'' # c" and "CHR '','' \<notin> set (p @ c)" and "CHR ''.'' \<notin> set (p @ c)"
  shows "nested_field raw f v =
    (case Option.bind (map_of raw p) (\<lambda>parent. json_get parent c) of
       None \<Rightarrow> Inr v | Some j \<Rightarrow> set_field ''nested field '' (jf_tag f) f j v)"
proof -
  have "split_on (CHR '','') (jf_tag f) = [jf_tag f]" using assms by (simp add: split_on_absent)
  moreover have "split_on (CHR ''.'') (jf_tag f) = [p, c]"
    using assms by (simp add: split_on_append split_on_absent)
  moreover have "raw_object j = Some parent \<Longrightarrow> map_of parent c = json_get j c" for j parent
    by (rule map_of_raw_object)
  moreover have "raw_object j = None \<Longrightarrow> json_get j c = None" for j by (cases j) auto
  moreover have "jf_tag f \<noteq> []" "jf_tag f \<noteq> ''-''" "CHR ''.'' \<in> set (jf_tag f)"
    using assms(1) by (cases p; auto)+
  ultimately show ?thesis
    by (auto simp: nested_field_def split: option.splits)
qed

end
