(* ===== verification/Utils.thy ===== *)
theory Utils
  imports Go_Json
begin

text \<open>
  utils/string.go (\<open>StringArray\<close> and the array format of PostgreSQL), utils/env.go and
  utils/logger.go.
\<close>

section \<open>strings\<close>

definition is_space :: "char \<Rightarrow> bool" where
  "is_space c \<longleftrightarrow> c = CHR '' '' \<or> (9 \<le> (of_char c :: nat) \<and> (of_char c :: nat) \<le> 13)"

definition trim_with :: "(char \<Rightarrow> bool) \<Rightarrow> string \<Rightarrow> string" where
  "trim_with p s = rev (dropWhile p (rev (dropWhile p s)))"

definition TrimSpace :: "string \<Rightarrow> string" where
  "TrimSpace = trim_with is_space"

definition is_quote :: "char \<Rightarrow> bool" where
  "is_quote c \<longleftrightarrow> c = CHR 0x22"

definition TrimPrefix :: "string \<Rightarrow> string \<Rightarrow> string" where
  "TrimPrefix s p = (if take (length p) s = p then drop (length p) s else s)"

definition TrimSuffix :: "string \<Rightarrow> string \<Rightarrow> string" where
  "TrimSuffix s p = rev (TrimPrefix (rev s) (rev p))"

lemma trim_with_id:
  assumes "s \<noteq> [] \<Longrightarrow> \<not> p (hd s)" and "s \<noteq> [] \<Longrightarrow> \<not> p (last s)"
  shows "trim_with p s = s"
proof (cases "s = []")
  case False
  with assms(1) have "dropWhile p s = s" by (cases s) auto
  moreover have "dropWhile p (rev s) = rev s"
    using False assms(2) by (cases "rev s") (auto simp: hd_rev [symmetric])
  ultimately show ?thesis by (simp add: trim_with_def)
qed (simp add: trim_with_def)

lemma trim_with_wrapped:
  assumes "p c" and "s \<noteq> []" and "\<not> p (hd s)" and "\<not> p (last s)"
  shows "trim_with p (c # s @ [c]) = s"
proof -
  have "dropWhile p (s @ [c]) = s @ [c]" using assms(2,3) by (cases s) auto
  moreover have "dropWhile p (rev s) = rev s"
    using assms(2,4) by (cases "rev s") (auto simp: hd_rev [symmetric])
  ultimately show ?thesis using assms(1) by (simp add: trim_with_def)
qed

section \<open>StringArray\<close>

definition parsePostgresArray :: "string \<Rightarrow> string list" where
  "parsePostgresArray s0 =
     (let s = TrimSpace s0 in
      if s = ''{}'' \<or> s = [] then []
      else let s1 = TrimPrefix s ''{''; s2 = TrimSuffix s1 ''}''; parts = split_on (CHR '','') s2
           in filter (\<lambda>part. part \<noteq> []) (map (\<lambda>part. trim_with is_quote (TrimSpace part)) parts))"

text \<open>
  What a driver hands to \<open>Scan\<close>: text comes with the JSON document it spells, if it does.
\<close>

datatype sql_value = SqlNull | SqlBytes string "json option" | SqlString string "json option" | SqlOther string

fun StringArray_Scan :: "sql_value \<Rightarrow> go_error + string_slice" where
  "StringArray_Scan SqlNull = Inr (Some [])"
| "StringArray_Scan (SqlBytes str doc) =
     (case doc of
        None \<Rightarrow> Inr (Some (parsePostgresArray str))
      | Some j \<Rightarrow>
          (case decode_strings j of
             Inr arr \<Rightarrow> Inr arr
           | Inl _ \<Rightarrow> Inr (Some (parsePostgresArray str))))"
| "StringArray_Scan (SqlString v doc) = Inr (Some (parsePostgresArray v))"
| "StringArray_Scan (SqlOther v) = Inl (ErrMsg (''failed to unmarshal StringArray value: '' @ v))"

text \<open>\<open>Value\<close>: SQL null for a nil array, its JSON otherwise.\<close>

definition StringArray_Value :: "string_slice \<Rightarrow> json option" where
  "StringArray_Value a = (case a of None \<Rightarrow> None | Some _ \<Rightarrow> Some (encode_strings a))"

definition StringArray_MarshalJSON :: "string_slice \<Rightarrow> json" where
  "StringArray_MarshalJSON a = encode_strings a"

definition StringArray_UnmarshalJSON :: "json \<Rightarrow> string_slice \<Rightarrow> go_error + string_slice" where
  "StringArray_UnmarshalJSON data a = decode_strings data"

lemma StringArray_json [simp]: "StringArray_UnmarshalJSON (StringArray_MarshalJSON a) b = Inr a"
  by (simp add: StringArray_UnmarshalJSON_def StringArray_MarshalJSON_def)

lemma StringArray_Value_Scan:
  "StringArray_Value (Some ss) = Some j \<Longrightarrow> StringArray_Scan (SqlBytes text (Some j)) = Inr (Some ss)"
  by (auto simp: StringArray_Value_def simp del: encode_strings.simps)

text \<open>
  The text PostgreSQL prints for a \<open>text[]\<close>: elements between braces, separated by commas; an
  element is quoted when it is empty, reads \<open>NULL\<close> or holds a quote, a backslash, a brace, a comma
  or a space, and then its quotes and backslashes are escaped.
\<close>

definition pg_special :: "char \<Rightarrow> bool" where
  "pg_special c \<longleftrightarrow> c \<in> set (CHR 0x22 # CHR 0x5C # ''{},'') \<or> is_space c"

fun pg_escape :: "string \<Rightarrow> string" where
  "pg_escape [] = []"
| "pg_escape (c # cs) =
     (if c = CHR 0x22 \<or> c = CHR 0x5C then CHR 0x5C # c # pg_escape cs else c # pg_escape cs)"

definition pg_element :: "string \<Rightarrow> string" where
  "pg_element s =
     (if s = [] \<or> fold_name s = ''null'' \<or> list_ex pg_special s
      then CHR 0x22 # pg_escape s @ [CHR 0x22] else s)"

definition pg_array :: "string list \<Rightarrow> string" where
  "pg_array ss = ''{'' @ join_with '','' (map pg_element ss) @ ''}''"

text \<open>The elements the splitting handles: not empty, without comma, quote or backslash.\<close>

definition pg_plain :: "string \<Rightarrow> bool" where
  "pg_plain s \<longleftrightarrow> s \<noteq> [] \<and> CHR '','' \<notin> set s \<and> CHR 0x22 \<notin> set s \<and> CHR 0x5C \<notin> set s"

lemma pg_escape_plain: "pg_plain s \<Longrightarrow> pg_escape s = s"
proof -
  have "CHR 0x22 \<notin> set s \<Longrightarrow> CHR 0x5C \<notin> set s \<Longrightarrow> pg_escape s = s" by (induction s) auto
  then show "pg_plain s \<Longrightarrow> pg_escape s = s" by (simp add: pg_plain_def)
qed

lemma pg_element_no_comma: "pg_plain s \<Longrightarrow> CHR '','' \<notin> set (pg_element s)"
  by (auto simp: pg_element_def pg_escape_plain) (auto simp: pg_plain_def)

lemma pg_element_read:
  assumes "pg_plain s"
  shows "trim_with is_quote (TrimSpace (pg_element s)) = s"
proof -
  have ne: "s \<noteq> []" and nq: "CHR 0x22 \<notin> set s" using assms by (simp_all add: pg_plain_def)
  have "hd s \<in> set s" "last s \<in> set s" using ne by simp_all
  then have ends: "\<not> is_quote (hd s)" "\<not> is_quote (last s)" using nq by (auto simp: is_quote_def)
  show ?thesis
  proof (cases "fold_name s = ''null'' \<or> list_ex pg_special s")
    case True
    then have el: "pg_element s = CHR 0x22 # s @ [CHR 0x22]"
      using assms by (simp add: pg_element_def pg_escape_plain)
    have "\<not> is_space (CHR 0x22)" by code_simp
    then have "TrimSpace (pg_element s) = pg_element s"
      unfolding TrimSpace_def el by (intro trim_with_id) auto
    then show ?thesis using ne ends by (simp add: el trim_with_wrapped is_quote_def)
  next
    case False
    then have el: "pg_element s = s" using ne by (simp add: pg_element_def)
    have "\<forall>c \<in> set s. \<not> is_space c" using False by (auto simp: list_ex_iff pg_special_def)
    then have "TrimSpace s = s"
      unfolding TrimSpace_def using \<open>hd s \<in> set s\<close> \<open>last s \<in> set s\<close> by (intro trim_with_id) auto
    then show ?thesis using ends by (simp add: el trim_with_id)
  qed
qed

lemma split_on_join:
  "ss \<noteq> [] \<Longrightarrow> (\<And>s. s \<in> set ss \<Longrightarrow> c \<notin> set s) \<Longrightarrow> split_on c (join_with [c] ss) = ss"
proof (induction ss)
  case (Cons s ss)
  then show ?case by (cases ss) (simp_all add: split_on_absent split_on_append)
qed simp

lemma TrimSpace_braces: "TrimSpace (CHR ''{'' # s @ ''}'') = CHR ''{'' # s @ ''}''"
  unfolding TrimSpace_def
  by (rule trim_with_id) (simp_all add: is_space_def)



text \<open>
  An element with a comma is cut in two, although PostgreSQL quotes it, and escaped quotes keep
  their backslash.
\<close>
theorem parsePostgresArray_splits_quoted:
  "parsePostgresArray (pg_array [''Paris, France'', ''Rome'']) = [''Paris'', ''France'', ''Rome''] \<and>
   parsePostgresArray (pg_array [''6'' @ [CHR 0x22] @ ''x'']) = [''6'' @ [CHR 0x5C, CHR 0x22] @ ''x'']"
  by code_simp

section \<open>Environment variables\<close>

text \<open>\<open>os.Getenv\<close> is the function \<open>env\<close>, with the empty string for a variable that is not set.\<close>

type_synonym environment = "string \<Rightarrow> string"

definition atoi_error :: "string \<Rightarrow> go_error" where
  "atoi_error s = ErrMsg (''strconv.Atoi: parsing '' @ s)"

definition GetEnvAsInt :: "environment \<Rightarrow> string \<Rightarrow> int \<Rightarrow> int \<times> go_error option" where
  "GetEnvAsInt env key defaultValue =
     (let v = env key in
      if v = [] then (defaultValue, None)
      else case parse_int v of
        None \<Rightarrow> (defaultValue, Some (atoi_error v))
      | Some intValue \<Rightarrow> (intValue, None))"

definition ParseBrokersEnv :: "string \<Rightarrow> string list" where
  "ParseBrokersEnv brokersStr =
     (if brokersStr = [] then [] else map TrimSpace (split_on (CHR '','') brokersStr))"

definition parse_bool :: "string \<Rightarrow> bool option" where
  "parse_bool s =
     (if s \<in> set [''1'', ''t'', ''T'', ''true'', ''TRUE'', ''True''] then Some True
      else if s \<in> set [''0'', ''f'', ''F'', ''false'', ''FALSE'', ''False''] then Some False
      else None)"

definition GetEnvAsBool :: "environment \<Rightarrow> string \<Rightarrow> bool \<Rightarrow> bool" where
  "GetEnvAsBool env key defaultValue =
     (case parse_bool (env key) of None \<Rightarrow> defaultValue | Some b \<Rightarrow> b)"

definition GetEnvOrDefault :: "environment \<Rightarrow> string \<Rightarrow> string \<Rightarrow> string" where
  "GetEnvOrDefault env key defaultValue = (let v = env key in if v = [] then defaultValue else v)"

lemma GetEnvAsInt_written:
  "MinInt64 \<le> i \<Longrightarrow> i \<le> MaxInt64 \<Longrightarrow> env key = itoa i \<Longrightarrow> GetEnvAsInt env key d = (i, None)"
proof -
  assume "MinInt64 \<le> i" "i \<le> MaxInt64" "env key = itoa i"
  moreover have "itoa i \<noteq> []" by (simp add: itoa_def)
  ultimately show ?thesis by (simp add: GetEnvAsInt_def parse_int_itoa)
qed

lemma ParseBrokersEnv_join:
  assumes "bs \<noteq> []" and "\<And>b. b \<in> set bs \<Longrightarrow> CHR '','' \<notin> set b \<and> TrimSpace b = b" and "bs \<noteq> [[]]"
  shows "ParseBrokersEnv (join_with '','' bs) = bs"
proof -
  have "join_with '','' bs \<noteq> []" using assms(1,3) by (cases bs; cases "tl bs") auto
  moreover have "split_on (CHR '','') (join_with '','' bs) = bs"
    using assms(1,2) by (intro split_on_join) auto
  ultimately show ?thesis using assms(2) by (simp add: ParseBrokersEnv_def map_idI)
qed

section \<open>The log level handler\<close>

text \<open>
  An \<open>slog.Handler\<close> as the operations on its state; \<open>LevelHandler\<close> puts a level before one.
\<close>

record ('h, 'r, 'a) slog_handler =
  sl_Enabled :: "'h \<Rightarrow> int \<Rightarrow> bool"
  sl_Handle :: "'h \<Rightarrow> 'r \<Rightarrow> go_error option"
  sl_WithAttrs :: "'a list \<Rightarrow> 'h \<Rightarrow> 'h"
  sl_WithGroup :: "string \<Rightarrow> 'h \<Rightarrow> 'h"

record 'h level_handler =
  lh_level :: int
  lh_handler :: 'h

definition NewLevelHandler :: "int \<Rightarrow> 'h \<Rightarrow> 'h level_handler" where
  "NewLevelHandler level handler = \<lparr>lh_level = level, lh_handler = handler\<rparr>"

definition LevelHandler_Enabled :: "('h, 'r, 'a) slog_handler \<Rightarrow> 'h level_handler \<Rightarrow> int \<Rightarrow> bool" where
  "LevelHandler_Enabled ops h level \<longleftrightarrow> lh_level h \<le> level \<and> sl_Enabled ops (lh_handler h) level"

definition LevelHandler_Handle :: "('h, 'r, 'a) slog_handler \<Rightarrow> 'h level_handler \<Rightarrow> 'r \<Rightarrow> go_error option" where
  "LevelHandler_Handle ops h r = sl_Handle ops (lh_handler h) r"

definition LevelHandler_WithAttrs :: "('h, 'r, 'a) slog_handler \<Rightarrow> 'a list \<Rightarrow> 'h level_handler \<Rightarrow> 'h level_handler" where
  "LevelHandler_WithAttrs ops attrs h =
     NewLevelHandler (lh_level h) (sl_WithAttrs ops attrs (lh_handler h))"

definition LevelHandler_WithGroup :: "('h, 'r, 'a) slog_handler \<Rightarrow> string \<Rightarrow> 'h level_handler \<Rightarrow> 'h level_handler" where
  "LevelHandler_WithGroup ops name h =
     NewLevelHandler (lh_level h) (sl_WithGroup ops name (lh_handler h))"

lemma LevelHandler_level_kept:
  "\<not> LevelHandler_Enabled ops (LevelHandler_WithGroup ops g (LevelHandler_WithAttrs ops a h)) l" if "l < lh_level h"
  using that by (simp add: LevelHandler_Enabled_def LevelHandler_WithGroup_def LevelHandler_WithAttrs_def NewLevelHandler_def)

end
