(* ===== verification/Models.thy ===== *)
theory Models
  imports Utils
begin

text \<open>
  models/: the rows the processor works with (billable metrics, subscriptions, charges, the three
  filter tables) and their JSON form. Their queries are in Cache_Search, Flat_Filters and Stores.

  Each cached model comes with the list of its JSON fields, from the struct tags, and the lemma
  that reading back its JSON gives the same row with its times cut to the microsecond.
\<close>

section \<open>Fields of a struct\<close>

definition str_field :: "string \<Rightarrow> ('t \<Rightarrow> string) \<Rightarrow> ((string \<Rightarrow> string) \<Rightarrow> 't \<Rightarrow> 't) \<Rightarrow> 't json_field" where
  "str_field tag g u =
     \<lparr>jf_tag = tag, jf_enc = (\<lambda>x. JStr (g x)),
      jf_dec = (\<lambda>j x. map_sum id (\<lambda>s. u (\<lambda>_. s) x) (decode_string j (g x)))\<rparr>"

definition str_ptr_field :: "string \<Rightarrow> ('t \<Rightarrow> string option) \<Rightarrow> ((string option \<Rightarrow> string option) \<Rightarrow> 't \<Rightarrow> 't) \<Rightarrow> 't json_field" where
  "str_ptr_field tag g u =
     \<lparr>jf_tag = tag, jf_enc = (\<lambda>x. encode_string_ptr (g x)),
      jf_dec = (\<lambda>j x. map_sum id (\<lambda>s. u (\<lambda>_. s) x) (decode_string_ptr j (g x)))\<rparr>"

definition bool_field :: "string \<Rightarrow> ('t \<Rightarrow> bool) \<Rightarrow> ((bool \<Rightarrow> bool) \<Rightarrow> 't \<Rightarrow> 't) \<Rightarrow> 't json_field" where
  "bool_field tag g u =
     \<lparr>jf_tag = tag, jf_enc = (\<lambda>x. JBool (g x)),
      jf_dec = (\<lambda>j x. map_sum id (\<lambda>s. u (\<lambda>_. s) x) (decode_bool j (g x)))\<rparr>"

definition int_field :: "string \<Rightarrow> ('t \<Rightarrow> int) \<Rightarrow> ((int \<Rightarrow> int) \<Rightarrow> 't \<Rightarrow> 't) \<Rightarrow> 't json_field" where
  "int_field tag g u =
     \<lparr>jf_tag = tag, jf_enc = (\<lambda>x. JNum (itoa (g x))),
      jf_dec = (\<lambda>j x. map_sum id (\<lambda>s. u (\<lambda>_. s) x) (decode_int j (g x)))\<rparr>"

definition strings_field :: "string \<Rightarrow> ('t \<Rightarrow> string_slice) \<Rightarrow> ((string_slice \<Rightarrow> string_slice) \<Rightarrow> 't \<Rightarrow> 't) \<Rightarrow> 't json_field" where
  "strings_field tag g u =
     \<lparr>jf_tag = tag, jf_enc = (\<lambda>x. StringArray_MarshalJSON (g x)),
      jf_dec = (\<lambda>j x. map_sum id (\<lambda>s. u (\<lambda>_. s) x) (StringArray_UnmarshalJSON j (g x)))\<rparr>"

definition time_field :: "string \<Rightarrow> ('t \<Rightarrow> null_time) \<Rightarrow> ((null_time \<Rightarrow> null_time) \<Rightarrow> 't \<Rightarrow> 't) \<Rightarrow> 't json_field" where
  "time_field tag g u =
     \<lparr>jf_tag = tag, jf_enc = (\<lambda>x. NullTime_MarshalJSON (g x)),
      jf_dec = (\<lambda>j x. map_sum id (\<lambda>s. u (\<lambda>_. s) x) (NullTime_UnmarshalJSON j (g x)))\<rparr>"

lemmas field_defs = str_field_def str_ptr_field_def bool_field_def int_field_def strings_field_def
  time_field_def

lemma field_tags [simp]:
  "jf_tag (str_field tag g1 u1) = tag" "jf_tag (str_ptr_field tag g2 u2) = tag"
  "jf_tag (bool_field tag g3 u3) = tag" "jf_tag (int_field tag g4 u4) = tag"
  "jf_tag (strings_field tag g5 u5) = tag" "jf_tag (time_field tag g6 u6) = tag"
  by (simp_all add: field_defs)

lemma decode_string_ptr_encode [simp]: "decode_string_ptr (encode_string_ptr p) q = Inr p"
  by (cases p) simp_all

lemma field_roundtrips [simp]:
  "jf_dec (str_field tag g1 u1) (jf_enc (str_field tag g1 u1) x1) z1 = Inr (u1 (\<lambda>_. g1 x1) z1)"
  "jf_dec (str_ptr_field tag g2 u2) (jf_enc (str_ptr_field tag g2 u2) x2) z2 = Inr (u2 (\<lambda>_. g2 x2) z2)"
  "jf_dec (bool_field tag g3 u3) (jf_enc (bool_field tag g3 u3) x3) z3 = Inr (u3 (\<lambda>_. g3 x3) z3)"
  "jf_dec (strings_field tag g5 u5) (jf_enc (strings_field tag g5 u5) x5) z5 = Inr (u5 (\<lambda>_. g5 x5) z5)"
  by (simp_all add: field_defs)

lemma int_field_roundtrip [simp]:
  "MinInt64 \<le> g x \<Longrightarrow> g x \<le> MaxInt64 \<Longrightarrow>
   jf_dec (int_field tag g u) (jf_enc (int_field tag g u) x) z = Inr (u (\<lambda>_. g x) z)"
  by (simp add: field_defs parse_int_itoa)

lemma time_field_roundtrip [simp]:
  "g z = no_time \<Longrightarrow>
   jf_dec (time_field tag g u) (jf_enc (time_field tag g u) x) z = Inr (u (\<lambda>_. stored_time (g x)) z)"
  by (simp add: field_defs)

section \<open>Billable metrics\<close>

definition AggregationTypeCount :: int where "AggregationTypeCount = 0"
definition AggregationTypeSum :: int where "AggregationTypeSum = 1"
definition AggregationTypeMax :: int where "AggregationTypeMax = 2"
definition AggregationTypeUniqueCount :: int where "AggregationTypeUniqueCount = 3"
definition AggregationTypeWeightedSum :: int where "AggregationTypeWeightedSum = 5"
definition AggregationTypeLatest :: int where "AggregationTypeLatest = 6"
definition AggregationTypeCustom :: int where "AggregationTypeCustom = 7"

lemmas aggregation_types = AggregationTypeCount_def AggregationTypeSum_def AggregationTypeMax_def
  AggregationTypeUniqueCount_def AggregationTypeWeightedSum_def AggregationTypeLatest_def
  AggregationTypeCustom_def

definition AggregationType_String :: "int \<Rightarrow> string" where
  "AggregationType_String t =
     (if t = AggregationTypeCount then ''count''
      else if t = AggregationTypeSum then ''sum''
      else if t = AggregationTypeMax then ''max''
      else if t = AggregationTypeUniqueCount then ''unique_count''
      else if t = AggregationTypeWeightedSum then ''weighted_sum''
      else if t = AggregationTypeLatest then ''latest''
      else if t = AggregationTypeCustom then ''custom''
      else [])"

record billable_metric =
  bm_ID :: string
  bm_OrganizationID :: string
  bm_Code :: string
  bm_AggregationType :: int
  bm_FieldName :: string
  bm_Expression :: string
  bm_CreatedAt :: null_time
  bm_UpdatedAt :: null_time
  bm_DeletedAt :: null_time

definition zero_billable_metric :: billable_metric where
  "zero_billable_metric = \<lparr>bm_ID = [], bm_OrganizationID = [], bm_Code = [], bm_AggregationType = 0,
     bm_FieldName = [], bm_Expression = [], bm_CreatedAt = no_time, bm_UpdatedAt = no_time,
     bm_DeletedAt = no_time\<rparr>"

definition billable_metric_fields :: "billable_metric json_field list" where
  "billable_metric_fields =
    [str_field ''id'' bm_ID bm_ID_update,
     str_field ''organization_id'' bm_OrganizationID bm_OrganizationID_update,
     str_field ''code'' bm_Code bm_Code_update,
     int_field ''aggregation_type'' bm_AggregationType bm_AggregationType_update,
     str_field ''field_name'' bm_FieldName bm_FieldName_update,
     str_field ''expression'' bm_Expression bm_Expression_update,
     time_field ''created_at'' bm_CreatedAt bm_CreatedAt_update,
     time_field ''updated_at'' bm_UpdatedAt bm_UpdatedAt_update,
     time_field ''deleted_at'' bm_DeletedAt bm_DeletedAt_update]"

definition stored_billable_metric :: "billable_metric \<Rightarrow> billable_metric" where
  "stored_billable_metric m =
     m\<lparr>bm_CreatedAt := stored_time (bm_CreatedAt m), bm_UpdatedAt := stored_time (bm_UpdatedAt m),
       bm_DeletedAt := stored_time (bm_DeletedAt m)\<rparr>"

definition aggregation_type_ok :: "billable_metric \<Rightarrow> bool" where
  "aggregation_type_ok m \<longleftrightarrow> MinInt64 \<le> bm_AggregationType m \<and> bm_AggregationType m \<le> MaxInt64"

lemma billable_metric_roundtrip:
  assumes "aggregation_type_ok m"
  shows "unmarshal_struct billable_metric_fields (marshal_struct billable_metric_fields m) zero_billable_metric
    = Inr (stored_billable_metric m)"
  using assms
  by (subst unmarshal_marshal) (simp_all add: billable_metric_fields_def zero_billable_metric_def
    stored_billable_metric_def aggregation_type_ok_def)

section \<open>Subscriptions\<close>

record subscription =
  sub_ID :: string
  sub_OrganizationID :: "string option"
  sub_ExternalID :: string
  sub_PlanID :: string
  sub_CreatedAt :: null_time
  sub_UpdatedAt :: null_time
  sub_StartedAt :: null_time
  sub_TerminatedAt :: null_time

definition zero_subscription :: subscription where
  "zero_subscription = \<lparr>sub_ID = [], sub_OrganizationID = None, sub_ExternalID = [], sub_PlanID = [],
     sub_CreatedAt = no_time, sub_UpdatedAt = no_time, sub_StartedAt = no_time,
     sub_TerminatedAt = no_time\<rparr>"

definition subscription_fields :: "subscription json_field list" where
  "subscription_fields =
    [str_field ''id'' sub_ID sub_ID_update,
     str_ptr_field ''organization_id'' sub_OrganizationID sub_OrganizationID_update,
     str_field ''external_id'' sub_ExternalID sub_ExternalID_update,
     str_field ''plan_id'' sub_PlanID sub_PlanID_update,
     time_field ''created_at'' sub_CreatedAt sub_CreatedAt_update,
     time_field ''updated_at'' sub_UpdatedAt sub_UpdatedAt_update,
     time_field ''started_at'' sub_StartedAt sub_StartedAt_update,
     time_field ''terminated_at'' sub_TerminatedAt sub_TerminatedAt_update]"

definition stored_subscription :: "subscription \<Rightarrow> subscription" where
  "stored_subscription s =
     s\<lparr>sub_CreatedAt := stored_time (sub_CreatedAt s), sub_UpdatedAt := stored_time (sub_UpdatedAt s),
       sub_StartedAt := stored_time (sub_StartedAt s), sub_TerminatedAt := stored_time (sub_TerminatedAt s)\<rparr>"

lemma subscription_roundtrip:
  "unmarshal_struct subscription_fields (marshal_struct subscription_fields s) zero_subscription
    = Inr (stored_subscription s)"
  by (subst unmarshal_marshal) (simp_all add: subscription_fields_def zero_subscription_def
    stored_subscription_def)

section \<open>Charges and the filter tables\<close>

record charge =
  ch_ID :: string
  ch_OrganizationID :: string
  ch_PlanID :: string
  ch_BillableMetricID :: string
  ch_PayInAdvance :: bool
  ch_AcceptsTargetWallet :: bool
  ch_PricingGroupKeys :: string_slice
  ch_CreatedAt :: null_time
  ch_UpdatedAt :: null_time
  ch_DeletedAt :: null_time

definition zero_charge :: charge where
  "zero_charge = \<lparr>ch_ID = [], ch_OrganizationID = [], ch_PlanID = [], ch_BillableMetricID = [],
     ch_PayInAdvance = False, ch_AcceptsTargetWallet = False, ch_PricingGroupKeys = None,
     ch_CreatedAt = no_time, ch_UpdatedAt = no_time, ch_DeletedAt = no_time\<rparr>"

definition charge_fields :: "charge json_field list" where
  "charge_fields =
    [str_field ''id'' ch_ID ch_ID_update,
     str_field ''organization_id'' ch_OrganizationID ch_OrganizationID_update,
     str_field ''plan_id'' ch_PlanID ch_PlanID_update,
     str_field ''billable_metric_id'' ch_BillableMetricID ch_BillableMetricID_update,
     bool_field ''pay_in_advance'' ch_PayInAdvance ch_PayInAdvance_update,
     bool_field ''accepts_target_wallet'' ch_AcceptsTargetWallet ch_AcceptsTargetWallet_update,
     strings_field ''properties.pricing_group_keys'' ch_PricingGroupKeys ch_PricingGroupKeys_update,
     time_field ''created_at'' ch_CreatedAt ch_CreatedAt_update,
     time_field ''updated_at'' ch_UpdatedAt ch_UpdatedAt_update,
     time_field ''deleted_at'' ch_DeletedAt ch_DeletedAt_update]"

definition stored_charge :: "charge \<Rightarrow> charge" where
  "stored_charge c =
     c\<lparr>ch_CreatedAt := stored_time (ch_CreatedAt c), ch_UpdatedAt := stored_time (ch_UpdatedAt c),
       ch_DeletedAt := stored_time (ch_DeletedAt c)\<rparr>"

lemma charge_roundtrip:
  "unmarshal_struct charge_fields (marshal_struct charge_fields c) zero_charge = Inr (stored_charge c)"
  by (subst unmarshal_marshal) (simp_all add: charge_fields_def zero_charge_def stored_charge_def)

record billable_metric_filter =
  bmf_ID :: string
  bmf_OrganizationID :: string
  bmf_BillableMetricID :: string
  bmf_Key :: string
  bmf_Values :: string_slice
  bmf_CreatedAt :: null_time
  bmf_UpdatedAt :: null_time
  bmf_DeletedAt :: null_time

definition zero_billable_metric_filter :: billable_metric_filter where
  "zero_billable_metric_filter = \<lparr>bmf_ID = [], bmf_OrganizationID = [], bmf_BillableMetricID = [],
     bmf_Key = [], bmf_Values = None, bmf_CreatedAt = no_time, bmf_UpdatedAt = no_time,
     bmf_DeletedAt = no_time\<rparr>"

definition billable_metric_filter_fields :: "billable_metric_filter json_field list" where
  "billable_metric_filter_fields =
    [str_field ''id'' bmf_ID bmf_ID_update,
     str_field ''organization_id'' bmf_OrganizationID bmf_OrganizationID_update,
     str_field ''billable_metric_id'' bmf_BillableMetricID bmf_BillableMetricID_update,
     str_field ''key'' bmf_Key bmf_Key_update,
     strings_field ''values'' bmf_Values bmf_Values_update,
     time_field ''created_at'' bmf_CreatedAt bmf_CreatedAt_update,
     time_field ''updated_at'' bmf_UpdatedAt bmf_UpdatedAt_update,
     time_field ''deleted_at'' bmf_DeletedAt bmf_DeletedAt_update]"

definition stored_billable_metric_filter :: "billable_metric_filter \<Rightarrow> billable_metric_filter" where
  "stored_billable_metric_filter f =
     f\<lparr>bmf_CreatedAt := stored_time (bmf_CreatedAt f), bmf_UpdatedAt := stored_time (bmf_UpdatedAt f),
       bmf_DeletedAt := stored_time (bmf_DeletedAt f)\<rparr>"

lemma billable_metric_filter_roundtrip:
  "unmarshal_struct billable_metric_filter_fields (marshal_struct billable_metric_filter_fields f)
     zero_billable_metric_filter = Inr (stored_billable_metric_filter f)"
  by (subst unmarshal_marshal) (simp_all add: billable_metric_filter_fields_def
    zero_billable_metric_filter_def stored_billable_metric_filter_def)

record charge_filter =
  cf_ID :: string
  cf_OrganizationID :: string
  cf_ChargeID :: string
  cf_PricingGroupKeys :: string_slice
  cf_CreatedAt :: null_time
  cf_UpdatedAt :: null_time
  cf_DeletedAt :: null_time

definition zero_charge_filter :: charge_filter where
  "zero_charge_filter = \<lparr>cf_ID = [], cf_OrganizationID = [], cf_ChargeID = [],
     cf_PricingGroupKeys = None, cf_CreatedAt = no_time, cf_UpdatedAt = no_time,
     cf_DeletedAt = no_time\<rparr>"

definition charge_filter_fields :: "charge_filter json_field list" where
  "charge_filter_fields =
    [str_field ''id'' cf_ID cf_ID_update,
     str_field ''organization_id'' cf_OrganizationID cf_OrganizationID_update,
     str_field ''charge_id'' cf_ChargeID cf_ChargeID_update,
     strings_field ''properties.pricing_group_keys'' cf_PricingGroupKeys cf_PricingGroupKeys_update,
     time_field ''created_at'' cf_CreatedAt cf_CreatedAt_update,
     time_field ''updated_at'' cf_UpdatedAt cf_UpdatedAt_update,
     time_field ''deleted_at'' cf_DeletedAt cf_DeletedAt_update]"

definition stored_charge_filter :: "charge_filter \<Rightarrow> charge_filter" where
  "stored_charge_filter f =
     f\<lparr>cf_CreatedAt := stored_time (cf_CreatedAt f), cf_UpdatedAt := stored_time (cf_UpdatedAt f),
       cf_DeletedAt := stored_time (cf_DeletedAt f)\<rparr>"

lemma charge_filter_roundtrip:
  "unmarshal_struct charge_filter_fields (marshal_struct charge_filter_fields f) zero_charge_filter
    = Inr (stored_charge_filter f)"
  by (subst unmarshal_marshal) (simp_all add: charge_filter_fields_def zero_charge_filter_def
    stored_charge_filter_def)

record charge_filter_value =
  cfv_ID :: string
  cfv_OrganizationID :: string
  cfv_ChargeFilterID :: string
  cfv_BillableMetricFilterID :: string
  cfv_Values :: string_slice
  cfv_CreatedAt :: null_time
  cfv_UpdatedAt :: null_time
  cfv_DeletedAt :: null_time

definition zero_charge_filter_value :: charge_filter_value where
  "zero_charge_filter_value = \<lparr>cfv_ID = [], cfv_OrganizationID = [], cfv_ChargeFilterID = [],
     cfv_BillableMetricFilterID = [], cfv_Values = None, cfv_CreatedAt = no_time,
     cfv_UpdatedAt = no_time, cfv_DeletedAt = no_time\<rparr>"

definition charge_filter_value_fields :: "charge_filter_value json_field list" where
  "charge_filter_value_fields =
    [str_field ''id'' cfv_ID cfv_ID_update,
     str_field ''organization_id'' cfv_OrganizationID cfv_OrganizationID_update,
     str_field ''charge_filter_id'' cfv_ChargeFilterID cfv_ChargeFilterID_update,
     str_field ''billable_metric_filter_id'' cfv_BillableMetricFilterID cfv_BillableMetricFilterID_update,
     strings_field ''values'' cfv_Values cfv_Values_update,
     time_field ''created_at'' cfv_CreatedAt cfv_CreatedAt_update,
     time_field ''updated_at'' cfv_UpdatedAt cfv_UpdatedAt_update,
     time_field ''deleted_at'' cfv_DeletedAt cfv_DeletedAt_update]"

definition stored_charge_filter_value :: "charge_filter_value \<Rightarrow> charge_filter_value" where
  "stored_charge_filter_value v =
     v\<lparr>cfv_CreatedAt := stored_time (cfv_CreatedAt v), cfv_UpdatedAt := stored_time (cfv_UpdatedAt v),
       cfv_DeletedAt := stored_time (cfv_DeletedAt v)\<rparr>"

lemma charge_filter_value_roundtrip:
  "unmarshal_struct charge_filter_value_fields (marshal_struct charge_filter_value_fields v)
     zero_charge_filter_value = Inr (stored_charge_filter_value v)"
  by (subst unmarshal_marshal) (simp_all add: charge_filter_value_fields_def
    zero_charge_filter_value_def stored_charge_filter_value_def)

end
