(* ===== verification/Cache.thy ===== *)
theory Cache
  imports Models
begin

text \<open>
  cache/cache.go: typed access to the key-value store.

  BadgerDB is not part of the repository: the operations the code calls are the record \<open>badger\<close>, on
  a state of any type, and the locale \<open>badger_store\<close> states what the store documents of them: a map of the
  live entries (\<open>view\<close>) that a successful write changes at its key and a failed one leaves, reads of
  that map, and iteration in the byte order of the keys. \<open>badger_clock\<close> adds the passing of time.
  A value is a parsed JSON document, as everything in the store was written by \<open>setJSON\<close> or
  \<open>deleteWithTTL\<close>. The reference store at the end satisfies both contracts.
\<close>

section \<open>The key-value store\<close>

record 'db badger =
  bg_Set :: "string \<Rightarrow> json \<Rightarrow> 'db \<Rightarrow> go_error option \<times> 'db"
  bg_SetEntry :: "string \<Rightarrow> json \<Rightarrow> int \<Rightarrow> 'db \<Rightarrow> go_error option \<times> 'db"
  bg_Delete :: "string \<Rightarrow> 'db \<Rightarrow> go_error option \<times> 'db"
  bg_Get :: "'db \<Rightarrow> string \<Rightarrow> go_error + json"
  bg_Items :: "'db \<Rightarrow> (string \<times> (go_error + json)) list"

section \<open>Encoding\<close>

text \<open>\<open>json.Marshal\<close> and \<open>json.Unmarshal\<close> into a fresh value, for a type.\<close>

record 't codec =
  cd_Marshal :: "'t \<Rightarrow> go_error + json"
  cd_Unmarshal :: "json \<Rightarrow> go_error + 't"

definition struct_codec :: "'t json_field list \<Rightarrow> 't \<Rightarrow> 't codec" where
  "struct_codec fs zero =
     \<lparr>cd_Marshal = (\<lambda>x. Inr (marshal_struct fs x)), cd_Unmarshal = (\<lambda>j. unmarshal_struct fs j zero)\<rparr>"

section \<open>Operations\<close>

definition bool_of_err :: "go_error option \<Rightarrow> bool result" where
  "bool_of_err e = (case e of Some err \<Rightarrow> FailedBoolResult err | None \<Rightarrow> SuccessResult True)"

definition setJSON :: "'db badger \<Rightarrow> 't codec \<Rightarrow> string \<Rightarrow> 't \<Rightarrow> 'db \<Rightarrow> bool result \<times> 'db" where
  "setJSON B cd key v db =
     (case cd_Marshal cd v of
        Inl e \<Rightarrow> (FailedBoolResult e, db)
      | Inr data \<Rightarrow>
          (case bg_Set B key data db of
             (Some e, db') \<Rightarrow> (FailedBoolResult e, db')
           | (None, db') \<Rightarrow> (SuccessResult True, db')))"

definition delete :: "'db badger \<Rightarrow> string \<Rightarrow> 'db \<Rightarrow> bool result \<times> 'db" where
  "delete B key db =
     (case bg_Delete B key db of
        (Some e, db') \<Rightarrow> (FailedBoolResult e, db')
      | (None, db') \<Rightarrow> (SuccessResult True, db'))"

definition deleteWithTTL :: "'db badger \<Rightarrow> 't codec \<Rightarrow> string \<Rightarrow> 't \<Rightarrow> int \<Rightarrow> 'db \<Rightarrow> bool result \<times> 'db" where
  "deleteWithTTL B cd key v ttl db =
     (case cd_Marshal cd v of
        Inl e \<Rightarrow> (FailedBoolResult e, db)
      | Inr data \<Rightarrow>
          (case bg_SetEntry B key data ttl db of
             (Some e, db') \<Rightarrow> (FailedBoolResult e, db')
           | (None, db') \<Rightarrow> (SuccessResult True, db')))"

definition getJSON :: "'db badger \<Rightarrow> 't codec \<Rightarrow> 'db \<Rightarrow> string \<Rightarrow> 't result" where
  "getJSON B cd db key =
     (case sum_bind (bg_Get B db key) (cd_Unmarshal cd) of
        Inr out \<Rightarrow> SuccessResult out
      | Inl err \<Rightarrow>
          if err = ErrKeyNotFound then NonRetryable (NonCapturable (FailedResult err))
          else FailedResult err)"

text \<open>\<open>Seek\<close> to the prefix, then \<open>Next\<close> while the key has it.\<close>

definition prefix_items :: "string \<Rightarrow> (string \<times> 'v) list \<Rightarrow> (string \<times> 'v) list" where
  "prefix_items pre items =
     takeWhile (\<lambda>(k, _). prefix pre k) (dropWhile (\<lambda>(k, _). k < pre) items)"

definition searchJSON :: "'db badger \<Rightarrow> 't codec \<Rightarrow> 'db \<Rightarrow> string \<Rightarrow> 't list result" where
  "searchJSON B cd db pre =
     (case map_sum_list (\<lambda>(_, item). sum_bind item (cd_Unmarshal cd)) (prefix_items pre (bg_Items B db)) of
        Inl e \<Rightarrow> FailedResult e
      | Inr results \<Rightarrow> SuccessResult results)"

text \<open>
  The loop of \<open>LoadSnapshot\<close> over the rows: a row without key is skipped, one the store refuses is
  reported (the errors captured, in order) and skipped, the others are counted.
\<close>

fun load_items :: "'db badger \<Rightarrow> 't codec \<Rightarrow> ('t \<Rightarrow> string) \<Rightarrow> 't list \<Rightarrow> 'db \<Rightarrow> int \<times> go_error list \<times> 'db" where
  "load_items B cd keyFn [] db = (0, [], db)"
| "load_items B cd keyFn (item # rest) db =
     (let key = keyFn item in
      if key = [] then load_items B cd keyFn rest db
      else let (res, db') = setJSON B cd key item db; (count, errs, db'') = load_items B cd keyFn rest db'
           in if Failure res then (count, (case Error res of Some e \<Rightarrow> e # errs | None \<Rightarrow> errs), db'')
              else (count + 1, errs, db''))"

definition LoadSnapshot :: "'db badger \<Rightarrow> 't codec \<Rightarrow> (go_error + 't list) \<Rightarrow> ('t \<Rightarrow> string) \<Rightarrow> 'db \<Rightarrow>
    int result \<times> go_error list \<times> 'db" where
  "LoadSnapshot B cd fetched keyFn db =
     (case fetched of
        Inl err \<Rightarrow> (FailedResult err, [], db)
      | Inr list \<Rightarrow>
          (let (count, errs, db') = load_items B cd keyFn list db in (SuccessResult count, errs, db')))"

section \<open>Prefixes in byte order\<close>

lemma prefix_not_less: "prefix p k \<Longrightarrow> \<not> k < (p :: string)"
proof (induction p arbitrary: k)
  case (Cons c p)
  then obtain k' where "k = c # k'" "prefix p k'" by (auto simp: prefix_def)
  with Cons.IH show ?case by simp
qed simp

lemma prefix_between:
  "\<not> k < (p :: string) \<Longrightarrow> k \<le> k' \<Longrightarrow> prefix p k' \<Longrightarrow> prefix p k"
proof (induction p arbitrary: k k')
  case (Cons c p)
  then obtain r' where k': "k' = c # r'" "prefix p r'" by (auto simp: prefix_def)
  show ?case
  proof (cases k)
    case Nil
    with Cons.prems show ?thesis by simp
  next
    case (Cons d r)
    then have "d = c" using Cons.prems(1,2) k' by (auto simp: not_less)
    with Cons k' Cons.prems Cons.IH [of r r'] show ?thesis by auto
  qed
qed simp

lemma prefix_items_filter:
  assumes "sorted_wrt (<) (map fst items)"
  shows "prefix_items pre items = filter (\<lambda>(k, _). prefix pre k) items"
  using assms
proof (induction items)
  case (Cons it items)
  obtain k v where it: "it = (k, v)" by (cases it)
  show ?case
  proof (cases "k < pre")
    case True
    then have "\<not> prefix pre k" using prefix_not_less by blast
    with True Cons it show ?thesis by (simp add: prefix_items_def)
  next
    case False
    have tail: "takeWhile (\<lambda>(k, _). prefix pre k) its = filter (\<lambda>(k, _). prefix pre k) its"
      if "sorted_wrt (<) (map fst its)" and "\<forall>k' \<in> set (map fst its). \<not> k' < pre" for its :: "(string \<times> 'a) list"
      using that
    proof (induction its)
      case (Cons jt its)
      obtain l w where jt: "jt = (l, w)" by (cases jt)
      show ?case
      proof (cases "prefix pre l")
        case True
        with Cons jt show ?thesis by simp
      next
        case False
        have "\<not> prefix pre l'" if "(l', w') \<in> set its" for l' w'
        proof
          assume "prefix pre l'"
          moreover have "l \<le> l'" using Cons.prems(1) that jt by (force simp: less_imp_le)
          ultimately show False using prefix_between [of l pre l'] False Cons.prems(2) jt by auto
        qed
        then have "filter (\<lambda>(k, _). prefix pre k) its = []" by (auto simp: filter_empty_conv)
        with False jt show ?thesis by simp
      qed
    qed simp
    have "\<forall>k' \<in> set (map fst (it # items)). \<not> k' < pre"
      using Cons.prems False it by (auto dest: less_trans)
    then have "takeWhile (\<lambda>(k, _). prefix pre k) (it # items) = filter (\<lambda>(k, _). prefix pre k) (it # items)"
      using tail [of "it # items"] Cons.prems by blast
    with False it show ?thesis by (simp add: prefix_items_def)
  qed
qed (simp add: prefix_items_def)

section \<open>The contract of the store\<close>

locale badger_store =
  fixes B :: "'db badger" and view :: "'db \<Rightarrow> string \<Rightarrow> json option"
  assumes set_ok: "bg_Set B k v db = (None, db') \<Longrightarrow> view db' = (view db)(k \<mapsto> v)"
    and set_failed: "bg_Set B k v db = (Some e, db') \<Longrightarrow> view db' = view db"
    and set_ttl_ok: "0 < ttl \<Longrightarrow> bg_SetEntry B k v ttl db = (None, db') \<Longrightarrow>
      view db' = (view db)(k \<mapsto> v) \<or> (ttl < Second \<and> view db' = (view db)(k := None))"
    and set_ttl_failed: "bg_SetEntry B k v ttl db = (Some e, db') \<Longrightarrow> view db' = view db"
    and delete_ok: "bg_Delete B k db = (None, db') \<Longrightarrow> view db' = (view db)(k := None)"
    and delete_failed: "bg_Delete B k db = (Some e, db') \<Longrightarrow> view db' = view db"
    and get_view: "bg_Get B db k = (case view db k of None \<Rightarrow> Inl ErrKeyNotFound | Some j \<Rightarrow> Inr j)"
    and items_sorted: "sorted_wrt (<) (map fst (bg_Items B db))"
    and items_view: "map_of (bg_Items B db) k = map_option Inr (view db k)"
begin

lemma setJSON_cases:
  assumes "cd_Marshal cd x = Inr j" and "setJSON B cd k x db = (r, db')"
  shows "(Success r \<and> view db' = (view db)(k \<mapsto> j)) \<or> (\<not> Success r \<and> view db' = view db)"
  using assms set_ok [of k j db db'] set_failed [of k j db _ db']
  by (auto simp: setJSON_def split: prod.splits option.splits)

lemma delete_cases:
  assumes "delete B k db = (r, db')"
  shows "(Success r \<and> view db' = (view db)(k := None)) \<or> (\<not> Success r \<and> view db' = view db)"
  using assms delete_ok [of k db db'] delete_failed [of k db _ db']
  by (auto simp: delete_def split: prod.splits option.splits)

lemma deleteWithTTL_cases:
  assumes "cd_Marshal cd x = Inr j" and "deleteWithTTL B cd k x ttl db = (r, db')" and "Second \<le> ttl"
  shows "(Success r \<and> view db' = (view db)(k \<mapsto> j)) \<or> (\<not> Success r \<and> view db' = view db)"
proof -
  have "0 < ttl" "\<not> ttl < Second" using assms(3) by (simp_all add: Second_def)
  then show ?thesis
    using assms(1,2) set_ttl_ok [of ttl k j db db'] set_ttl_failed [of k j ttl db _ db']
    by (auto simp: deleteWithTTL_def split: prod.splits option.splits)
qed

lemma getJSON_missing:
  "view db k = None \<Longrightarrow> getJSON B cd db k = NonRetryable (NonCapturable (FailedResult ErrKeyNotFound))"
  by (simp add: getJSON_def get_view)

lemma getJSON_present: "view db k = Some j \<Longrightarrow> cd_Unmarshal cd j = Inr x \<Longrightarrow> getJSON B cd db k = SuccessResult x"
  by (simp add: getJSON_def get_view)

lemma items_with_prefix:
  "prefix_items pre (bg_Items B db) = filter (\<lambda>(k, _). prefix pre k) (bg_Items B db)"
  by (rule prefix_items_filter) (rule items_sorted)

lemma items_set: "(k, it) \<in> set (bg_Items B db) \<longleftrightarrow> (\<exists>j. it = Inr j \<and> view db k = Some j)"
proof -
  have "distinct (map fst (bg_Items B db))"
    using items_sorted [of db] by (simp add: strict_sorted_iff)
  then have "(k, it) \<in> set (bg_Items B db) \<longleftrightarrow> map_of (bg_Items B db) k = Some it" by simp
  then show ?thesis by (auto simp: items_view)
qed

text \<open>The keys of the live entries with a prefix, in order, and their values.\<close>

definition keys_with :: "string \<Rightarrow> 'db \<Rightarrow> string list" where
  "keys_with pre db = map fst (prefix_items pre (bg_Items B db))"

lemma keys_with_set: "set (keys_with pre db) = {k. prefix pre k \<and> view db k \<noteq> None}"
proof -
  have "k \<in> set (keys_with pre db) \<longleftrightarrow> (\<exists>it. (k, it) \<in> set (bg_Items B db) \<and> prefix pre k)" for k
    by (force simp: keys_with_def items_with_prefix)
  then show ?thesis by (auto simp: items_set)
qed

lemma keys_with_distinct: "distinct (keys_with pre db)" and keys_with_sorted: "sorted (keys_with pre db)"
proof -
  have "sorted_wrt (<) (keys_with pre db)"
    using sorted_wrt_filter [of "\<lambda>x y. fst x < fst y" "bg_Items B db"] items_sorted [of db]
    by (simp add: keys_with_def items_with_prefix sorted_wrt_map)
  then show "distinct (keys_with pre db)" "sorted (keys_with pre db)" by (simp_all add: strict_sorted_iff)
qed

lemma searchJSON_entries:
  assumes dec: "\<And>k j. prefix pre k \<Longrightarrow> view db k = Some j \<Longrightarrow> cd_Unmarshal cd j = Inr (f k)"
  shows "searchJSON B cd db pre = SuccessResult (map f (keys_with pre db))"
proof -
  have "sum_bind (snd p) (cd_Unmarshal cd) = Inr (f (fst p))"
    if "p \<in> set (prefix_items pre (bg_Items B db))" for p
  proof -
    obtain k it where p: "p = (k, it)" by (cases p)
    then have "(k, it) \<in> set (bg_Items B db)" and pre: "prefix pre k"
      using that unfolding items_with_prefix by auto
    then obtain j where "it = Inr j" "view db k = Some j" by (auto simp: items_set)
    with p pre dec show ?thesis by simp
  qed
  then have "map_sum_list (\<lambda>(_, item). sum_bind item (cd_Unmarshal cd)) (prefix_items pre (bg_Items B db))
      = Inr (map (f \<circ> fst) (prefix_items pre (bg_Items B db)))"
    by (intro map_sum_list_Inr) (auto simp: split_beta)
  then show ?thesis by (simp add: searchJSON_def keys_with_def)
qed

end

text \<open>Time: an entry written with a time to live is there until about that time has passed.\<close>

locale badger_clock = badger_store B view
  for B :: "'db badger" and view :: "'db \<Rightarrow> string \<Rightarrow> json option" +
  fixes later :: "int \<Rightarrow> 'db \<Rightarrow> 'db"
  assumes kept: "bg_Set B k v db = (None, db') \<Longrightarrow> 0 \<le> n \<Longrightarrow> view (later n db') k = Some v"
    and alive: "bg_SetEntry B k v ttl db = (None, db') \<Longrightarrow> 0 \<le> n \<Longrightarrow> n + Second \<le> ttl \<Longrightarrow>
      view (later n db') k = Some v"
    and expired: "bg_SetEntry B k v ttl db = (None, db') \<Longrightarrow> 0 < ttl \<Longrightarrow> ttl \<le> n \<Longrightarrow>
      view (later n db') k = None"
begin

lemma deleteWithTTL_expires:
  assumes "cd_Marshal cd x = Inr j" and "cd_Unmarshal cd j = Inr y"
    and "deleteWithTTL B cd k x ttl db = (r, db')" and "Success r" and "0 < ttl"
  shows "0 \<le> n \<Longrightarrow> n + Second \<le> ttl \<Longrightarrow> getJSON B cd (later n db') k = SuccessResult y"
    and "ttl \<le> n \<Longrightarrow> \<not> Success (getJSON B cd (later n db') k)"
proof -
  have set: "bg_SetEntry B k j ttl db = (None, db')"
    using assms(1,3,4) by (auto simp: deleteWithTTL_def split: prod.splits option.splits)
  show "getJSON B cd (later n db') k = SuccessResult y" if "0 \<le> n" "n + Second \<le> ttl"
    using alive [OF set that] assms(2) by (rule getJSON_present)
  show "\<not> Success (getJSON B cd (later n db') k)" if "ttl \<le> n"
    by (subst getJSON_missing [OF expired [OF set assms(5) that]]) simp
qed

end

section \<open>A reference store\<close>

text \<open>
  An association list and a clock, as the store keeps them: an expiry is a time in whole seconds, if
  there is one, and an entry is dead from that second on. Writing under the empty key is refused.
\<close>

record ref_db =
  rf_entries :: "(string \<times> json \<times> int option) list"
  rf_now :: instant

definition ref_empty :: "instant \<Rightarrow> ref_db" where
  "ref_empty now = \<lparr>rf_entries = [], rf_now = now\<rparr>"

definition dead :: "int option \<Rightarrow> instant \<Rightarrow> bool" where
  "dead e now \<longleftrightarrow> (case e of None \<Rightarrow> False | Some s \<Rightarrow> s \<le> now div Second)"

definition ref_view :: "ref_db \<Rightarrow> string \<Rightarrow> json option" where
  "ref_view db k =
     (case map_of (rf_entries db) k of
        None \<Rightarrow> None
      | Some (v, e) \<Rightarrow> if dead e (rf_now db) then None else Some v)"

definition ref_write :: "string \<Rightarrow> json \<Rightarrow> int option \<Rightarrow> ref_db \<Rightarrow> go_error option \<times> ref_db" where
  "ref_write k v e db =
     (if k = [] then (Some (ErrMsg ''Key cannot be empty''), db)
      else (None, db\<lparr>rf_entries := AList.update k (v, e) (rf_entries db)\<rparr>))"

definition ref_expiry :: "int \<Rightarrow> ref_db \<Rightarrow> int option" where
  "ref_expiry ttl db = Some ((rf_now db + ttl) div Second)"

definition ref_remove :: "string \<Rightarrow> ref_db \<Rightarrow> go_error option \<times> ref_db" where
  "ref_remove k db =
     (if k = [] then (Some (ErrMsg ''Key cannot be empty''), db)
      else (None, db\<lparr>rf_entries := AList.delete k (rf_entries db)\<rparr>))"

definition ref_get :: "ref_db \<Rightarrow> string \<Rightarrow> go_error + json" where
  "ref_get db k = (case ref_view db k of None \<Rightarrow> Inl ErrKeyNotFound | Some j \<Rightarrow> Inr j)"

fun live_items :: "ref_db \<Rightarrow> string list \<Rightarrow> (string \<times> (go_error + json)) list" where
  "live_items db [] = []"
| "live_items db (k # ks) =
     (case ref_view db k of None \<Rightarrow> live_items db ks | Some j \<Rightarrow> (k, Inr j) # live_items db ks)"

definition ref_items :: "ref_db \<Rightarrow> (string \<times> (go_error + json)) list" where
  "ref_items db = live_items db (sort (remdups (map fst (rf_entries db))))"

definition ref_badger :: "ref_db badger" where
  "ref_badger = \<lparr>bg_Set = (\<lambda>k v. ref_write k v None),
     bg_SetEntry = (\<lambda>k v ttl db. ref_write k v (ref_expiry ttl db) db),
     bg_Delete = ref_remove, bg_Get = ref_get, bg_Items = ref_items\<rparr>"

definition ref_later :: "int \<Rightarrow> ref_db \<Rightarrow> ref_db" where
  "ref_later n db = db\<lparr>rf_now := rf_now db + n\<rparr>"

lemmas ref_defs = ref_badger_def ref_write_def ref_remove_def ref_get_def

lemma ref_view_write:
  "ref_write k v e db = (None, db') \<Longrightarrow>
   ref_view db' = (ref_view db)(k := if dead e (rf_now db) then None else Some v)"
  by (rule ext) (auto simp: ref_write_def ref_view_def update_conv' split: if_splits option.splits)

lemma ref_view_remove: "ref_remove k db = (None, db') \<Longrightarrow> ref_view db' = (ref_view db)(k := None)"
  by (rule ext) (auto simp: ref_remove_def ref_view_def delete_conv' split: if_splits option.splits)

lemma live_items_keys: "set (map fst (live_items db ks)) \<subseteq> set ks"
  by (induction ks) (auto split: option.splits)

lemma live_items_sorted: "sorted_wrt (<) ks \<Longrightarrow> sorted_wrt (<) (map fst (live_items db ks))"
proof (induction ks)
  case (Cons k ks)
  then show ?case using live_items_keys [of db ks] by (auto split: option.splits)
qed simp

lemma map_of_live_items: "map_of (live_items db ks) k = (if k \<in> set ks then map_option Inr (ref_view db k) else None)"
  by (induction ks) (auto split: option.splits)

lemma ref_items_sorted: "sorted_wrt (<) (map fst (ref_items db))"
  unfolding ref_items_def by (rule live_items_sorted) (simp add: strict_sorted_iff)

lemma map_of_ref_items: "map_of (ref_items db) k = map_option Inr (ref_view db k)"
proof -
  have "k \<notin> fst ` set (rf_entries db) \<Longrightarrow> ref_view db k = None"
    using map_of_eq_None_iff [of "rf_entries db" k] by (simp add: ref_view_def)
  then show ?thesis by (simp add: ref_items_def map_of_live_items)
qed

lemma ref_expiry_short:
  assumes "0 < ttl" and "dead (ref_expiry ttl db) (rf_now db)"
  shows "ttl < Second"
proof -
  have "(rf_now db + ttl) div Second \<le> rf_now db div Second" using assms(2) by (simp add: ref_expiry_def dead_def)
  moreover have "rf_now db div Second + 1 \<le> (rf_now db + ttl) div Second" if "Second \<le> ttl"
  proof -
    have "(rf_now db + Second) div Second \<le> (rf_now db + ttl) div Second"
      using that by (intro zdiv_mono1) (simp_all add: Second_def)
    then show ?thesis by (simp add: Second_def)
  qed
  ultimately show ?thesis by fastforce
qed

lemma ref_alive_iff:
  assumes "ref_write k v (ref_expiry ttl db) db = (None, db')"
  shows "ref_view (ref_later n db') k = (if dead (ref_expiry ttl db) (rf_now db + n) then None else Some v)"
  using assms
  by (auto simp: ref_write_def ref_view_def ref_later_def update_conv' split: if_splits)

interpretation ref: badger_clock ref_badger ref_view ref_later
proof
  show "sorted_wrt (<) (map fst (bg_Items ref_badger db))" for db
    by (simp add: ref_badger_def ref_items_sorted)
  show "map_of (bg_Items ref_badger db) k = map_option Inr (ref_view db k)" for db k
    by (simp add: ref_badger_def map_of_ref_items)
  show "bg_Get ref_badger db k = (case ref_view db k of None \<Rightarrow> Inl ErrKeyNotFound | Some j \<Rightarrow> Inr j)" for db k
    by (simp add: ref_badger_def ref_get_def)
  show "bg_Set ref_badger k v db = (None, db') \<Longrightarrow> ref_view db' = (ref_view db)(k \<mapsto> v)" for k v db db'
    using ref_view_write [of k v None db db'] by (simp add: ref_badger_def dead_def)
  show "bg_Set ref_badger k v db = (Some e, db') \<Longrightarrow> ref_view db' = ref_view db" for k v db e db'
    by (auto simp: ref_defs split: if_splits)
  show "0 < ttl \<Longrightarrow> bg_SetEntry ref_badger k v ttl db = (None, db') \<Longrightarrow>
      ref_view db' = (ref_view db)(k \<mapsto> v) \<or> (ttl < Second \<and> ref_view db' = (ref_view db)(k := None))"
    for ttl k v db db'
    using ref_view_write [of k v "ref_expiry ttl db" db db'] ref_expiry_short [of ttl db]
    by (auto simp: ref_badger_def split: if_splits)
  show "bg_SetEntry ref_badger k v ttl db = (Some e, db') \<Longrightarrow> ref_view db' = ref_view db" for ttl k v db e db'
    by (auto simp: ref_defs split: if_splits)
  show "bg_Delete ref_badger k db = (None, db') \<Longrightarrow> ref_view db' = (ref_view db)(k := None)" for k db db'
    by (simp add: ref_badger_def ref_view_remove)
  show "bg_Delete ref_badger k db = (Some e, db') \<Longrightarrow> ref_view db' = ref_view db" for k db e db'
    by (auto simp: ref_defs split: if_splits)
  show "bg_Set ref_badger k v db = (None, db') \<Longrightarrow> 0 \<le> n \<Longrightarrow> ref_view (ref_later n db') k = Some v"
    for k v db db' n
    by (auto simp: ref_defs ref_view_def ref_later_def update_conv' dead_def split: if_splits)
  show "ref_view (ref_later n db') k = Some v"
    if "bg_SetEntry ref_badger k v ttl db = (None, db')" "0 \<le> n" "n + Second \<le> ttl" for k v ttl db db' n
  proof -
    have "(rf_now db + n + Second) div Second \<le> (rf_now db + ttl) div Second"
      using that(3) by (intro zdiv_mono1) (simp_all add: Second_def)
    then have "(rf_now db + n) div Second + 1 \<le> (rf_now db + ttl) div Second" by (simp add: Second_def)
    then have "\<not> dead (ref_expiry ttl db) (rf_now db + n)" by (simp add: ref_expiry_def dead_def)
    then show ?thesis using that(1) ref_alive_iff [of k v ttl db db' n] by (simp add: ref_badger_def)
  qed
  show "ref_view (ref_later n db') k = None"
    if "bg_SetEntry ref_badger k v ttl db = (None, db')" "0 < ttl" "ttl \<le> n" for k v ttl db db' n
  proof -
    have "(rf_now db + ttl) div Second \<le> (rf_now db + n) div Second"
      using that(3) by (intro zdiv_mono1) (simp_all add: Second_def)
    then have "dead (ref_expiry ttl db) (rf_now db + n)" by (simp add: ref_expiry_def dead_def)
    then show ?thesis using that(1) ref_alive_iff [of k v ttl db db' n] by (simp add: ref_badger_def)
  qed
qed

end
