(* ===== verification/Cache_Consumer.thy ===== *)
theory Cache_Consumer
  imports Cache
begin

text \<open>
  cache/consumer.go: keeping the cache up to date from the change stream of the database.

  \<open>processRecord\<close> applies one change message to the cache through the functions of a
  \<open>ConsumerConfig\<close>; \<open>consumer_loop\<close> is the goroutine of \<open>startGenericConsumer\<close> over the sequence of
  poll results. Errors given to Sentry are returned, in order; log lines are dropped.

  The locale \<open>consumer_contract\<close> is what a configuration promises: reads, writes and deletes at the
  model's key of a typed map. From it: messages touch their key only, updates never move an entry
  back in time, replays change nothing, and a run of updates ends with the latest.
\<close>

record ('t, 'db) consumer_config =
  cc_Topic :: string
  cc_ModelName :: string
  cc_IsDeleted :: "'t \<Rightarrow> bool"
  cc_GetKey :: "'t \<Rightarrow> string"
  cc_GetID :: "'t \<Rightarrow> string"
  cc_GetUpdatedAt :: "'t \<Rightarrow> int"
  cc_GetCached :: "'t \<Rightarrow> 'db \<Rightarrow> 't result"
  cc_SetCache :: "'t \<Rightarrow> 'db \<Rightarrow> bool result \<times> 'db"
  cc_Delete :: "'t \<Rightarrow> 'db \<Rightarrow> bool result \<times> 'db"

definition captured :: "'a result \<Rightarrow> go_error list" where
  "captured r = (case Error r of None \<Rightarrow> [] | Some e \<Rightarrow> [e])"

lemma captured_simps [simp]: "captured (SuccessResult v) = []" "Success r \<Longrightarrow> captured r = []"
  "captured r = [] \<longleftrightarrow> Success r"
  by (auto simp: captured_def go_simps split: option.splits)

text \<open>The message once read into a model. A successful read of the cache has a value.\<close>

definition apply_model :: "('t, 'db) consumer_config \<Rightarrow> 't \<Rightarrow> 'db \<Rightarrow> go_error list \<times> 'db" where
  "apply_model config model db =
     (if cc_IsDeleted config model
      then let existingRes = cc_GetCached config model db in
        if Failure existingRes then ([], db)
        else case Value existingRes of
          None \<Rightarrow> ([], db)
        | Some existing \<Rightarrow>
            if cc_GetID config existing \<noteq> cc_GetID config model then ([], db)
            else let (deleteRes, db') = cc_Delete config model db
                 in if Success deleteRes then ([], db') else (captured deleteRes, db')
      else let existingRes = cc_GetCached config model db;
               skip = (Success existingRes \<and>
                 (case Value existingRes of
                    None \<Rightarrow> False
                  | Some existing \<Rightarrow> cc_GetUpdatedAt config model \<le> cc_GetUpdatedAt config existing))
           in if skip then ([], db)
              else let (res, db') = cc_SetCache config model db
                   in if Failure res then (captured res, db') else ([], db'))"

definition processRecord :: "'t json_field list \<Rightarrow> 't \<Rightarrow> ('t, 'db) consumer_config \<Rightarrow> json option \<Rightarrow> 'db \<Rightarrow>
    go_error list \<times> 'db" where
  "processRecord fs zero config record_Value db =
     (case UnmarshalNestedJSON fs record_Value zero of
        Inl err \<Rightarrow> ([err], db)
      | Inr model \<Rightarrow> apply_model config model db)"

text \<open>
  One turn of the loop: the context was cancelled before it, the client was closed, the fetch
  failed (with or without the context cancelled meanwhile), or records came. Each record comes with
  whether the context was already cancelled when its turn came.
\<close>

datatype 'r poll =
    ContextDone
  | ClientClosed
  | FetchErr go_error bool
  | Fetched "(bool \<times> 'r) list"

fun each_record :: "('r \<Rightarrow> 'db \<Rightarrow> go_error list \<times> 'db) \<Rightarrow> (bool \<times> 'r) list \<Rightarrow> 'db \<Rightarrow> go_error list \<times> 'db" where
  "each_record f [] db = ([], db)"
| "each_record f ((ctx_err, r) # rs) db =
     (let (errs, db') = (if ctx_err then ([], db) else f r db); (errs', db'') = each_record f rs db'
      in (errs @ errs', db''))"

text \<open>The result: whether the loop has stopped, the captured errors, the number of commits asked.\<close>

fun consumer_loop :: "('r \<Rightarrow> 'db \<Rightarrow> go_error list \<times> 'db) \<Rightarrow> 'r poll list \<Rightarrow> 'db \<Rightarrow> bool \<times> go_error list \<times> nat \<times> 'db" where
  "consumer_loop f [] db = (False, [], 0, db)"
| "consumer_loop f (ContextDone # ps) db = (True, [], 0, db)"
| "consumer_loop f (ClientClosed # ps) db = (True, [], 0, db)"
| "consumer_loop f (FetchErr e cancelled # ps) db =
     (if cancelled then (True, [], 0, db)
      else let (stopped, errs, commits, db') = consumer_loop f ps db in (stopped, e # errs, commits, db'))"
| "consumer_loop f (Fetched rs # ps) db =
     (let (errs, db') = each_record f rs db; (stopped, errs', commits, db'') = consumer_loop f ps db'
      in (stopped, errs @ errs', Suc commits, db''))"

text \<open>A run of changes, one after the other.\<close>

fun apply_all :: "('t, 'db) consumer_config \<Rightarrow> 't list \<Rightarrow> 'db \<Rightarrow> go_error list \<times> 'db" where
  "apply_all config [] db = ([], db)"
| "apply_all config (m # ms) db =
     (let (errs, db') = apply_model config m db; (errs', db'') = apply_all config ms db' in (errs @ errs', db''))"

text \<open>
  The change a message asks for, on the typed map: a newer row replaces an older one, a deleted row
  goes if it is the one cached.
\<close>

definition change_effect :: "('t, 'db) consumer_config \<Rightarrow> ('t \<Rightarrow> 't) \<Rightarrow> ('t \<Rightarrow> 't option) \<Rightarrow> 't \<Rightarrow>
    (string \<Rightarrow> 't option) \<Rightarrow> (string \<Rightarrow> 't option)" where
  "change_effect config kept after_delete m M =
     (let k = cc_GetKey config m in
      if cc_IsDeleted config m
      then (case M k of
              None \<Rightarrow> M
            | Some x \<Rightarrow> if cc_GetID config x = cc_GetID config m then M(k := after_delete m) else M)
      else (case M k of
              None \<Rightarrow> M(k \<mapsto> kept m)
            | Some x \<Rightarrow> if cc_GetUpdatedAt config m \<le> cc_GetUpdatedAt config x then M else M(k \<mapsto> kept m)))"

section \<open>The contract of a configuration\<close>

text \<open>The typed map behind a store: what each key holds, read as a \<open>'t\<close>.\<close>

definition typed_view :: "('db \<Rightarrow> string \<Rightarrow> json option) \<Rightarrow> 't codec \<Rightarrow> 'db \<Rightarrow> string \<Rightarrow> 't option" where
  "typed_view view cd db k =
     (case view db k of
        None \<Rightarrow> None
      | Some j \<Rightarrow> (case cd_Unmarshal cd j of Inl _ \<Rightarrow> None | Inr x \<Rightarrow> Some x))"

locale consumer_contract =
  fixes config :: "('t, 'db) consumer_config"
    and cached :: "'db \<Rightarrow> string \<Rightarrow> 't option"
    and ok :: "'t \<Rightarrow> bool"
    and kept :: "'t \<Rightarrow> 't"
    and after_delete :: "'t \<Rightarrow> 't option"
  assumes get_cached: "ok m \<Longrightarrow> cached db (cc_GetKey config m) = Some x \<Longrightarrow> cc_GetCached config m db = SuccessResult x"
    and get_missing: "ok m \<Longrightarrow> cached db (cc_GetKey config m) = None \<Longrightarrow> \<not> Success (cc_GetCached config m db)"
    and set_cached: "ok m \<Longrightarrow> cc_SetCache config m db = (r, db') \<Longrightarrow>
      (Success r \<and> cached db' = (cached db)(cc_GetKey config m \<mapsto> kept m)) \<or> (\<not> Success r \<and> cached db' = cached db)"
    and delete_cached: "ok m \<Longrightarrow> cc_Delete config m db = (r, db') \<Longrightarrow>
      (Success r \<and> cached db' = (cached db)(cc_GetKey config m := after_delete m)) \<or> (\<not> Success r \<and> cached db' = cached db)"
    and kept_updated: "ok m \<Longrightarrow> cc_GetUpdatedAt config (kept m) = cc_GetUpdatedAt config m"
    and kept_id: "ok m \<Longrightarrow> cc_GetID config (kept m) = cc_GetID config m"
begin

abbreviation "key \<equiv> cc_GetKey config"
abbreviation "updated \<equiv> cc_GetUpdatedAt config"

text \<open>What an update leaves at its key when the store accepts it.\<close>

definition newer :: "'t option \<Rightarrow> 't \<Rightarrow> 't option" where
  "newer old m = (case old of
     None \<Rightarrow> Some (kept m)
   | Some x \<Rightarrow> if updated m \<le> updated x then Some x else Some (kept m))"

lemma apply_update:
  assumes "ok m" and "\<not> cc_IsDeleted config m" and "apply_model config m db = (errs, db')"
  shows "(errs = [] \<and> cached db' = (cached db)(key m := newer (cached db (key m)) m)) \<or>
    (errs \<noteq> [] \<and> cached db' = cached db)"
proof (cases "cached db (key m)")
  case None
  obtain r db1 where s: "cc_SetCache config m db = (r, db1)" by (cases "cc_SetCache config m db")
  then show ?thesis
    using assms(2,3) get_missing [OF assms(1) None] set_cached [OF assms(1) s]
    by (auto simp: apply_model_def newer_def None split: if_splits)
next
  case (Some x)
  obtain r db1 where s: "cc_SetCache config m db = (r, db1)" by (cases "cc_SetCache config m db")
  then show ?thesis
    using assms(2,3) get_cached [OF assms(1) Some] set_cached [OF assms(1) s]
    by (auto simp: apply_model_def newer_def Some fun_upd_idem split: if_splits)
qed

lemma apply_delete:
  assumes "ok m" and "cc_IsDeleted config m" and "apply_model config m db = (errs, db')"
  shows "cached db' = (if (\<exists>x. cached db (key m) = Some x \<and> cc_GetID config x = cc_GetID config m) \<and> errs = []
                       then (cached db)(key m := after_delete m) else cached db)"
proof (cases "cached db (key m)")
  case None
  then show ?thesis
    using assms(2,3) get_missing [OF assms(1) None] by (simp add: apply_model_def)
next
  case (Some x)
  obtain r db1 where s: "cc_Delete config m db = (r, db1)" by (cases "cc_Delete config m db")
  then show ?thesis
    using assms(2,3) get_cached [OF assms(1) Some] delete_cached [OF assms(1) s]
    by (auto simp: apply_model_def Some split: if_splits)
qed

lemma apply_refines:
  assumes "ok m" and "apply_model config m db = (errs, db')"
  shows "cached db' = (if errs = [] then change_effect config kept after_delete m (cached db) else cached db)"
proof (cases "cc_IsDeleted config m")
  case True
  with apply_delete [OF assms(1) True assms(2)] show ?thesis
    by (auto simp: change_effect_def Let_def split: option.splits)
next
  case False
  with apply_update [OF assms(1) False assms(2)] show ?thesis
    by (auto simp: change_effect_def newer_def Let_def fun_upd_idem split: option.splits)
qed

lemma apply_frame:
  assumes "ok m" and "apply_model config m db = (errs, db')" and "k \<noteq> key m"
  shows "cached db' k = cached db k"
  using apply_update [OF assms(1) _ assms(2)] apply_delete [OF assms(1) _ assms(2)] assms(3)
  by (cases "cc_IsDeleted config m") (auto split: if_splits)

lemma newer_mono: "ok m \<Longrightarrow> old = Some x \<Longrightarrow> \<exists>y. newer old m = Some y \<and> updated x \<le> updated y"
  by (auto simp: newer_def kept_updated)

lemma newer_fresh: "ok m \<Longrightarrow> \<exists>y. newer old m = Some y \<and> updated m \<le> updated y"
  by (auto simp: newer_def kept_updated split: option.splits)

lemma newer_again: "ok m \<Longrightarrow> newer (newer old m) m = newer old m"
  by (auto simp: newer_def kept_updated split: option.splits)

lemma apply_all_updates:
  assumes "\<And>m. m \<in> set ms \<Longrightarrow> ok m \<and> \<not> cc_IsDeleted config m \<and> key m = k"
    and "apply_all config ms db = ([], db')"
  shows "cached db' = (cached db)(k := fold (\<lambda>m old. newer old m) ms (cached db k))"
  using assms
proof (induction ms arbitrary: db)
  case (Cons m ms)
  obtain errs db1 where a: "apply_model config m db = (errs, db1)" by (cases "apply_model config m db")
  then have "errs = []" and rest: "apply_all config ms db1 = ([], db')"
    using Cons.prems(2) by (auto split: prod.splits)
  then have "cached db1 = (cached db)(k := newer (cached db k) m)"
    using apply_update [of m db errs db1] a Cons.prems(1) [of m] by auto
  then show ?case using Cons.IH [OF _ rest] Cons.prems(1) by (simp add: fun_eq_iff)
qed simp

lemma apply_older:
  "ok m \<Longrightarrow> \<not> cc_IsDeleted config m \<Longrightarrow> cached db (key m) = Some x \<Longrightarrow> updated m \<le> updated x \<Longrightarrow>
   apply_model config m db = ([], db)"
  by (simp add: apply_model_def get_cached)

lemma apply_all_older:
  assumes "cached db k = Some x"
    and "\<And>m. m \<in> set ms \<Longrightarrow> ok m \<and> \<not> cc_IsDeleted config m \<and> key m = k \<and> updated m \<le> updated x"
  shows "apply_all config ms db = ([], db)"
  using assms(2)
proof (induction ms)
  case (Cons m ms)
  then have "apply_model config m db = ([], db)" using apply_older assms(1) by simp
  with Cons show ?case by simp
qed simp

lemma fold_newer_max:
  assumes "ms \<noteq> []" and "\<And>m. m \<in> set ms \<Longrightarrow> ok m" and "inj_on updated (set ms)"
  shows "\<exists>m \<in> set ms. (\<forall>n \<in> set ms. updated n \<le> updated m) \<and> fold (\<lambda>m old. newer old m) ms None = Some (kept m)"
  using assms
proof (induction ms rule: rev_induct)
  case (snoc m ms)
  show ?case
  proof (cases ms)
    case Nil
    then show ?thesis by (simp add: newer_def)
  next
    case (Cons a as)
    have inj: "inj_on updated (set ms)" using snoc.prems(3) by (auto intro: inj_on_subset)
    obtain b where b: "b \<in> set ms" "\<forall>n \<in> set ms. updated n \<le> updated b"
        "fold (\<lambda>m old. newer old m) ms None = Some (kept b)"
      using snoc.IH [OF _ _ inj] snoc.prems(2) Cons by auto
    have "updated (kept b) = updated b" using snoc.prems(2) b(1) by (simp add: kept_updated)
    with b show ?thesis
      by (cases "updated m \<le> updated b") (auto simp: newer_def intro: order_trans less_imp_le)
  qed
qed simp

lemma last_wins:
  assumes "ms \<noteq> []" and "\<And>m. m \<in> set ms \<Longrightarrow> ok m \<and> \<not> cc_IsDeleted config m \<and> key m = k"
    and "cached db k = None" and "inj_on updated (set ms)" and "apply_all config ms db = ([], db')"
  shows "\<exists>m \<in> set ms. (\<forall>n \<in> set ms. updated n \<le> updated m) \<and> cached db' = (cached db)(k \<mapsto> kept m)"
proof -
  obtain m where "m \<in> set ms" "\<forall>n \<in> set ms. updated n \<le> updated m"
      "fold (\<lambda>m old. newer old m) ms None = Some (kept m)"
    using fold_newer_max [OF assms(1) _ assms(4)] assms(2) by blast
  then show ?thesis using apply_all_updates [OF assms(2,5)] assms(3) by auto
qed

end

end
