(* ===== verification/Go_Calendar.thy ===== *)
theory Go_Calendar
  imports Go_Time
begin

text \<open>
  The calendar and the timestamp layouts invert each other: a day number is that of its civil
  date, every civil date computed is a real one, and parsing what \<open>Format\<close> wrote gives the
  instant back, to the second.
\<close>

section \<open>Day numbers and civil dates\<close>

lemma century_year:
  fixes r k q y u :: int
  assumes "0 \<le> r" and "r < 36524" and "0 \<le> k" and "k \<le> 72"
    and q: "q = (k + r) div 1460" and y: "y = (r - q) div 365" and u: "u = y div 4"
  shows "0 \<le> y" and "y \<le> 99" and "365 * y + u \<le> r" and "r \<le> 365 * y + u + 365"
    and "r = 365 * y + u + 365 \<Longrightarrow> y mod 4 = 3 \<and> y < 99"
proof -
  have q1: "1460 * q \<le> k + r" and q2: "k + r < 1460 * q + 1460"
    unfolding q by simp_all
  have y1: "365 * y \<le> r - q" and y2: "r - q < 365 * y + 365"
    unfolding y by simp_all
  have u1: "4 * u \<le> y" and u2: "y \<le> 4 * u + 3"
    unfolding u by simp_all
  have q0: "0 \<le> q" unfolding q using assms by simp
  show y0: "0 \<le> y" using q2 y2 assms q0 by linarith
  have uq: "u \<le> q" using q2 y1 u1 assms q0 by linarith
  show y99: "y \<le> 99" using y1 q1 q2 assms by linarith
  have qu: "q \<le> u + 1" using q1 y2 u2 u1 y99 assms uq by linarith
  show "365 * y + u \<le> r" using y1 uq by linarith
  show "r \<le> 365 * y + u + 365" using y2 qu by linarith
  assume full: "r = 365 * y + u + 365"
  then have "q = u + 1" using y2 qu by linarith
  then have "y = 4 * u + 3" using full q1 u1 u2 y99 assms by linarith
  moreover have "y < 99" using full u1 u2 assms y99 calculation by linarith
  ultimately show "y mod 4 = 3 \<and> y < 99" by simp
qed

lemma era_split:
  fixes doe :: int
  assumes "0 \<le> doe" and "doe < 146096"
  defines "b \<equiv> doe div 36524" and "r \<equiv> doe mod 36524"
  defines "y \<equiv> (r - (24 * b + r) div 1460) div 365"
  shows "0 \<le> b" and "b \<le> 3" and "0 \<le> r" and "r < 36524"
    and "era_year doe = 100 * b + y" and "0 \<le> y" and "y \<le> 99"
    and "year_day doe = r - 365 * y - y div 4"
proof -
  show b: "0 \<le> b" "b \<le> 3" using assms(1,2) unfolding b_def by simp_all
  show r: "0 \<le> r" "r < 36524" unfolding r_def by simp_all
  have doe: "doe = 36524 * b + r" unfolding b_def r_def by simp
  have y: "0 \<le> y" "y \<le> 99"
    using century_year(1,2) [OF r _ _ refl refl refl, of "24 * b"] b unfolding y_def by simp_all
  show "0 \<le> y" "y \<le> 99" by (fact y)+
  have "doe div 1460 = 25 * b + (24 * b + r) div 1460"
    unfolding doe using div_mult_self1 [of 1460 "24 * b + r" "25 * b"] by (simp add: algebra_simps)
  moreover have "doe div 146096 = 0" using assms(1,2) by simp
  ultimately have "era_year doe = (36500 * b + (r - (24 * b + r) div 1460)) div 365"
    unfolding era_year_def using r by (simp flip: b_def add: doe algebra_simps)
  also have "\<dots> = 100 * b + y"
    unfolding y_def using div_mult_self1 [of 365 "r - (24 * b + r) div 1460" "100 * b"]
    by (simp add: algebra_simps)
  finally show ey: "era_year doe = 100 * b + y" .
  have "(100 * b + y) div 4 = 25 * b + y div 4" using div_mult_self1 [of 4 y "25 * b"] by (simp add: algebra_simps)
  moreover have "(100 * b + y) div 100 = b" using y by simp
  ultimately show "year_day doe = r - 365 * y - y div 4"
    unfolding year_day_def ey using doe by simp
qed

lemma era_year_bounds:
  assumes "0 \<le> doe" and "doe < 146097"
  shows "0 \<le> era_year doe" and "era_year doe \<le> 399"
    and "0 \<le> year_day doe" and "year_day doe \<le> 365"
    and "year_day doe = 365 \<Longrightarrow> is_leap (era_year doe + 1)"
proof -
  have "0 \<le> era_year doe \<and> era_year doe \<le> 399 \<and> 0 \<le> year_day doe \<and> year_day doe \<le> 365 \<and>
      (year_day doe = 365 \<longrightarrow> is_leap (era_year doe + 1))"
  proof (cases "doe = 146096")
    case True
    then show ?thesis by (simp add: era_year_def year_day_def is_leap_def)
  next
    case False
    then have lt: "doe < 146096" using assms by simp
    define b r where "b = doe div 36524" and "r = doe mod 36524"
    define y where "y = (r - (24 * b + r) div 1460) div 365"
    note split = era_split [OF assms(1) lt, folded b_def r_def, folded y_def]
    have k: "0 \<le> 24 * b" "24 * b \<le> 72" using split(1,2) by simp_all
    note cy = century_year [OF split(3,4) k refl, folded y_def, OF refl refl]
    have "is_leap (100 * b + y + 1)" if "y mod 4 = 3 \<and> y < 99"
    proof -
      have "(100 * b + y + 1) mod 4 = 0" using that by presburger
      moreover have "(100 * b + y + 1) mod 100 = y + 1"
        using that split(6) mod_mult_self2 [of "y + 1" 100 b] by (simp add: algebra_simps)
      ultimately show ?thesis using that split(6) by (simp add: is_leap_def)
    qed
    then show ?thesis using split cy by (auto simp: algebra_simps)
  qed
  then show "0 \<le> era_year doe" and "era_year doe \<le> 399"
    and "0 \<le> year_day doe" and "year_day doe \<le> 365"
    and "year_day doe = 365 \<Longrightarrow> is_leap (era_year doe + 1)" by simp_all
qed

definition month_day_ok :: "int \<Rightarrow> bool" where
  "month_day_ok doy \<longleftrightarrow>
     1 \<le> month_of doy \<and> month_of doy \<le> 12 \<and> 1 \<le> day_of doy \<and>
     day_of doy \<le> (if month_of doy = 2 then 29 else days_in (month_of doy) 0) \<and>
     (month_of doy = 2 \<and> day_of doy = 29 \<longleftrightarrow> doy = 365)"

lemma month_day_table: "list_all month_day_ok [0..365]"
  by code_simp

lemma month_day: "0 \<le> doy \<Longrightarrow> doy \<le> 365 \<Longrightarrow> month_day_ok doy"
  using month_day_table by (simp add: list_all_iff)

lemma civil_from_days_eq:
  assumes "civil_from_days z = (y, m, d)"
  defines "doe \<equiv> (z + 719468) mod 146097" and "e \<equiv> (z + 719468) div 146097"
  shows "m = month_of (year_day doe)" and "d = day_of (year_day doe)"
    and "y = era_year doe + e * 400 + (if m \<le> 2 then 1 else 0)"
  using assms(1) unfolding civil_from_days_def Let_def prod.inject doe_def e_def by metis+

lemma is_leap_era: "is_leap (y + e * 400) \<longleftrightarrow> is_leap y"
proof -
  have "(y + e * 400) mod 4 = y mod 4" "(y + e * 400) mod 100 = y mod 100"
    "(y + e * 400) mod 400 = y mod 400"
    using mod_mult_self1 [of y "e * 100" 4] mod_mult_self1 [of y "e * 4" 100] by (simp_all add: algebra_simps)
  then show ?thesis by (simp add: is_leap_def)
qed

lemma civil_from_days_valid:
  assumes "civil_from_days z = (y, m, d)"
  shows "1 \<le> m \<and> m \<le> 12 \<and> 1 \<le> d \<and> d \<le> days_in m y"
proof -
  define doe where "doe = (z + 719468) mod 146097"
  define e where "e = (z + 719468) div 146097"
  have doe: "0 \<le> doe" "doe < 146097" unfolding doe_def by simp_all
  note yb = era_year_bounds [OF doe]
  have ok: "month_day_ok (year_day doe)" using yb by (intro month_day)
  note y = civil_from_days_eq(3) [OF assms, folded doe_def e_def]
    and m = civil_from_days_eq(1) [OF assms, folded doe_def]
    and d = civil_from_days_eq(2) [OF assms, folded doe_def]
  have "is_leap y" if "m = 2" "d = 29"
  proof -
    have "year_day doe = 365" using ok that m d by (simp add: month_day_ok_def)
    then have "is_leap (era_year doe + 1)" by (rule yb(5))
    then show ?thesis using is_leap_era [of "era_year doe + 1" e] y that(1) by (simp add: algebra_simps)
  qed
  then show ?thesis using ok m d by (auto simp: month_day_ok_def days_in_def split: if_splits)
qed

lemma days_from_civil_from_days:
  assumes "civil_from_days z = (y, m, d)"
  shows "days_from_civil y m d = z"
proof -
  define doe where "doe = (z + 719468) mod 146097"
  define e where "e = (z + 719468) div 146097"
  have doe: "0 \<le> doe" "doe < 146097" unfolding doe_def by simp_all
  have z: "z = e * 146097 + doe - 719468" unfolding doe_def e_def by simp
  note yb = era_year_bounds [OF doe]
  define doy where "doy = year_day doe"
  define mp where "mp = month_index doy"
  have mp: "0 \<le> mp" "mp \<le> 11" using yb(3,4) unfolding mp_def month_index_def doy_def by simp_all
  note y = civil_from_days_eq(3) [OF assms, folded doe_def e_def]
  have m: "m = (if mp < 10 then mp + 3 else mp - 9)"
    using civil_from_days_eq(1) [OF assms, folded doe_def, folded doy_def]
    unfolding month_of_def mp_def .
  have d: "d = doy - (153 * mp + 2) div 5 + 1"
    using civil_from_days_eq(2) [OF assms, folded doe_def, folded doy_def]
    unfolding day_of_def mp_def .
  have y': "(if m \<le> 2 then y - 1 else y) = era_year doe + e * 400" using y by simp
  have mp': "(if 2 < m then m - 3 else m + 9) = mp" using m mp by auto
  have "(era_year doe + e * 400) div 400 = e" "(era_year doe + e * 400) mod 400 = era_year doe"
    using yb by simp_all
  then show ?thesis
    unfolding days_from_civil_def Let_def y' mp' d
    by (simp add: doy_def year_day_def z)
qed

section \<open>Reading back what Format wrote\<close>

lemma int_digits_two:
  assumes "10 \<le> n" and "n < 100"
  shows "int_digits n = [digit_char (n div 10), digit_char (n mod 10)]"
proof -
  have "n div 10 < 10" using assms by simp
  then have "int_digits (n div 10) = [digit_char (n div 10)]" by (subst int_digits.simps) simp
  with assms show ?thesis by (subst int_digits.simps) simp
qed

lemma digit_char_0: "digit_char 0 = CHR ''0''"
  by code_simp

lemma pad_int_2:
  assumes "0 \<le> n" and "n < 100"
  shows "pad_int 2 n = [digit_char (n div 10), digit_char (n mod 10)]"
proof (cases "n < 10")
  case True
  then have "int_digits n = [digit_char n]" by (subst int_digits.simps) simp
  with True assms show ?thesis by (simp add: pad_int_def zeros_def digit_char_0)
next
  case False
  with assms show ?thesis by (simp add: pad_int_def zeros_def int_digits_two)
qed

lemma digits_val_zeros: "digits_val_acc 0 (replicate k (CHR ''0'') @ ds) = digits_val_acc 0 ds"
  by (induction k) (simp_all add: digit_val_def)

lemma int_digits_length: "0 \<le> n \<Longrightarrow> n < 10 ^ Suc k \<Longrightarrow> length (int_digits n) \<le> Suc k"
proof (induction k arbitrary: n)
  case 0
  then show ?case by (subst int_digits.simps) simp
next
  case (Suc k)
  show ?case
  proof (cases "n < 10")
    case True
    then show ?thesis by (subst int_digits.simps) simp
  next
    case False
    have "n div 10 < 10 ^ Suc k" using Suc.prems by (simp add: div_less_iff_less_mult)
    then have "length (int_digits (n div 10)) \<le> Suc k" using Suc.prems by (intro Suc.IH) simp_all
    with False show ?thesis by (subst int_digits.simps) simp
  qed
qed

lemma pad_int_4:
  assumes "0 \<le> n" and "n \<le> 9999"
  shows "length (pad_int 4 n) = 4" and "list_all is_digit (pad_int 4 n)" and "digits_val (pad_int 4 n) = n"
proof -
  have eq: "pad_int 4 n = replicate (nat (4 - int (length (int_digits n)))) (CHR ''0'') @ int_digits n"
    using assms by (simp add: pad_int_def zeros_def Let_def)
  have "length (int_digits n) \<le> 4" using int_digits_length [of n 3] assms by simp
  then show "length (pad_int 4 n) = 4" by (simp add: eq)
  show "list_all is_digit (pad_int 4 n)"
    using int_digits_all [of n] assms
    by (auto simp: eq list_all_iff digit_char_0 [symmetric] set_replicate_conv_if)
  show "digits_val (pad_int 4 n) = n"
    using assms digits_val_int_digits [of n] by (simp add: eq digits_val_def digits_val_zeros)
qed

lemma getyear_pad: "0 \<le> n \<Longrightarrow> n \<le> 9999 \<Longrightarrow> getyear (pad_int 4 n @ s) = Some (n, s)"
  using pad_int_4 [of n] by (simp add: getyear_def)

lemma getnum_pad: "0 \<le> n \<Longrightarrow> n < 100 \<Longrightarrow> getnum f (pad_int 2 n @ s) = Some (n, s)"
  by (simp add: pad_int_2)

lemma in_range_ok: "lo \<le> n \<Longrightarrow> n \<le> hi \<Longrightarrow> in_range lo hi n = Some ()"
  by (simp add: in_range_def)

text \<open>The year of an instant; the layouts are four digits wide.\<close>

definition year_of :: "instant \<Rightarrow> int" where
  "year_of t = fst (civil_from_days (t div 1000000000 div 86400))"

definition printable_time :: "instant \<Rightarrow> bool" where
  "printable_time t \<longleftrightarrow> 0 \<le> year_of t \<and> year_of t \<le> 9999"

lemma parse_datetime_fields:
  assumes "0 \<le> y" "y \<le> 9999" "1 \<le> m" "m \<le> 12" "1 \<le> d" "d \<le> days_in m y"
    and "0 \<le> h" "h \<le> 23" "0 \<le> mi" "mi \<le> 59" "0 \<le> sec" "sec \<le> 59"
    and "getfrac rest = (0, rest)"
  shows "parse_datetime (pad_int 4 y @ ''-'' @ pad_int 2 m @ ''-'' @ pad_int 2 d @ ''T'' @
      pad_int 2 h @ '':'' @ pad_int 2 mi @ '':'' @ pad_int 2 sec @ rest)
    = Some ((days_from_civil y m d * 86400 + h * 3600 + mi * 60 + sec) * 1000000000, rest)"
proof -
  have "d < 100" using assms(6) by (auto simp: days_in_def split: if_splits)
  then show ?thesis
    using assms unfolding parse_datetime_def
    by (simp add: getyear_pad getnum_pad in_range_ok)
qed

lemma parse_datetime_format:
  assumes pr: "printable_time t" and rest: "getfrac rest = (0, rest)"
  shows "parse_datetime (format_datetime t @ rest) = Some (Truncate Second t, rest)"
proof -
  define s where "s = t div 1000000000"
  define r where "r = s mod 86400"
  obtain y m d where civ: "civil_from_days (s div 86400) = (y, m, d)" by (metis prod_cases3)
  have y: "0 \<le> y" "y \<le> 9999"
    using pr civ by (simp_all add: printable_time_def year_of_def s_def)
  have md: "1 \<le> m" "m \<le> 12" "1 \<le> d" "d \<le> days_in m y" using civil_from_days_valid [OF civ] by simp_all
  have r: "0 \<le> r" "r < 86400" unfolding r_def by simp_all
  have h: "0 \<le> r div 3600" "r div 3600 \<le> 23" using r by simp_all
  have mi: "0 \<le> r div 60 mod 60" "r div 60 mod 60 \<le> 59" by simp_all
  have se: "0 \<le> r mod 60" "r mod 60 \<le> 59" by simp_all
  have "r div 60 div 60 = r div 3600" by (simp flip: zdiv_zmult2_eq)
  then have "r = r div 3600 * 3600 + r div 60 mod 60 * 60 + r mod 60"
    using div_mult_mod_eq [of r 60] div_mult_mod_eq [of "r div 60" 60] by linarith
  moreover have "s = s div 86400 * 86400 + r" unfolding r_def by simp
  moreover have "days_from_civil y m d = s div 86400" by (rule days_from_civil_from_days [OF civ])
  ultimately have "days_from_civil y m d * 86400 + r div 3600 * 3600 + r div 60 mod 60 * 60 + r mod 60 = s"
    by linarith
  moreover have "Truncate Second t = s * 1000000000"
    by (simp add: Truncate_def Second_def minus_mod_eq_div_mult s_def)
  ultimately have inst: "(days_from_civil y m d * 86400 + r div 3600 * 3600 + r div 60 mod 60 * 60 + r mod 60)
      * 1000000000 = Truncate Second t" by (simp only:)
  have fmt: "format_datetime t = pad_int 4 y @ ''-'' @ pad_int 2 m @ ''-'' @ pad_int 2 d @ ''T'' @
      pad_int 2 (r div 3600) @ '':'' @ pad_int 2 (r div 60 mod 60) @ '':'' @ pad_int 2 (r mod 60)"
    by (simp add: format_datetime_def Let_def r_def civ [unfolded s_def] s_def)
  show ?thesis
    unfolding fmt inst [symmetric]
    using parse_datetime_fields [OF y md h mi se rest] by (simp only: append_assoc)
qed

lemma parse_RFC3339_format: "printable_time t \<Longrightarrow> parse_RFC3339 (format_RFC3339 t) = Some (Truncate Second t)"
  by (simp add: parse_RFC3339_def format_RFC3339_def parse_datetime_format getfrac_def parse_zone_def)

lemma parse_local_format: "printable_time t \<Longrightarrow> parse_local (format_datetime t) = Some (Truncate Second t)"
  using parse_datetime_format [of t "[]"] by (simp add: parse_local_def getfrac_def)

section \<open>Timestamps through CustomTime, ToTime and ToFloat64Timestamp\<close>

lemma pad_int_no_quote: "0 \<le> n \<Longrightarrow> CHR 0x22 \<notin> set (pad_int k n)"
proof -
  assume n: "0 \<le> n"
  have "list_all is_digit (pad_int k n)"
    using int_digits_all [of n] n
    by (auto simp: pad_int_def zeros_def Let_def list_all_iff digit_char_0 [symmetric] set_replicate_conv_if)
  moreover have "\<not> is_digit (CHR 0x22)" by code_simp
  ultimately show ?thesis by (auto simp: list_all_iff)
qed

lemma format_datetime_no_quote: "printable_time t \<Longrightarrow> CHR 0x22 \<notin> set (format_datetime t)"
proof -
  assume pr: "printable_time t"
  obtain y m d where civ: "civil_from_days (t div 1000000000 div 86400) = (y, m, d)" by (metis prod_cases3)
  have "0 \<le> y" using pr civ by (simp add: printable_time_def year_of_def)
  moreover have "0 \<le> m" "0 \<le> d" using civil_from_days_valid [OF civ] by simp_all
  ultimately show ?thesis
    using pad_int_no_quote by (auto simp: format_datetime_def Let_def civ)
qed

lemma trim_quotes_quoted:
  assumes "CHR 0x22 \<notin> set s"
  shows "trim_quotes (CHR 0x22 # s @ [CHR 0x22]) = s"
proof -
  have none: "dropWhile (\<lambda>c. c = CHR 0x22) u = u" if "CHR 0x22 \<notin> set u" for u :: string
    using that by (cases u) auto
  show ?thesis
  proof (cases s)
    case Nil then show ?thesis by (simp add: trim_quotes_def)
  next
    case (Cons a r)
    then have "dropWhile (\<lambda>c. c = CHR 0x22) (s @ [CHR 0x22]) = s @ [CHR 0x22]" using assms by auto
    then show ?thesis using none [of "rev s"] assms by (simp add: trim_quotes_def)
  qed
qed

lemma format_datetime_length: "printable_time t \<Longrightarrow> 2 \<le> length (format_datetime t) \<and> format_datetime t \<noteq> ''null''"
proof -
  assume pr: "printable_time t"
  obtain y m d where civ: "civil_from_days (t div 1000000000 div 86400) = (y, m, d)" by (metis prod_cases3)
  have "length (pad_int 4 y) = 4" using pr civ pad_int_4 [of y] by (simp add: printable_time_def year_of_def)
  then have "5 \<le> length (format_datetime t)" by (simp add: format_datetime_def Let_def civ)
  then show ?thesis by auto
qed

text \<open>
  C35: Reading back what \<open>CustomTime.MarshalJSON\<close> wrote gives the wall clock of the value to the
  second, read as UTC: the fraction of a second is dropped, and so is the offset of the location.
\<close>
theorem CustomTime_roundtrip:
  assumes "printable_time (ct_instant ct + ct_offset ct * Second)" and "ct_instant ct \<noteq> zero_time"
  shows "CustomTime_unmarshal (CustomTime_marshal ct) ct0
    = Inr \<lparr>ct_instant = Truncate Second (ct_instant ct) + ct_offset ct * Second, ct_offset = 0\<rparr>"
proof -
  have "Truncate Second (a + k * Second) = Truncate Second a + k * Second" for a k
    by (simp add: Truncate_def)
  then show ?thesis
    using assms format_datetime_length [OF assms(1)]
    by (auto simp: CustomTime_unmarshal_def CustomTime_marshal_def CustomTime_String_def Let_def
      trim_quotes_quoted format_datetime_no_quote parse_local_format)
qed

lemma CustomTime_roundtrip_witness:
  "CustomTime_unmarshal (CustomTime_marshal \<lparr>ct_instant = 1741007009344000000, ct_offset = 7200\<rparr>)
     zero_CustomTime = Inr \<lparr>ct_instant = 1741014209000000000, ct_offset = 0\<rparr>"
proof -
  have pr: "printable_time (1741007009344000000 + 7200 * Second)" by code_simp
  have nz: "(1741007009344000000::int) \<noteq> zero_time" by code_simp
  have tr: "Truncate Second 1741007009344000000 + 7200 * Second = 1741014209000000000" by code_simp
  show ?thesis
    using CustomTime_roundtrip [of "\<lparr>ct_instant = 1741007009344000000, ct_offset = 7200\<rparr>"] pr nz tr
    by simp
qed

text \<open>An \<open>ingested_at\<close> with an RFC 3339 offset is accepted, and written back without it.\<close>

lemma ingested_at_offset_lost:
  "CustomTime_unmarshal (CHR 0x22 # ''2025-03-03T15:03:29+02:00'' @ [CHR 0x22]) zero_CustomTime
     = Inr \<lparr>ct_instant = 1741007009000000000, ct_offset = 7200\<rparr> \<and>
   CustomTime_marshal \<lparr>ct_instant = 1741007009000000000, ct_offset = 7200\<rparr>
     = CHR 0x22 # ''2025-03-03T15:03:29'' @ [CHR 0x22] \<and>
   CustomTime_unmarshal (CHR 0x22 # ''2025-03-03T15:03:29'' @ [CHR 0x22]) zero_CustomTime
     = Inr \<lparr>ct_instant = 1741014209000000000, ct_offset = 0\<rparr>"
  by code_simp

lemma ToTime_unix: "\<bar>n\<bar> \<le> 2 ^ 62 \<Longrightarrow> ToTime (AInt64 n) = SuccessResult (n * Second)"
  by (simp add: unix_truncated_seconds)

text \<open>
  C36: \<open>ToTime\<close> succeeds exactly where \<open>ToFloat64Timestamp\<close> does, and then its instant is in whole
  milliseconds unless it came from an RFC 3339 string, which keeps its own precision.
\<close>
theorem ToTime_precision:
  assumes "Success (ToFloat64Timestamp ts)"
  shows "\<exists>t. ToTime ts = SuccessResult t \<and>
    (t mod Millisecond = 0 \<or> (\<exists>s. ts = AStr s \<and> parse_float s = None \<and> parse_RFC3339 s = Some t))"
  using assms by (cases ts) (auto simp: unix_truncated_ms split: option.splits)

lemma ToTime_precision_witness:
  "\<exists>t. ToTime (AInt64 1741007009) = SuccessResult t \<and> (t mod Millisecond = 0 \<or>
    (\<exists>s. AInt64 1741007009 = AStr s \<and> parse_float s = None \<and> parse_RFC3339 s = Some t))"
  by (rule ToTime_precision) simp

text \<open>
  The two conversions disagree on the milliseconds of a decimal timestamp: the fraction of
  \<open>1741007009.343\<close>, taken in floating point and cut, gives 342 milliseconds in \<open>ToTime\<close> where
  \<open>ToFloat64Timestamp\<close> gives 343.
\<close>
theorem ToTime_loses_a_millisecond:
  "Value (ToTime (AStr ''1741007009.343'')) = Some (1741007009342 * Millisecond) \<and>
   map_option fmt_f6 (Value (ToFloat64Timestamp (AStr ''1741007009.343''))) = Some ''1741007009.343000''"
  by code_simp

end
