(* ===== verification/Events.thy ===== *)
theory Events
  imports Models Go_Calendar
begin

text \<open>
  models/event.go and the rows of models/flat_filters.go: events as they arrive, enriched events
  as they leave, failed events; their JSON.

  A Go map is a reference: the properties of an enriched event and of the event it was made from
  are one map. The model keeps the map in both records, and \<open>set_property\<close>, the only write, changes
  both.
\<close>

section \<open>Flat filters\<close>

text \<open>
  A \<open>map[string][]string\<close> with distinct keys, in some order (the order of an iteration);
  \<open>None\<close> is the nil map.
\<close>

type_synonym flat_filter_values = "(string \<times> string_slice) list option"

text \<open>\<open>ff_Filters\<close> is a pointer to such a map.\<close>

record flat_filter =
  ff_OrganizationID :: string
  ff_BillableMetricCode :: string
  ff_PlanID :: string
  ff_ChargeID :: string
  ff_ChargeUpdatedAt :: instant
  ff_ChargeFilterID :: "string option"
  ff_ChargeFilterUpdatedAt :: "instant option"
  ff_Filters :: "flat_filter_values option"
  ff_PricingGroupKeys :: string_slice
  ff_PayInAdvance :: bool
  ff_AcceptsTargetWallet :: bool

section \<open>Events\<close>

definition HTTP_RUBY :: string where "HTTP_RUBY = ''http_ruby''"

definition TARGET_WALLET_CODE :: string where "TARGET_WALLET_CODE = ''target_wallet_code''"

record source_metadata =
  sm_ApiPostProcess :: bool
  sm_Reprocess :: bool

record event =
  ev_OrganizationID :: string
  ev_ExternalSubscriptionID :: string
  ev_TransactionID :: string
  ev_Code :: string
  ev_Properties :: properties
  ev_PreciseTotalAmountCents :: string
  ev_Source :: string
  ev_Timestamp :: any
  ev_SourceMetadata :: "source_metadata option"
  ev_IngestedAt :: custom_time

definition zero_event :: event where
  "zero_event = \<lparr>ev_OrganizationID = [], ev_ExternalSubscriptionID = [], ev_TransactionID = [],
     ev_Code = [], ev_Properties = None, ev_PreciseTotalAmountCents = [], ev_Source = [],
     ev_Timestamp = ANil, ev_SourceMetadata = None, ev_IngestedAt = zero_CustomTime\<rparr>"

definition IsReprocess :: "event \<Rightarrow> bool" where
  "IsReprocess ev \<longleftrightarrow> (case ev_SourceMetadata ev of None \<Rightarrow> False | Some m \<Rightarrow> sm_Reprocess m)"

definition NotAPIPostProcessed :: "event \<Rightarrow> bool" where
  "NotAPIPostProcessed ev \<longleftrightarrow>
     (if ev_Source ev \<noteq> HTTP_RUBY then True
      else case ev_SourceMetadata ev of None \<Rightarrow> True | Some m \<Rightarrow> \<not> sm_ApiPostProcess m)"

record enriched_event =
  ee_InitialEvent :: event
  ee_BillableMetric :: "billable_metric option"
  ee_Subscription :: "subscription option"
  ee_FlatFilter :: "flat_filter option"
  ee_OrganizationID :: string
  ee_ExternalSubscriptionID :: string
  ee_SubscriptionID :: string
  ee_PlanID :: string
  ee_TransactionID :: string
  ee_Code :: string
  ee_AggregationType :: string
  ee_Properties :: properties
  ee_PreciseTotalAmountCents :: string
  ee_Source :: string
  ee_Value :: "string option"
  ee_Timestamp :: f64
  ee_TimestampStr :: string
  ee_Time :: instant
  ee_ChargeID :: "string option"
  ee_ChargeUpdatedAt :: "instant option"
  ee_ChargeFilterID :: "string option"
  ee_ChargeFilterUpdatedAt :: "instant option"
  ee_GroupedBy :: "(string \<times> string) list"
  ee_TargetWalletCode :: "string option"

definition new_enriched_event :: "event \<Rightarrow> enriched_event" where
  "new_enriched_event ev = \<lparr>ee_InitialEvent = ev, ee_BillableMetric = None, ee_Subscription = None,
     ee_FlatFilter = None, ee_OrganizationID = ev_OrganizationID ev,
     ee_ExternalSubscriptionID = ev_ExternalSubscriptionID ev, ee_SubscriptionID = [], ee_PlanID = [],
     ee_TransactionID = ev_TransactionID ev, ee_Code = ev_Code ev, ee_AggregationType = [],
     ee_Properties = ev_Properties ev, ee_PreciseTotalAmountCents = ev_PreciseTotalAmountCents ev,
     ee_Source = ev_Source ev, ee_Value = None, ee_Timestamp = Fin 0 0, ee_TimestampStr = [],
     ee_Time = zero_time, ee_ChargeID = None, ee_ChargeUpdatedAt = None, ee_ChargeFilterID = None,
     ee_ChargeFilterUpdatedAt = None, ee_GroupedBy = [], ee_TargetWalletCode = None\<rparr>"

definition get_or :: "'a \<Rightarrow> 'a option \<Rightarrow> 'a" where
  "get_or d x = (case x of Some y \<Rightarrow> y | None \<Rightarrow> d)"

lemma get_or_simps [simp]: "get_or d (Some y) = y" "get_or d None = d"
  by (simp_all add: get_or_def)

definition ToEnrichedEvent :: "event \<Rightarrow> enriched_event result" where
  "ToEnrichedEvent ev =
     (let timestampResult = ToFloat64Timestamp (ev_Timestamp ev) in
      if Failure timestampResult then NonRetryable (FailedResult_err (Error timestampResult))
      else let ts = get_or (Fin 0 0) (Value timestampResult); timeResult = ToTime (ev_Timestamp ev) in
        if Failure timeResult then NonRetryable (FailedResult_err (Error timeResult))
        else SuccessResult ((new_enriched_event ev)\<lparr>ee_Timestamp := ts, ee_TimestampStr := fmt_f6 ts,
               ee_Time := get_or zero_time (Value timeResult)\<rparr>))"

lemma ToEnrichedEvent_cases:
  "(\<exists>e. ToEnrichedEvent ev = NonRetryable (FailedResult e)) \<or>
   (\<exists>t ts. ToTime (ev_Timestamp ev) = SuccessResult t \<and>
     ToFloat64Timestamp (ev_Timestamp ev) = SuccessResult ts \<and>
     ToEnrichedEvent ev = SuccessResult ((new_enriched_event ev)\<lparr>ee_Timestamp := ts,
       ee_TimestampStr := fmt_f6 ts, ee_Time := t\<rparr>))"
proof (cases "ev_Timestamp ev")
  case (AStr s)
  then show ?thesis by (auto simp: ToEnrichedEvent_def Let_def split: option.splits)
qed (auto simp: ToEnrichedEvent_def Let_def)

section \<open>Properties\<close>

text \<open>\<open>Properties[key]\<close>: the zero value of an interface is nil, for a missing key and for a nil map.\<close>

definition property :: "properties \<Rightarrow> string \<Rightarrow> any" where
  "property p key = (case p of None \<Rightarrow> ANil | Some m \<Rightarrow> get_or ANil (map_of m key))"

definition has_property :: "properties \<Rightarrow> string \<Rightarrow> bool" where
  "has_property p key \<longleftrightarrow> (case p of None \<Rightarrow> False | Some m \<Rightarrow> map_of m key \<noteq> None)"

text \<open>\<open>ev.Properties[key] = value\<close>: a write to a nil map panics; the event the enriched event was
  made from sees it.\<close>

definition set_property :: "string \<Rightarrow> any \<Rightarrow> enriched_event \<Rightarrow> enriched_event go" where
  "set_property key v ee =
     (case ee_Properties ee of
        None \<Rightarrow> Panic ''assignment to entry in nil map''
      | Some m \<Rightarrow>
          Ret (ee\<lparr>ee_Properties := Some (AList.update key v m),
                 ee_InitialEvent := (ee_InitialEvent ee)\<lparr>ev_Properties := Some (AList.update key v m)\<rparr>\<rparr>))"

section \<open>Reading an event\<close>

text \<open>
  The text of a JSON value, as \<open>CustomTime.UnmarshalJSON\<close> receives it; strings are those that need
  no escape, and no array or object is a timestamp.
\<close>

fun json_text :: "json \<Rightarrow> string" where
  "json_text JNull = ''null''"
| "json_text (JBool b) = (if b then ''true'' else ''false'')"
| "json_text (JNum l) = l"
| "json_text (JStr s) = CHR 0x22 # s @ [CHR 0x22]"
| "json_text (JArr js) = ''['' @ join_with '','' (map json_text js) @ '']''"
| "json_text (JObj kvs) = ''{'' @
     join_with '','' (map (\<lambda>(k, t). CHR 0x22 # k @ [CHR 0x22] @ '':'' @ t) (map (\<lambda>(k, j). (k, json_text j)) kvs)) @ ''}''"

definition source_metadata_fields :: "source_metadata json_field list" where
  "source_metadata_fields =
    [bool_field ''api_post_processed'' sm_ApiPostProcess sm_ApiPostProcess_update,
     bool_field ''reprocess'' sm_Reprocess sm_Reprocess_update]"

definition zero_source_metadata :: source_metadata where
  "zero_source_metadata = \<lparr>sm_ApiPostProcess = False, sm_Reprocess = False\<rparr>"

definition decode_source_metadata :: "json \<Rightarrow> source_metadata option \<Rightarrow> go_error + source_metadata option" where
  "decode_source_metadata j old =
     (if j = JNull then Inr None
      else map_sum id Some (unmarshal_struct source_metadata_fields j (get_or zero_source_metadata old)))"

text \<open>
  The fields of \<open>Event\<close>. Reading uses the decoders; writing is \<open>encode_event\<close> below, which may fail
  and omits an empty source, so the encoders of the three fields of open type are not used.
\<close>

definition event_fields :: "event json_field list" where
  "event_fields =
    [str_field ''organization_id'' ev_OrganizationID ev_OrganizationID_update,
     str_field ''external_subscription_id'' ev_ExternalSubscriptionID ev_ExternalSubscriptionID_update,
     str_field ''transaction_id'' ev_TransactionID ev_TransactionID_update,
     str_field ''code'' ev_Code ev_Code_update,
     \<lparr>jf_tag = ''properties'', jf_enc = (\<lambda>x. get_or JNull (encode_properties (ev_Properties x))),
      jf_dec = (\<lambda>j x. map_sum id (\<lambda>p. x\<lparr>ev_Properties := p\<rparr>) (decode_properties j (ev_Properties x)))\<rparr>,
     str_field ''precise_total_amount_cents'' ev_PreciseTotalAmountCents ev_PreciseTotalAmountCents_update,
     str_field ''source'' ev_Source ev_Source_update,
     \<lparr>jf_tag = ''timestamp'', jf_enc = (\<lambda>x. get_or JNull (encode_any (ev_Timestamp x))),
      jf_dec = (\<lambda>j x. map_sum id (\<lambda>v. x\<lparr>ev_Timestamp := v\<rparr>) (decode_any j))\<rparr>,
     \<lparr>jf_tag = ''source_metadata'',
      jf_enc = (\<lambda>x. case ev_SourceMetadata x of None \<Rightarrow> JNull | Some m \<Rightarrow> marshal_struct source_metadata_fields m),
      jf_dec = (\<lambda>j x. map_sum id (\<lambda>m. x\<lparr>ev_SourceMetadata := m\<rparr>) (decode_source_metadata j (ev_SourceMetadata x)))\<rparr>,
     \<lparr>jf_tag = ''ingested_at'',
      jf_enc = (\<lambda>x. if ct_instant (ev_IngestedAt x) = zero_time then JNull
                    else JStr (CustomTime_String (ev_IngestedAt x))),
      jf_dec = (\<lambda>j x. map_sum id (\<lambda>t. x\<lparr>ev_IngestedAt := t\<rparr>) (CustomTime_unmarshal (json_text j) (ev_IngestedAt x)))\<rparr>]"

definition unmarshal_event :: "json option \<Rightarrow> go_error + event" where
  "unmarshal_event data =
     (case data of
        None \<Rightarrow> Inl (ErrMsg ''invalid character'')
      | Some j \<Rightarrow> unmarshal_struct event_fields j zero_event)"

section \<open>Writing events\<close>

text \<open>\<open>time.Time.MarshalJSON\<close>, in UTC: RFC 3339 with the fraction's trailing zeros dropped; years
  outside 0 to 9999 are an error.\<close>

definition encode_time :: "instant \<Rightarrow> json option" where
  "encode_time t =
     (if printable_time t
      then let frac = strip_zeros (pad_int 9 (t mod 1000000000))
           in Some (JStr (format_datetime t @ (if frac = [] then [] else CHR ''.'' # frac) @ ''Z''))
      else None)"

definition encode_time_ptr :: "instant option \<Rightarrow> json option" where
  "encode_time_ptr t = (case t of None \<Rightarrow> Some JNull | Some x \<Rightarrow> encode_time x)"

text \<open>The members of an object in order; one that has no JSON fails the whole.\<close>

fun encode_object :: "(string \<times> json option) list \<Rightarrow> json option" where
  "encode_object kvs = map_option JObj (those (map (\<lambda>(k, m). map_option (Pair k) m) kvs))"

definition omit_empty :: "string \<Rightarrow> string \<Rightarrow> (string \<times> json option) list" where
  "omit_empty k s = (if s = [] then [] else [(k, Some (JStr s))])"

definition encode_event :: "event \<Rightarrow> json option" where
  "encode_event ev = encode_object
    ([(''organization_id'', Some (JStr (ev_OrganizationID ev))),
      (''external_subscription_id'', Some (JStr (ev_ExternalSubscriptionID ev))),
      (''transaction_id'', Some (JStr (ev_TransactionID ev))),
      (''code'', Some (JStr (ev_Code ev))),
      (''properties'', encode_properties (ev_Properties ev)),
      (''precise_total_amount_cents'', Some (JStr (ev_PreciseTotalAmountCents ev)))] @
     omit_empty ''source'' (ev_Source ev) @
     [(''timestamp'', encode_any (ev_Timestamp ev)),
      (''source_metadata'', Some (case ev_SourceMetadata ev of None \<Rightarrow> JNull
                                  | Some m \<Rightarrow> marshal_struct source_metadata_fields m)),
      (''ingested_at'', Some (if ct_instant (ev_IngestedAt ev) = zero_time then JNull
                              else JStr (CustomTime_String (ev_IngestedAt ev))))])"

definition encode_string_map :: "(string \<times> string) list \<Rightarrow> json" where
  "encode_string_map m = JObj (map (\<lambda>(k, v). (k, JStr v)) (sort_key fst m))"

definition encode_enriched_event :: "enriched_event \<Rightarrow> json option" where
  "encode_enriched_event ee = encode_object
    ([(''organization_id'', Some (JStr (ee_OrganizationID ee))),
      (''external_subscription_id'', Some (JStr (ee_ExternalSubscriptionID ee))),
      (''subscription_id'', Some (JStr (ee_SubscriptionID ee))),
      (''plan_id'', Some (JStr (ee_PlanID ee))),
      (''transaction_id'', Some (JStr (ee_TransactionID ee))),
      (''code'', Some (JStr (ee_Code ee))),
      (''aggregation_type'', Some (JStr (ee_AggregationType ee))),
      (''properties'', encode_properties (ee_Properties ee)),
      (''precise_total_amount_cents'', Some (JStr (ee_PreciseTotalAmountCents ee)))] @
     omit_empty ''source'' (ee_Source ee) @
     [(''value'', Some (encode_string_ptr (ee_Value ee))),
      (''timestamp'', map_option JNum (json_float (ee_Timestamp ee))),
      (''charge_id'', Some (encode_string_ptr (ee_ChargeID ee))),
      (''charge_updated_at'', encode_time_ptr (ee_ChargeUpdatedAt ee)),
      (''charge_filter_id'', Some (encode_string_ptr (ee_ChargeFilterID ee))),
      (''charge_filter_updated_at'', encode_time_ptr (ee_ChargeFilterUpdatedAt ee)),
      (''grouped_by'', Some (encode_string_map (ee_GroupedBy ee))),
      (''target_wallet_code'', Some (encode_string_ptr (ee_TargetWalletCode ee)))])"

record failed_event =
  fe_Event :: event
  fe_InitialErrorMessage :: string
  fe_ErrorMessage :: string
  fe_ErrorCode :: string
  fe_FailedAt :: instant

definition encode_failed_event :: "failed_event \<Rightarrow> json option" where
  "encode_failed_event fe = encode_object
    [(''event'', encode_event (fe_Event fe)),
     (''initial_error_message'', Some (JStr (fe_InitialErrorMessage fe))),
     (''error_message'', Some (JStr (fe_ErrorMessage fe))),
     (''error_code'', Some (JStr (fe_ErrorCode fe))),
     (''failed_at'', encode_time (fe_FailedAt fe))]"

end
