(* ===== verification/Cache_Models.thy ===== *)
theory Cache_Models
  imports Cache_Consumer Events
begin

text \<open>
  cache/billable_metrics.go, subscriptions.go, charges.go, billable_metric_filters.go,
  charge_filters.go, charge_filter_values.go: for each of the six models its keys, the typed reads,
  writes, searches and deletes, the snapshot and the configuration of its change consumer.

  The section of each model ends with the proof that its configuration keeps the contract of
  \<open>consumer_contract\<close> on any store that keeps \<open>badger_store\<close>, and the interpretation on the reference
  store. The subscriptions differ: their key needs an organization, a terminated one counts as
  deleted, and a delete keeps it for thirty days.
\<close>

section \<open>What the models share\<close>

text \<open>\<open>fmt.Sprintf\<close> with colons between the parts.\<close>

definition colon_key :: "string list \<Rightarrow> string" where
  "colon_key parts = join_with '':'' parts"

text \<open>The prefix of a search: the parts, each followed by a colon.\<close>

definition colon_prefix :: "string list \<Rightarrow> string" where
  "colon_prefix parts = concat (map (\<lambda>p. p @ '':'') parts)"

lemma colon_key_prefix: "qs \<noteq> [] \<Longrightarrow> colon_key (ps @ qs) = colon_prefix ps @ colon_key qs"
proof (induction ps)
  case (Cons p ps)
  then show ?case by (cases "ps @ qs") (simp_all add: colon_key_def colon_prefix_def)
qed (simp add: colon_prefix_def)

text \<open>Parts without colon are determined by the key.\<close>

lemma colon_key_inj:
  assumes "colon_key ps = colon_key qs" and "ps \<noteq> []" and "qs \<noteq> []"
    and "\<And>p. p \<in> set (ps @ qs) \<Longrightarrow> CHR '':'' \<notin> set p"
  shows "ps = qs"
proof -
  have "ps = split_on (CHR '':'') (colon_key ps)"
    unfolding colon_key_def by (rule split_on_join [OF assms(2), symmetric]) (simp add: assms(4))
  also have "\<dots> = split_on (CHR '':'') (colon_key qs)" by (rule arg_cong [OF assms(1)])
  also have "\<dots> = qs" unfolding colon_key_def by (rule split_on_join [OF assms(3)]) (simp add: assms(4))
  finally show ?thesis .
qed

text \<open>
  A search by prefix finds a key of colon-free parts exactly when its first parts are those of the
  search.
\<close>

lemma colon_prefix_iff:
  assumes "qs \<noteq> []" and "\<And>p. p \<in> set (ps @ qs) \<Longrightarrow> CHR '':'' \<notin> set p"
  shows "prefix (colon_prefix ps) (colon_key qs) \<longleftrightarrow> length ps < length qs \<and> take (length ps) qs = ps"
  using assms
proof (induction ps arbitrary: qs)
  case Nil
  then show ?case by (simp add: colon_prefix_def)
next
  case (Cons p ps)
  have cp: "colon_prefix (p # ps) = p @ CHR '':'' # colon_prefix ps" by (simp add: colon_prefix_def)
  obtain q qs' where qs: "qs = q # qs'" using Cons.prems(1) by (cases qs) auto
  have nc: "CHR '':'' \<notin> set p" "CHR '':'' \<notin> set q" using Cons.prems(2) qs by auto
  show ?case
  proof (cases qs')
    case Nil
    then have "colon_key qs = q" using qs by (simp add: colon_key_def)
    then have "\<not> prefix (colon_prefix (p # ps)) (colon_key qs)" using nc cp by (auto simp: prefix_def)
    with Nil qs show ?thesis by simp
  next
    case (Cons r rs)
    then have ck: "colon_key qs = q @ CHR '':'' # colon_key qs'" using qs by (simp add: colon_key_def)
    have "prefix (colon_prefix (p # ps)) (colon_key qs) \<longleftrightarrow> p = q \<and> prefix (colon_prefix ps) (colon_key qs')"
    proof
      assume "prefix (colon_prefix (p # ps)) (colon_key qs)"
      then obtain t where "q @ CHR '':'' # colon_key qs' = p @ CHR '':'' # (colon_prefix ps @ t)"
        unfolding cp ck by (auto simp: prefix_def)
      then have "q = p \<and> colon_key qs' = colon_prefix ps @ t" using nc by (intro split_first_sep) auto
      then show "p = q \<and> prefix (colon_prefix ps) (colon_key qs')" by (auto simp: prefix_def)
    next
      assume "p = q \<and> prefix (colon_prefix ps) (colon_key qs')"
      then show "prefix (colon_prefix (p # ps)) (colon_key qs)" unfolding cp ck by simp
    qed
    also have "\<dots> \<longleftrightarrow> p = q \<and> length ps < length qs' \<and> take (length ps) qs' = ps"
      using Cons.IH [of qs'] Cons.prems(2) qs Cons by auto
    finally show ?thesis using qs by auto
  qed
qed

text \<open>
  The times of a model read from JSON: an invalid one is the zero time, the microseconds of a valid
  one fit an int64.
\<close>

definition time_ok :: "null_time \<Rightarrow> bool" where
  "time_ok nt \<longleftrightarrow> (if nt_Valid nt then MinInt64 \<le> nt_Time nt div 1000 \<and> nt_Time nt div 1000 \<le> MaxInt64
                  else nt_Time nt = zero_time)"

definition updated_ms :: "null_time \<Rightarrow> int" where
  "updated_ms nt = UnixMilli (nt_Time nt)"

lemma updated_ms_stored: "time_ok nt \<Longrightarrow> updated_ms (stored_time nt) = updated_ms nt"
proof (cases "nt_Valid nt")
  case True
  moreover assume "time_ok nt"
  ultimately have "UnixMicro (nt_Time nt) = nt_Time nt div 1000"
    by (simp add: time_ok_def UnixMicro_def wrap64_id)
  moreover have "nt_Time nt div 1000 * 1000 div 1000000 = nt_Time nt div 1000000"
  proof -
    have "nt_Time nt div 1000 * 1000 div (1000 * 1000) = nt_Time nt div 1000 * 1000 div 1000 div 1000"
      by (rule zdiv_zmult2_eq) simp
    also have "\<dots> = nt_Time nt div (1000 * 1000)"
      by (simp add: zdiv_zmult2_eq)
    finally show ?thesis by simp
  qed
  ultimately show ?thesis using True by (simp add: updated_ms_def stored_time_def time_UnixMicro_def UnixMilli_def)
qed (simp add: updated_ms_def stored_time_def time_ok_def no_time_def)

text \<open>
  A configuration whose reads, writes and deletes are those of one JSON codec at the model's key
  keeps the contract.
\<close>

lemma contract_from_codec:
  assumes store: "badger_store B view"
    and get: "\<And>m db. ok m \<Longrightarrow> cc_GetCached config m db = getJSON B cd db (cc_GetKey config m)"
    and set: "\<And>m db. ok m \<Longrightarrow> cc_SetCache config m db = setJSON B cd (cc_GetKey config m) m db"
    and del: "\<And>m db. ok m \<Longrightarrow> cc_Delete config m db = delete B (cc_GetKey config m) db \<and> after_delete m = None \<or>
      cc_Delete config m db = deleteWithTTL B cd (cc_GetKey config m) m ttl db \<and> after_delete m = Some (kept m)"
    and ttl: "Second \<le> ttl"
    and enc: "\<And>m. ok m \<Longrightarrow> \<exists>j. cd_Marshal cd m = Inr j \<and> cd_Unmarshal cd j = Inr (kept m)"
    and upd: "\<And>m. ok m \<Longrightarrow> cc_GetUpdatedAt config (kept m) = cc_GetUpdatedAt config m"
    and ident: "\<And>m. ok m \<Longrightarrow> cc_GetID config (kept m) = cc_GetID config m"
  shows "consumer_contract config (typed_view view cd) ok kept after_delete"
proof -
  have tv: "typed_view view cd db' = (typed_view view cd db)(k \<mapsto> x)"
    if "view db' = (view db)(k \<mapsto> j)" and "cd_Unmarshal cd j = Inr x" for db db' k j x
    using that by (simp add: typed_view_def fun_eq_iff)
  have tv0: "typed_view view cd db' = (typed_view view cd db)(k := None)"
    if "view db' = (view db)(k := None)" for db db' k
    using that by (simp add: typed_view_def fun_eq_iff)
  have same: "typed_view view cd db' = typed_view view cd db" if "view db' = view db" for db db'
    using that by (simp add: typed_view_def fun_eq_iff)
  show ?thesis
  proof
    fix m db x assume m: "ok m" "typed_view view cd db (cc_GetKey config m) = Some x"
    then show "cc_GetCached config m db = SuccessResult x"
      by (auto simp: get typed_view_def badger_store.getJSON_present [OF store] split: option.splits sum.splits)
  next
    fix m db assume m: "ok m" "typed_view view cd db (cc_GetKey config m) = None"
    then show "\<not> Success (cc_GetCached config m db)"
      by (auto simp: get typed_view_def getJSON_def badger_store.get_view [OF store] split: option.splits sum.splits)
  next
    fix m db r db' assume m: "ok m" "cc_SetCache config m db = (r, db')"
    obtain j where j: "cd_Marshal cd m = Inr j" "cd_Unmarshal cd j = Inr (kept m)" using enc m(1) by blast
    have "setJSON B cd (cc_GetKey config m) m db = (r, db')" using m set by simp
    from badger_store.setJSON_cases [OF store j(1) this]
    show "(Success r \<and> typed_view view cd db' = (typed_view view cd db)(cc_GetKey config m \<mapsto> kept m)) \<or>
      (\<not> Success r \<and> typed_view view cd db' = typed_view view cd db)"
      using tv [OF _ j(2), of db' db "cc_GetKey config m"] same [of db' db] by blast
  next
    fix m db r db' assume m: "ok m" "cc_Delete config m db = (r, db')"
    obtain j where j: "cd_Marshal cd m = Inr j" "cd_Unmarshal cd j = Inr (kept m)" using enc m(1) by blast
    from del [OF m(1), of db]
    show "(Success r \<and> typed_view view cd db' = (typed_view view cd db)(cc_GetKey config m := after_delete m)) \<or>
      (\<not> Success r \<and> typed_view view cd db' = typed_view view cd db)"
    proof
      assume d: "cc_Delete config m db = delete B (cc_GetKey config m) db \<and> after_delete m = None"
      then have "delete B (cc_GetKey config m) db = (r, db')" using m(2) by simp
      from badger_store.delete_cases [OF store this] d show ?thesis
        using tv0 [of db' db "cc_GetKey config m"] same [of db' db] by fastforce
    next
      assume d: "cc_Delete config m db = deleteWithTTL B cd (cc_GetKey config m) m ttl db \<and> after_delete m = Some (kept m)"
      then have "deleteWithTTL B cd (cc_GetKey config m) m ttl db = (r, db')" using m(2) by simp
      from badger_store.deleteWithTTL_cases [OF store j(1) this ttl] d show ?thesis
        using tv [OF _ j(2), of db' db "cc_GetKey config m"] same [of db' db] by fastforce
    qed
  qed (use upd ident in simp_all)
qed

section \<open>Billable metrics\<close>

definition billable_metric_codec :: "billable_metric codec" where
  "billable_metric_codec = struct_codec billable_metric_fields zero_billable_metric"

definition buildBillableMetricKey :: "string \<Rightarrow> string \<Rightarrow> string" where
  "buildBillableMetricKey organizationID code = colon_key [''bm'', organizationID, code]"

definition SetBillableMetric :: "'db badger \<Rightarrow> billable_metric \<Rightarrow> 'db \<Rightarrow> bool result \<times> 'db" where
  "SetBillableMetric B bm db =
     (let key = buildBillableMetricKey (bm_OrganizationID bm) (bm_Code bm) in setJSON B billable_metric_codec key bm db)"

definition GetBillableMetric :: "'db badger \<Rightarrow> string \<Rightarrow> string \<Rightarrow> 'db \<Rightarrow> billable_metric result" where
  "GetBillableMetric B organizationID code db = getJSON B billable_metric_codec db (buildBillableMetricKey organizationID code)"

definition DeleteBillableMetric :: "'db badger \<Rightarrow> billable_metric \<Rightarrow> 'db \<Rightarrow> bool result \<times> 'db" where
  "DeleteBillableMetric B bm db =
     (let key = buildBillableMetricKey (bm_OrganizationID bm) (bm_Code bm) in delete B key db)"

definition LoadBillableMetricsSnapshot :: "'db badger \<Rightarrow> billable_metric list result \<Rightarrow> 'db \<Rightarrow> int result \<times> go_error list \<times> 'db" where
  "LoadBillableMetricsSnapshot B res db =
     LoadSnapshot B billable_metric_codec
       (case Error res of Some e \<Rightarrow> Inl e | None \<Rightarrow> Inr (get_or [] (Value res)))
       (\<lambda>bm. buildBillableMetricKey (bm_OrganizationID bm) (bm_Code bm)) db"

definition billable_metric_consumer :: "'db badger \<Rightarrow> string \<Rightarrow> (billable_metric, 'db) consumer_config" where
  "billable_metric_consumer B debeziumTopicPrefix =
     \<lparr>cc_Topic = debeziumTopicPrefix @ ''.public.billable_metrics'', cc_ModelName = ''billable_metrics'',
      cc_IsDeleted = (\<lambda>bm. nt_Valid (bm_DeletedAt bm)),
      cc_GetKey = (\<lambda>bm. buildBillableMetricKey (bm_OrganizationID bm) (bm_Code bm)),
      cc_GetID = bm_ID,
      cc_GetUpdatedAt = (\<lambda>bm. UnixMilli (nt_Time (bm_UpdatedAt bm))),
      cc_GetCached = (\<lambda>bm db. GetBillableMetric B (bm_OrganizationID bm) (bm_Code bm) db),
      cc_SetCache = SetBillableMetric B, cc_Delete = DeleteBillableMetric B\<rparr>"

definition billable_metric_ok :: "billable_metric \<Rightarrow> bool" where
  "billable_metric_ok m \<longleftrightarrow> time_ok (bm_UpdatedAt m) \<and> aggregation_type_ok m"

lemma billable_metric_codec_ok:
  "billable_metric_ok m \<Longrightarrow> \<exists>j. cd_Marshal billable_metric_codec m = Inr j \<and> cd_Unmarshal billable_metric_codec j = Inr (stored_billable_metric m)"
  by (simp add: billable_metric_codec_def struct_codec_def billable_metric_roundtrip billable_metric_ok_def)

lemma billable_metric_contract:
  assumes "badger_store B view"
  shows "consumer_contract (billable_metric_consumer B topicPrefix) (typed_view view billable_metric_codec) billable_metric_ok stored_billable_metric (\<lambda>_. None)"
  by (rule contract_from_codec [OF assms, where ttl = Second])
    ((rule billable_metric_codec_ok, assumption) |
     simp add: billable_metric_consumer_def GetBillableMetric_def SetBillableMetric_def DeleteBillableMetric_def stored_billable_metric_def billable_metric_ok_def
       updated_ms_stored [unfolded updated_ms_def])+

interpretation ref_billable_metric: consumer_contract "billable_metric_consumer ref_badger topicPrefix"
  "typed_view ref_view billable_metric_codec" billable_metric_ok stored_billable_metric "\<lambda>_. None"
  for topicPrefix
  by (rule billable_metric_contract) (rule ref.badger_store_axioms)

section \<open>Charges\<close>

definition charge_codec :: "charge codec" where
  "charge_codec = struct_codec charge_fields zero_charge"

definition buildChargeKey :: "string \<Rightarrow> string \<Rightarrow> string \<Rightarrow> string \<Rightarrow> string" where
  "buildChargeKey organizationID planID billableMetricID ident = colon_key [''ch'', organizationID, planID, billableMetricID, ident]"

definition SetCharge :: "'db badger \<Rightarrow> charge \<Rightarrow> 'db \<Rightarrow> bool result \<times> 'db" where
  "SetCharge B ch db =
     (let key = buildChargeKey (ch_OrganizationID ch) (ch_PlanID ch) (ch_BillableMetricID ch) (ch_ID ch) in setJSON B charge_codec key ch db)"

definition GetCharge :: "'db badger \<Rightarrow> string \<Rightarrow> string \<Rightarrow> string \<Rightarrow> string \<Rightarrow> 'db \<Rightarrow> charge result" where
  "GetCharge B organizationID planID billableMetricID ident db = getJSON B charge_codec db (buildChargeKey organizationID planID billableMetricID ident)"

definition SearchCharge :: "'db badger \<Rightarrow> string \<Rightarrow> string \<Rightarrow> string \<Rightarrow> 'db \<Rightarrow> charge list result" where
  "SearchCharge B organizationID planID billableMetricID db = searchJSON B charge_codec db (colon_prefix [''ch'', organizationID, planID, billableMetricID])"

definition DeleteCharge :: "'db badger \<Rightarrow> charge \<Rightarrow> 'db \<Rightarrow> bool result \<times> 'db" where
  "DeleteCharge B ch db =
     (let key = buildChargeKey (ch_OrganizationID ch) (ch_PlanID ch) (ch_BillableMetricID ch) (ch_ID ch) in delete B key db)"

definition LoadChargesSnapshot :: "'db badger \<Rightarrow> charge list result \<Rightarrow> 'db \<Rightarrow> int result \<times> go_error list \<times> 'db" where
  "LoadChargesSnapshot B res db =
     LoadSnapshot B charge_codec
       (case Error res of Some e \<Rightarrow> Inl e | None \<Rightarrow> Inr (get_or [] (Value res)))
       (\<lambda>ch. buildChargeKey (ch_OrganizationID ch) (ch_PlanID ch) (ch_BillableMetricID ch) (ch_ID ch)) db"

definition charge_consumer :: "'db badger \<Rightarrow> string \<Rightarrow> (charge, 'db) consumer_config" where
  "charge_consumer B debeziumTopicPrefix =
     \<lparr>cc_Topic = debeziumTopicPrefix @ ''.public.charges'', cc_ModelName = ''charges'',
      cc_IsDeleted = (\<lambda>ch. nt_Valid (ch_DeletedAt ch)),
      cc_GetKey = (\<lambda>ch. buildChargeKey (ch_OrganizationID ch) (ch_PlanID ch) (ch_BillableMetricID ch) (ch_ID ch)),
      cc_GetID = ch_ID,
      cc_GetUpdatedAt = (\<lambda>ch. UnixMilli (nt_Time (ch_UpdatedAt ch))),
      cc_GetCached = (\<lambda>ch db. GetCharge B (ch_OrganizationID ch) (ch_PlanID ch) (ch_BillableMetricID ch) (ch_ID ch) db),
      cc_SetCache = SetCharge B, cc_Delete = DeleteCharge B\<rparr>"

definition charge_ok :: "charge \<Rightarrow> bool" where
  "charge_ok m \<longleftrightarrow> time_ok (ch_UpdatedAt m)"

lemma charge_codec_ok:
  "charge_ok m \<Longrightarrow> \<exists>j. cd_Marshal charge_codec m = Inr j \<and> cd_Unmarshal charge_codec j = Inr (stored_charge m)"
  by (simp add: charge_codec_def struct_codec_def charge_roundtrip charge_ok_def)

lemma charge_contract:
  assumes "badger_store B view"
  shows "consumer_contract (charge_consumer B topicPrefix) (typed_view view charge_codec) charge_ok stored_charge (\<lambda>_. None)"
  by (rule contract_from_codec [OF assms, where ttl = Second])
    ((rule charge_codec_ok, assumption) |
     simp add: charge_consumer_def GetCharge_def SetCharge_def DeleteCharge_def stored_charge_def charge_ok_def
       updated_ms_stored [unfolded updated_ms_def])+

interpretation ref_charge: consumer_contract "charge_consumer ref_badger topicPrefix"
  "typed_view ref_view charge_codec" charge_ok stored_charge "\<lambda>_. None"
  for topicPrefix
  by (rule charge_contract) (rule ref.badger_store_axioms)

section \<open>Billable metric filters\<close>

definition billable_metric_filter_codec :: "billable_metric_filter codec" where
  "billable_metric_filter_codec = struct_codec billable_metric_filter_fields zero_billable_metric_filter"

definition buildBillableMetricFilterKey :: "string \<Rightarrow> string \<Rightarrow> string \<Rightarrow> string" where
  "buildBillableMetricFilterKey organizationID billableMetricID ident = colon_key [''bmf'', organizationID, billableMetricID, ident]"

definition SetBillableMetricFilter :: "'db badger \<Rightarrow> billable_metric_filter \<Rightarrow> 'db \<Rightarrow> bool result \<times> 'db" where
  "SetBillableMetricFilter B bmf db =
     (let key = buildBillableMetricFilterKey (bmf_OrganizationID bmf) (bmf_BillableMetricID bmf) (bmf_ID bmf) in setJSON B billable_metric_filter_codec key bmf db)"

definition GetBillableMetricFilter :: "'db badger \<Rightarrow> string \<Rightarrow> string \<Rightarrow> string \<Rightarrow> 'db \<Rightarrow> billable_metric_filter result" where
  "GetBillableMetricFilter B organizationID billableMetricID ident db = getJSON B billable_metric_filter_codec db (buildBillableMetricFilterKey organizationID billableMetricID ident)"

definition SearchBillableMetricFilters :: "'db badger \<Rightarrow> string \<Rightarrow> string \<Rightarrow> 'db \<Rightarrow> billable_metric_filter list result" where
  "SearchBillableMetricFilters B organizationID billableMetricID db = searchJSON B billable_metric_filter_codec db (colon_prefix [''bmf'', organizationID, billableMetricID])"

definition DeleteBillableMetricFilter :: "'db badger \<Rightarrow> billable_metric_filter \<Rightarrow> 'db \<Rightarrow> bool result \<times> 'db" where
  "DeleteBillableMetricFilter B bmf db =
     (let key = buildBillableMetricFilterKey (bmf_OrganizationID bmf) (bmf_BillableMetricID bmf) (bmf_ID bmf) in delete B key db)"

definition LoadBillableMetricFiltersSnapshot :: "'db badger \<Rightarrow> billable_metric_filter list result \<Rightarrow> 'db \<Rightarrow> int result \<times> go_error list \<times> 'db" where
  "LoadBillableMetricFiltersSnapshot B res db =
     LoadSnapshot B billable_metric_filter_codec
       (case Error res of Some e \<Rightarrow> Inl e | None \<Rightarrow> Inr (get_or [] (Value res)))
       (\<lambda>bmf. buildBillableMetricFilterKey (bmf_OrganizationID bmf) (bmf_BillableMetricID bmf) (bmf_ID bmf)) db"

definition billable_metric_filter_consumer :: "'db badger \<Rightarrow> string \<Rightarrow> (billable_metric_filter, 'db) consumer_config" where
  "billable_metric_filter_consumer B debeziumTopicPrefix =
     \<lparr>cc_Topic = debeziumTopicPrefix @ ''.public.billable_metric_filters'', cc_ModelName = ''billable_metric_filters'',
      cc_IsDeleted = (\<lambda>bmf. nt_Valid (bmf_DeletedAt bmf)),
      cc_GetKey = (\<lambda>bmf. buildBillableMetricFilterKey (bmf_OrganizationID bmf) (bmf_BillableMetricID bmf) (bmf_ID bmf)),
      cc_GetID = bmf_ID,
      cc_GetUpdatedAt = (\<lambda>bmf. UnixMilli (nt_Time (bmf_UpdatedAt bmf))),
      cc_GetCached = (\<lambda>bmf db. GetBillableMetricFilter B (bmf_OrganizationID bmf) (bmf_BillableMetricID bmf) (bmf_ID bmf) db),
      cc_SetCache = SetBillableMetricFilter B, cc_Delete = DeleteBillableMetricFilter B\<rparr>"

definition billable_metric_filter_ok :: "billable_metric_filter \<Rightarrow> bool" where
  "billable_metric_filter_ok m \<longleftrightarrow> time_ok (bmf_UpdatedAt m)"

lemma billable_metric_filter_codec_ok:
  "billable_metric_filter_ok m \<Longrightarrow> \<exists>j. cd_Marshal billable_metric_filter_codec m = Inr j \<and> cd_Unmarshal billable_metric_filter_codec j = Inr (stored_billable_metric_filter m)"
  by (simp add: billable_metric_filter_codec_def struct_codec_def billable_metric_filter_roundtrip billable_metric_filter_ok_def)

lemma billable_metric_filter_contract:
  assumes "badger_store B view"
  shows "consumer_contract (billable_metric_filter_consumer B topicPrefix) (typed_view view billable_metric_filter_codec) billable_metric_filter_ok stored_billable_metric_filter (\<lambda>_. None)"
  by (rule contract_from_codec [OF assms, where ttl = Second])
    ((rule billable_metric_filter_codec_ok, assumption) |
     simp add: billable_metric_filter_consumer_def GetBillableMetricFilter_def SetBillableMetricFilter_def DeleteBillableMetricFilter_def stored_billable_metric_filter_def billable_metric_filter_ok_def
       updated_ms_stored [unfolded updated_ms_def])+

interpretation ref_billable_metric_filter: consumer_contract "billable_metric_filter_consumer ref_badger topicPrefix"
  "typed_view ref_view billable_metric_filter_codec" billable_metric_filter_ok stored_billable_metric_filter "\<lambda>_. None"
  for topicPrefix
  by (rule billable_metric_filter_contract) (rule ref.badger_store_axioms)

section \<open>Charge filters\<close>

definition charge_filter_codec :: "charge_filter codec" where
  "charge_filter_codec = struct_codec charge_filter_fields zero_charge_filter"

definition buildChargeFilterKey :: "string \<Rightarrow> string \<Rightarrow> string \<Rightarrow> string" where
  "buildChargeFilterKey organizationID chargeID ident = colon_key [''cf'', organizationID, chargeID, ident]"

definition SetChargeFilter :: "'db badger \<Rightarrow> charge_filter \<Rightarrow> 'db \<Rightarrow> bool result \<times> 'db" where
  "SetChargeFilter B cf db =
     (let key = buildChargeFilterKey (cf_OrganizationID cf) (cf_ChargeID cf) (cf_ID cf) in setJSON B charge_filter_codec key cf db)"

definition GetChargeFilter :: "'db badger \<Rightarrow> string \<Rightarrow> string \<Rightarrow> string \<Rightarrow> 'db \<Rightarrow> charge_filter result" where
  "GetChargeFilter B organizationID chargeID ident db = getJSON B charge_filter_codec db (buildChargeFilterKey organizationID chargeID ident)"

definition SearchChargeFilter :: "'db badger \<Rightarrow> string \<Rightarrow> string \<Rightarrow> 'db \<Rightarrow> charge_filter list result" where
  "SearchChargeFilter B organizationID chargeID db = searchJSON B charge_filter_codec db (colon_prefix [''cf'', organizationID, chargeID])"

definition DeleteChargeFilter :: "'db badger \<Rightarrow> charge_filter \<Rightarrow> 'db \<Rightarrow> bool result \<times> 'db" where
  "DeleteChargeFilter B cf db =
     (let key = buildChargeFilterKey (cf_OrganizationID cf) (cf_ChargeID cf) (cf_ID cf) in delete B key db)"

definition LoadChargeFiltersSnapshot :: "'db badger \<Rightarrow> charge_filter list result \<Rightarrow> 'db \<Rightarrow> int result \<times> go_error list \<times> 'db" where
  "LoadChargeFiltersSnapshot B res db =
     LoadSnapshot B charge_filter_codec
       (case Error res of Some e \<Rightarrow> Inl e | None \<Rightarrow> Inr (get_or [] (Value res)))
       (\<lambda>cf. buildChargeFilterKey (cf_OrganizationID cf) (cf_ChargeID cf) (cf_ID cf)) db"

definition charge_filter_consumer :: "'db badger \<Rightarrow> string \<Rightarrow> (charge_filter, 'db) consumer_config" where
  "charge_filter_consumer B debeziumTopicPrefix =
     \<lparr>cc_Topic = debeziumTopicPrefix @ ''.public.charge_filters'', cc_ModelName = ''charge_filters'',
      cc_IsDeleted = (\<lambda>cf. nt_Valid (cf_DeletedAt cf)),
      cc_GetKey = (\<lambda>cf. buildChargeFilterKey (cf_OrganizationID cf) (cf_ChargeID cf) (cf_ID cf)),
      cc_GetID = cf_ID,
      cc_GetUpdatedAt = (\<lambda>cf. UnixMilli (nt_Time (cf_UpdatedAt cf))),
      cc_GetCached = (\<lambda>cf db. GetChargeFilter B (cf_OrganizationID cf) (cf_ChargeID cf) (cf_ID cf) db),
      cc_SetCache = SetChargeFilter B, cc_Delete = DeleteChargeFilter B\<rparr>"

definition charge_filter_ok :: "charge_filter \<Rightarrow> bool" where
  "charge_filter_ok m \<longleftrightarrow> time_ok (cf_UpdatedAt m)"

lemma charge_filter_codec_ok:
  "charge_filter_ok m \<Longrightarrow> \<exists>j. cd_Marshal charge_filter_codec m = Inr j \<and> cd_Unmarshal charge_filter_codec j = Inr (stored_charge_filter m)"
  by (simp add: charge_filter_codec_def struct_codec_def charge_filter_roundtrip charge_filter_ok_def)

lemma charge_filter_contract:
  assumes "badger_store B view"
  shows "consumer_contract (charge_filter_consumer B topicPrefix) (typed_view view charge_filter_codec) charge_filter_ok stored_charge_filter (\<lambda>_. None)"
  by (rule contract_from_codec [OF assms, where ttl = Second])
    ((rule charge_filter_codec_ok, assumption) |
     simp add: charge_filter_consumer_def GetChargeFilter_def SetChargeFilter_def DeleteChargeFilter_def stored_charge_filter_def charge_filter_ok_def
       updated_ms_stored [unfolded updated_ms_def])+

interpretation ref_charge_filter: consumer_contract "charge_filter_consumer ref_badger topicPrefix"
  "typed_view ref_view charge_filter_codec" charge_filter_ok stored_charge_filter "\<lambda>_. None"
  for topicPrefix
  by (rule charge_filter_contract) (rule ref.badger_store_axioms)

section \<open>Charge filter values\<close>

definition charge_filter_value_codec :: "charge_filter_value codec" where
  "charge_filter_value_codec = struct_codec charge_filter_value_fields zero_charge_filter_value"

definition buildChargeFilterValueKey :: "string \<Rightarrow> string \<Rightarrow> string \<Rightarrow> string \<Rightarrow> string" where
  "buildChargeFilterValueKey organizationID chargeFilterID billableMetricFilterID ident = colon_key [''cfv'', organizationID, chargeFilterID, billableMetricFilterID, ident]"

definition SetChargeFilterValue :: "'db badger \<Rightarrow> charge_filter_value \<Rightarrow> 'db \<Rightarrow> bool result \<times> 'db" where
  "SetChargeFilterValue B cfv db =
     (let key = buildChargeFilterValueKey (cfv_OrganizationID cfv) (cfv_ChargeFilterID cfv) (cfv_BillableMetricFilterID cfv) (cfv_ID cfv) in setJSON B charge_filter_value_codec key cfv db)"

definition GetChargeFilterValue :: "'db badger \<Rightarrow> string \<Rightarrow> string \<Rightarrow> string \<Rightarrow> string \<Rightarrow> 'db \<Rightarrow> charge_filter_value result" where
  "GetChargeFilterValue B organizationID chargeFilterID billableMetricFilterID ident db = getJSON B charge_filter_value_codec db (buildChargeFilterValueKey organizationID chargeFilterID billableMetricFilterID ident)"

definition SearchChargeFilterValue :: "'db badger \<Rightarrow> string \<Rightarrow> string \<Rightarrow> 'db \<Rightarrow> charge_filter_value list result" where
  "SearchChargeFilterValue B organizationID chargeFilterID db = searchJSON B charge_filter_value_codec db (colon_prefix [''cfv'', organizationID, chargeFilterID])"

definition DeleteChargeFilterValue :: "'db badger \<Rightarrow> charge_filter_value \<Rightarrow> 'db \<Rightarrow> bool result \<times> 'db" where
  "DeleteChargeFilterValue B cfv db =
     (let key = buildChargeFilterValueKey (cfv_OrganizationID cfv) (cfv_ChargeFilterID cfv) (cfv_BillableMetricFilterID cfv) (cfv_ID cfv) in delete B key db)"

definition LoadChargeFilterValuesSnapshot :: "'db badger \<Rightarrow> charge_filter_value list result \<Rightarrow> 'db \<Rightarrow> int result \<times> go_error list \<times> 'db" where
  "LoadChargeFilterValuesSnapshot B res db =
     LoadSnapshot B charge_filter_value_codec
       (case Error res of Some e \<Rightarrow> Inl e | None \<Rightarrow> Inr (get_or [] (Value res)))
       (\<lambda>cfv. buildChargeFilterValueKey (cfv_OrganizationID cfv) (cfv_ChargeFilterID cfv) (cfv_BillableMetricFilterID cfv) (cfv_ID cfv)) db"

definition charge_filter_value_consumer :: "'db badger \<Rightarrow> string \<Rightarrow> (charge_filter_value, 'db) consumer_config" where
  "charge_filter_value_consumer B debeziumTopicPrefix =
     \<lparr>cc_Topic = debeziumTopicPrefix @ ''.public.charge_filter_values'', cc_ModelName = ''charge_filter_values'',
      cc_IsDeleted = (\<lambda>cfv. nt_Valid (cfv_DeletedAt cfv)),
      cc_GetKey = (\<lambda>cfv. buildChargeFilterValueKey (cfv_OrganizationID cfv) (cfv_ChargeFilterID cfv) (cfv_BillableMetricFilterID cfv) (cfv_ID cfv)),
      cc_GetID = cfv_ID,
      cc_GetUpdatedAt = (\<lambda>cfv. UnixMilli (nt_Time (cfv_UpdatedAt cfv))),
      cc_GetCached = (\<lambda>cfv db. GetChargeFilterValue B (cfv_OrganizationID cfv) (cfv_ChargeFilterID cfv) (cfv_BillableMetricFilterID cfv) (cfv_ID cfv) db),
      cc_SetCache = SetChargeFilterValue B, cc_Delete = DeleteChargeFilterValue B\<rparr>"

definition charge_filter_value_ok :: "charge_filter_value \<Rightarrow> bool" where
  "charge_filter_value_ok m \<longleftrightarrow> time_ok (cfv_UpdatedAt m)"

lemma charge_filter_value_codec_ok:
  "charge_filter_value_ok m \<Longrightarrow> \<exists>j. cd_Marshal charge_filter_value_codec m = Inr j \<and> cd_Unmarshal charge_filter_value_codec j = Inr (stored_charge_filter_value m)"
  by (simp add: charge_filter_value_codec_def struct_codec_def charge_filter_value_roundtrip charge_filter_value_ok_def)

lemma charge_filter_value_contract:
  assumes "badger_store B view"
  shows "consumer_contract (charge_filter_value_consumer B topicPrefix) (typed_view view charge_filter_value_codec) charge_filter_value_ok stored_charge_filter_value (\<lambda>_. None)"
  by (rule contract_from_codec [OF assms, where ttl = Second])
    ((rule charge_filter_value_codec_ok, assumption) |
     simp add: charge_filter_value_consumer_def GetChargeFilterValue_def SetChargeFilterValue_def DeleteChargeFilterValue_def stored_charge_filter_value_def charge_filter_value_ok_def
       updated_ms_stored [unfolded updated_ms_def])+

interpretation ref_charge_filter_value: consumer_contract "charge_filter_value_consumer ref_badger topicPrefix"
  "typed_view ref_view charge_filter_value_codec" charge_filter_value_ok stored_charge_filter_value "\<lambda>_. None"
  for topicPrefix
  by (rule charge_filter_value_contract) (rule ref.badger_store_axioms)

section \<open>Subscriptions\<close>

definition subscription_codec :: "subscription codec" where
  "subscription_codec = struct_codec subscription_fields zero_subscription"

definition buildSubscriptionKey :: "string \<Rightarrow> string \<Rightarrow> string \<Rightarrow> string" where
  "buildSubscriptionKey organizationID externalID ident = colon_key [''sub'', organizationID, externalID, ident]"

definition nil_organization :: "subscription \<Rightarrow> go_error" where
  "nil_organization sub = ErrMsg (''subscription '' @ sub_ID sub @ '' has nil OrganizationID'')"

definition subscriptionKey :: "subscription \<Rightarrow> go_error + string" where
  "subscriptionKey sub =
     (case sub_OrganizationID sub of
        None \<Rightarrow> Inl (nil_organization sub)
      | Some org \<Rightarrow> Inr (buildSubscriptionKey org (sub_ExternalID sub) (sub_ID sub)))"

definition SetSubscription :: "'db badger \<Rightarrow> subscription \<Rightarrow> 'db \<Rightarrow> bool result \<times> 'db" where
  "SetSubscription B sub db =
     (case subscriptionKey sub of
        Inl err \<Rightarrow> (FailedBoolResult err, db)
      | Inr key \<Rightarrow> setJSON B subscription_codec key sub db)"

definition GetSubscription :: "'db badger \<Rightarrow> string \<Rightarrow> string \<Rightarrow> string \<Rightarrow> 'db \<Rightarrow> subscription result" where
  "GetSubscription B organizationID externalID ident db =
     getJSON B subscription_codec db (buildSubscriptionKey organizationID externalID ident)"

text \<open>Thirty days.\<close>

definition subscription_ttl :: int where
  "subscription_ttl = 30 * 24 * 3600 * Second"

definition DeleteSubscription :: "'db badger \<Rightarrow> subscription \<Rightarrow> 'db \<Rightarrow> bool result \<times> 'db" where
  "DeleteSubscription B sub db =
     (case subscriptionKey sub of
        Inl err \<Rightarrow> (FailedBoolResult err, db)
      | Inr key \<Rightarrow> deleteWithTTL B subscription_codec key sub subscription_ttl db)"

definition LoadSubscriptionsSnapshot :: "'db badger \<Rightarrow> subscription list result \<Rightarrow> 'db \<Rightarrow> int result \<times> go_error list \<times> 'db" where
  "LoadSubscriptionsSnapshot B res db =
     LoadSnapshot B subscription_codec
       (case Error res of Some e \<Rightarrow> Inl e | None \<Rightarrow> Inr (get_or [] (Value res)))
       (\<lambda>sub. case subscriptionKey sub of Inl _ \<Rightarrow> [] | Inr key \<Rightarrow> key) db"

definition subscription_consumer :: "'db badger \<Rightarrow> string \<Rightarrow> (subscription, 'db) consumer_config" where
  "subscription_consumer B debeziumTopicPrefix =
     \<lparr>cc_Topic = debeziumTopicPrefix @ ''.public.subscriptions'', cc_ModelName = ''subscriptions'',
      cc_IsDeleted = (\<lambda>sub. nt_Valid (sub_TerminatedAt sub)),
      cc_GetKey = (\<lambda>sub. case subscriptionKey sub of Inl _ \<Rightarrow> [] | Inr key \<Rightarrow> key),
      cc_GetID = sub_ID,
      cc_GetUpdatedAt = (\<lambda>sub. UnixMilli (nt_Time (sub_UpdatedAt sub))),
      cc_GetCached = (\<lambda>sub db.
        case sub_OrganizationID sub of
          None \<Rightarrow> FailedResult (nil_organization sub)
        | Some org \<Rightarrow> GetSubscription B org (sub_ExternalID sub) (sub_ID sub) db),
      cc_SetCache = SetSubscription B, cc_Delete = DeleteSubscription B\<rparr>"

definition subscription_ok :: "subscription \<Rightarrow> bool" where
  "subscription_ok m \<longleftrightarrow> sub_OrganizationID m \<noteq> None \<and> time_ok (sub_UpdatedAt m)"

lemma subscription_codec_ok:
  "subscription_ok m \<Longrightarrow> \<exists>j. cd_Marshal subscription_codec m = Inr j \<and>
     cd_Unmarshal subscription_codec j = Inr (stored_subscription m)"
  by (simp add: subscription_codec_def struct_codec_def subscription_roundtrip)

lemma subscription_contract:
  assumes "badger_store B view"
  shows "consumer_contract (subscription_consumer B topicPrefix) (typed_view view subscription_codec)
    subscription_ok stored_subscription (\<lambda>m. Some (stored_subscription m))"
  by (rule contract_from_codec [OF assms, where ttl = subscription_ttl])
    ((rule subscription_codec_ok, assumption) |
     (clarsimp simp: subscription_consumer_def GetSubscription_def SetSubscription_def
       DeleteSubscription_def subscriptionKey_def stored_subscription_def subscription_ok_def
       subscription_ttl_def Second_def updated_ms_stored [unfolded updated_ms_def]; fail))+

interpretation ref_subscription: consumer_contract "subscription_consumer ref_badger topicPrefix"
  "typed_view ref_view subscription_codec" subscription_ok stored_subscription
  "\<lambda>m. Some (stored_subscription m)"
  for topicPrefix
  by (rule subscription_contract) (rule ref.badger_store_axioms)

text \<open>A subscription without organization is reported and never cached.\<close>

lemma subscription_without_organization:
  assumes "sub_OrganizationID sub = None" and "\<not> nt_Valid (sub_TerminatedAt sub)"
  shows "apply_model (subscription_consumer B p) sub db = ([nil_organization sub], db)"
  using assms
  by (simp add: apply_model_def subscription_consumer_def SetSubscription_def subscriptionKey_def
    captured_def go_simps)

section \<open>Searching a model's entries\<close>

text \<open>
  The keys under a tag hold values of the tag's type at their own key, of colon-free parts; what
  the typed writes and the snapshots keep for UUIDs.
\<close>

definition coherent :: "('db \<Rightarrow> string \<Rightarrow> json option) \<Rightarrow> 't codec \<Rightarrow> string \<Rightarrow> ('t \<Rightarrow> string list) \<Rightarrow> 'db \<Rightarrow> bool" where
  "coherent view cd tag parts db \<longleftrightarrow>
     (\<forall>k j. prefix (colon_prefix [tag]) k \<longrightarrow> view db k = Some j \<longrightarrow>
       (\<exists>x. cd_Unmarshal cd j = Inr x \<and> k = colon_key (tag # parts x) \<and> parts x \<noteq> [] \<and>
         (\<forall>p \<in> set (parts x). CHR '':'' \<notin> set p)))"

text \<open>The rows of the typed map.\<close>

definition rows :: "('db \<Rightarrow> string \<Rightarrow> json option) \<Rightarrow> 't codec \<Rightarrow> string \<Rightarrow> ('t \<Rightarrow> string list) \<Rightarrow> 'db \<Rightarrow> 't set" where
  "rows view cd tag parts db = {x. typed_view view cd db (colon_key (tag # parts x)) = Some x}"

lemma search_rows:
  assumes store: "badger_store B view" and coh: "coherent view cd tag parts db"
    and clean: "\<And>p. p \<in> set (tag # ps) \<Longrightarrow> CHR '':'' \<notin> set p"
  shows "\<exists>xs. searchJSON B cd db (colon_prefix (tag # ps)) = SuccessResult xs \<and>
    set xs = {x \<in> rows view cd tag parts db. length ps < length (parts x) \<and> take (length ps) (parts x) = ps} \<and>
    distinct xs \<and> sorted (map (\<lambda>x. colon_key (tag # parts x)) xs)"
proof -
  let ?pre = "colon_prefix (tag # ps)"
  define f where "f k = the (typed_view view cd db k)" for k
  have sub: "prefix (colon_prefix [tag]) k" if "prefix ?pre k" for k
    using that by (auto simp: colon_prefix_def prefix_def)
  have ent: "\<exists>x. cd_Unmarshal cd j = Inr x \<and> f k = x \<and> k = colon_key (tag # parts x) \<and> parts x \<noteq> [] \<and>
      (\<forall>p \<in> set (parts x). CHR '':'' \<notin> set p)"
    if "prefix ?pre k" "view db k = Some j" for k j
    using coh sub [OF that(1)] that(2) by (fastforce simp: coherent_def f_def typed_view_def)
  have res: "searchJSON B cd db ?pre = SuccessResult (map f (badger_store.keys_with B ?pre db))"
    using ent by (intro badger_store.searchJSON_entries [OF store]) metis
  have home: "colon_key (tag # parts (f k)) = k" if "k \<in> set (badger_store.keys_with B ?pre db)" for k
    using that ent by (fastforce simp: badger_store.keys_with_set [OF store])
  have keys: "map (\<lambda>x. colon_key (tag # parts x)) (map f (badger_store.keys_with B ?pre db))
      = badger_store.keys_with B ?pre db"
    using home by (simp add: map_idI)
  have dist: "distinct (map f (badger_store.keys_with B ?pre db))"
    using badger_store.keys_with_distinct [OF store, of ?pre db] home
    by (auto simp: distinct_map inj_on_def) metis
  have "x \<in> set (map f (badger_store.keys_with B ?pre db)) \<longleftrightarrow>
      x \<in> rows view cd tag parts db \<and> length ps < length (parts x) \<and> take (length ps) (parts x) = ps" for x
  proof
    assume "x \<in> set (map f (badger_store.keys_with B ?pre db))"
    then obtain k j where k: "x = f k" "prefix ?pre k" "view db k = Some j"
      by (auto simp: badger_store.keys_with_set [OF store])
    have y: "cd_Unmarshal cd j = Inr x" "k = colon_key (tag # parts x)"
        "\<forall>p \<in> set (parts x). CHR '':'' \<notin> set p" using ent [OF k(2,3)] k(1) by auto
    have "typed_view view cd db k = Some x" using k(3) y(1) by (simp add: typed_view_def)
    moreover have "length (tag # ps) < length (tag # parts x) \<and> take (length (tag # ps)) (tag # parts x) = tag # ps"
      using colon_prefix_iff [of "tag # parts x" "tag # ps"] k(2) y clean by auto
    ultimately show "x \<in> rows view cd tag parts db \<and> length ps < length (parts x) \<and> take (length ps) (parts x) = ps"
      using y(2) by (simp add: rows_def)
  next
    assume x: "x \<in> rows view cd tag parts db \<and> length ps < length (parts x) \<and> take (length ps) (parts x) = ps"
    let ?k = "colon_key (tag # parts x)"
    obtain j where j: "view db ?k = Some j" "cd_Unmarshal cd j = Inr x"
      using x by (auto simp: rows_def typed_view_def split: option.splits sum.splits)
    have "parts x \<noteq> []" using x by auto
    then have "prefix (colon_prefix [tag]) ?k"
      using colon_key_prefix [of "parts x" "[tag]"] by simp
    then have "\<forall>p \<in> set (parts x). CHR '':'' \<notin> set p"
      using coh j by (fastforce simp: coherent_def)
    then have "prefix ?pre ?k" using colon_prefix_iff [of "tag # parts x" "tag # ps"] x clean by auto
    then have "?k \<in> set (badger_store.keys_with B ?pre db)"
      using j by (simp add: badger_store.keys_with_set [OF store])
    moreover have "f ?k = x" using x by (simp add: f_def rows_def)
    ultimately show "x \<in> set (map f (badger_store.keys_with B ?pre db))" by force
  qed
  then show ?thesis
    using res dist keys badger_store.keys_with_sorted [OF store, of ?pre db] by auto
qed

end
