(* ===== verification/Cache_Sync.thy ===== *)
theory Cache_Sync
  imports Cache_Models
begin

text \<open>
  The cache under its snapshot and its change streams: what one message does to the typed map of a
  model, where a run of messages ends, what a snapshot leaves, how long a terminated subscription
  stays, and which messages of the configured Debezium connector lose data on the way.
\<close>

section \<open>Reading a change message\<close>

text \<open>
  A connector writes a timestamp as a count of microseconds, or null; read into a fresh model, both
  give times within bounds.
\<close>

definition connector_time :: "json option \<Rightarrow> bool" where
  "connector_time j \<longleftrightarrow> (case j of None \<Rightarrow> True | Some JNull \<Rightarrow> True | Some (JNum _) \<Rightarrow> True | _ \<Rightarrow> False)"

lemma parse_int_bounds: "parse_int s = Some n \<Longrightarrow> MinInt64 \<le> n \<and> n \<le> MaxInt64"
  by (auto simp: parse_int_def Let_def split: if_splits)

lemma connector_time_ok:
  assumes "connector_time (Some j)" and "NullTime_UnmarshalJSON j no_time = Inr nt"
  shows "time_ok nt"
  using assms
  by (cases j) (auto simp: connector_time_def NullTime_UnmarshalJSON_def no_time_def time_ok_def
    time_UnixMicro_def dest: parse_int_bounds split: option.splits)

lemma set_field_Inr: "set_field w t f j v = Inr v' \<longleftrightarrow> jf_dec f j v = Inr v'"
  by (auto simp: set_field_def split: sum.splits)

lemma sum_bind_Inr: "sum_bind m f = Inr y \<longleftrightarrow> (\<exists>x. m = Inr x \<and> f x = Inr y)"
  by (cases m) auto

lemma map_sum_Inr: "map_sum id f m = Inr y \<longleftrightarrow> (\<exists>x. m = Inr x \<and> y = f x)"
  by (cases m) auto

definition plain_tag :: "string \<Rightarrow> bool" where
  "plain_tag t \<longleftrightarrow> t \<noteq> [] \<and> t \<noteq> ''-'' \<and> CHR '','' \<notin> set t \<and> CHR ''.'' \<notin> set t"

definition field_value :: "(string \<times> json) list \<Rightarrow> 't json_field \<Rightarrow> 't \<Rightarrow> go_error + 't" where
  "field_value raw f v = (case map_of raw (jf_tag f) of None \<Rightarrow> Inr v | Some j \<Rightarrow> set_field ''field '' (jf_tag f) f j v)"

lemma nested_field_plain_tag: "plain_tag (jf_tag f) \<Longrightarrow> nested_field raw f v = field_value raw f v"
  unfolding plain_tag_def field_value_def by (intro nested_field_plain) simp_all

lemma plain_tags [simp]:
  "plain_tag ''id''" "plain_tag ''organization_id''" "plain_tag ''plan_id''" "plain_tag ''billable_metric_id''"
  "plain_tag ''pay_in_advance''" "plain_tag ''accepts_target_wallet''" "plain_tag ''created_at''"
  "plain_tag ''updated_at''" "plain_tag ''deleted_at''"
  by (simp_all add: plain_tag_def)

definition pricing_tag :: string where "pricing_tag = ''properties.pricing_group_keys''"

lemma pricing_keys_field:
  assumes "jf_tag f = ''properties.pricing_group_keys''"
  shows "nested_field raw f v =
    (case Option.bind (map_of raw ''properties'') (\<lambda>parent. json_get parent ''pricing_group_keys'') of
       None \<Rightarrow> Inr v | Some j \<Rightarrow> set_field ''nested field '' (jf_tag f) f j v)"
  by (rule nested_field_dotted) (simp_all add: assms)

text \<open>Each field sets its own component: what the others leave, the whole leaves.\<close>

definition leaves :: "('t \<Rightarrow> 'c) \<Rightarrow> 't json_field \<Rightarrow> bool" where
  "leaves h f \<longleftrightarrow> (\<forall>j v v'. jf_dec f j v = Inr v' \<longrightarrow> h v' = h v)"

lemma leaves_fields:
  "(\<And>x v. h (u1 (\<lambda>_. x) v) = h v) \<Longrightarrow> leaves h (str_field tag g1 u1)"
  "(\<And>x v. h (u2 (\<lambda>_. x) v) = h v) \<Longrightarrow> leaves h (str_ptr_field tag g2 u2)"
  "(\<And>x v. h (u3 (\<lambda>_. x) v) = h v) \<Longrightarrow> leaves h (bool_field tag g3 u3)"
  "(\<And>x v. h (u4 (\<lambda>_. x) v) = h v) \<Longrightarrow> leaves h (int_field tag g4 u4)"
  "(\<And>x v. h (u5 (\<lambda>_. x) v) = h v) \<Longrightarrow> leaves h (strings_field tag g5 u5)"
  "(\<And>x v. h (u6 (\<lambda>_. x) v) = h v) \<Longrightarrow> leaves h (time_field tag g6 u6)"
  by (auto simp: leaves_def field_defs map_sum_Inr)

lemma nested_field_leaves: "leaves h f \<Longrightarrow> nested_field raw f v = Inr v' \<Longrightarrow> h v' = h v"
  by (auto simp: nested_field_def leaves_def set_field_Inr Let_def split: if_splits option.splits)

lemma nested_fields_leave: "list_all (leaves h) fs \<Longrightarrow> nested_fields raw fs v = Inr v' \<Longrightarrow> h v' = h v"
proof (induction fs arbitrary: v)
  case (Cons f fs)
  from Cons.prems(2) obtain w where "nested_field raw f v = Inr w" "nested_fields raw fs w = Inr v'"
    by (auto simp: sum_bind_Inr)
  then show ?case using Cons.IH Cons.prems(1) nested_field_leaves [of h f raw v w] by simp
qed simp

lemma nested_fields_append:
  "nested_fields raw (fs @ gs) v = sum_bind (nested_fields raw fs v) (nested_fields raw gs)"
proof (induction fs arbitrary: v)
  case (Cons f fs)
  then show ?case by (cases "nested_field raw f v") simp_all
qed simp

lemma nested_fields_one:
  assumes "nested_fields raw (fs @ f # gs) v = Inr m" and "list_all (leaves h) fs" and "list_all (leaves h) gs"
  shows "\<exists>v1 v2. nested_field raw f v1 = Inr v2 \<and> h v1 = h v \<and> h v2 = h m"
proof -
  obtain v1 v2 where "nested_fields raw fs v = Inr v1" "nested_field raw f v1 = Inr v2"
      "nested_fields raw gs v2 = Inr m"
    using assms(1) by (auto simp: nested_fields_append sum_bind_Inr)
  then show ?thesis using assms(2,3) nested_fields_leave by metis
qed

text \<open>The value of one component after reading a message.\<close>

lemma message_field:
  assumes "UnmarshalNestedJSON all_fields (Some msg) z = Inr m" and "all_fields = fs @ f # gs"
    and "list_all (leaves h) fs" and "list_all (leaves h) gs"
  shows "\<exists>raw v1 v2. (\<forall>k. json_get msg k = map_of raw k) \<and> nested_field raw f v1 = Inr v2 \<and>
    h v1 = h z \<and> h v2 = h m"
proof -
  obtain raw where raw: "raw_object msg = Some raw" "nested_fields raw (fs @ f # gs) z = Inr m"
    using assms(1,2) by (auto simp: UnmarshalNestedJSON_def split: option.splits)
  obtain v1 v2 where "nested_field raw f v1 = Inr v2" "h v1 = h z" "h v2 = h m"
    using nested_fields_one [OF raw(2) assms(3,4)] by (elim exE conjE)
  moreover have "\<forall>k. json_get msg k = map_of raw k" using map_of_raw_object [OF raw(1)] by simp
  ultimately show ?thesis by (intro exI conjI)
qed

text \<open>
  A charge message: the flags are false unless the message has them, the pricing group keys come
  from the nested properties and stay nil when these are not an object, and the times of a connector
  are within bounds.
\<close>

lemma charge_message_pay_in_advance:
  assumes "UnmarshalNestedJSON charge_fields (Some msg) zero_charge = Inr m"
    and "json_get msg ''pay_in_advance'' = None"
  shows "\<not> ch_PayInAdvance m"
proof -
  have split: "charge_fields = take 4 charge_fields @
      bool_field ''pay_in_advance'' ch_PayInAdvance ch_PayInAdvance_update # drop 5 charge_fields"
    by (simp add: charge_fields_def)
  have "list_all (leaves ch_PayInAdvance) (take 4 charge_fields)"
      "list_all (leaves ch_PayInAdvance) (drop 5 charge_fields)"
    by (simp_all add: charge_fields_def leaves_fields)
  from message_field [OF assms(1) split this] assms(2) show ?thesis
    by (auto simp: nested_field_plain_tag field_value_def zero_charge_def)
qed

lemma charge_message_target_wallet:
  assumes "UnmarshalNestedJSON charge_fields (Some msg) zero_charge = Inr m"
    and "json_get msg ''accepts_target_wallet'' = None"
  shows "\<not> ch_AcceptsTargetWallet m"
proof -
  have split: "charge_fields = take 5 charge_fields @
      bool_field ''accepts_target_wallet'' ch_AcceptsTargetWallet ch_AcceptsTargetWallet_update # drop 6 charge_fields"
    by (simp add: charge_fields_def)
  have "list_all (leaves ch_AcceptsTargetWallet) (take 5 charge_fields)"
      "list_all (leaves ch_AcceptsTargetWallet) (drop 6 charge_fields)"
    by (simp_all add: charge_fields_def leaves_fields)
  from message_field [OF assms(1) split this] assms(2) show ?thesis
    by (auto simp: nested_field_plain_tag field_value_def zero_charge_def)
qed

lemma charge_message_pricing_keys:
  assumes "UnmarshalNestedJSON charge_fields (Some msg) zero_charge = Inr m"
  shows "case Option.bind (json_get msg ''properties'') (\<lambda>p. json_get p ''pricing_group_keys'') of
      None \<Rightarrow> ch_PricingGroupKeys m = None
    | Some j \<Rightarrow> decode_strings j = Inr (ch_PricingGroupKeys m)"
proof -
  have split: "charge_fields = take 6 charge_fields @
      strings_field ''properties.pricing_group_keys'' ch_PricingGroupKeys ch_PricingGroupKeys_update # drop 7 charge_fields"
    by (simp add: charge_fields_def)
  have "list_all (leaves ch_PricingGroupKeys) (take 6 charge_fields)"
      "list_all (leaves ch_PricingGroupKeys) (drop 7 charge_fields)"
    by (simp_all add: charge_fields_def leaves_fields)
  from message_field [OF assms(1) split this] show ?thesis
    by (auto simp: pricing_keys_field set_field_Inr field_defs map_sum_Inr
      StringArray_UnmarshalJSON_def zero_charge_def split: option.splits)
qed

lemma charge_message_updated:
  assumes "UnmarshalNestedJSON charge_fields (Some msg) zero_charge = Inr m"
    and "connector_time (json_get msg ''updated_at'')"
  shows "charge_ok m"
proof -
  have split: "charge_fields = take 8 charge_fields @
      time_field ''updated_at'' ch_UpdatedAt ch_UpdatedAt_update # drop 9 charge_fields"
    by (simp add: charge_fields_def)
  have "list_all (leaves ch_UpdatedAt) (take 8 charge_fields)"
      "list_all (leaves ch_UpdatedAt) (drop 9 charge_fields)"
    by (simp_all add: charge_fields_def leaves_fields)
  from message_field [OF assms(1) split this] obtain raw and v1 v2 :: charge where
      raw: "\<forall>k. json_get msg k = map_of raw k"
      "nested_field raw (time_field ''updated_at'' ch_UpdatedAt ch_UpdatedAt_update) v1 = Inr v2"
      "ch_UpdatedAt v1 = ch_UpdatedAt zero_charge" "ch_UpdatedAt v2 = ch_UpdatedAt m"
    by (elim exE conjE) (rule that; assumption)
  then have z: "ch_UpdatedAt v1 = no_time" by (simp add: zero_charge_def)
  show ?thesis
  proof (cases "map_of raw ''updated_at''")
    case None
    with raw z have "ch_UpdatedAt m = no_time" by (simp add: nested_field_plain_tag field_value_def)
    then show ?thesis by (simp add: charge_ok_def time_ok_def no_time_def)
  next
    case (Some j)
    with raw z have "NullTime_UnmarshalJSON j no_time = Inr (ch_UpdatedAt m)"
      by (auto simp: nested_field_plain_tag field_value_def set_field_Inr field_defs map_sum_Inr)
    then show ?thesis using assms(2) raw(1) Some connector_time_ok by (simp add: charge_ok_def)
  qed
qed

section \<open>One change\<close>

text \<open>Rows and stores for the witnesses.\<close>

definition sample_charge :: "string \<Rightarrow> int \<Rightarrow> bool \<Rightarrow> charge" where
  "sample_charge ident us advance = zero_charge\<lparr>ch_ID := ident, ch_OrganizationID := ''org'', ch_PlanID := ''plan'',
     ch_BillableMetricID := ''bm'', ch_PayInAdvance := advance,
     ch_UpdatedAt := \<lparr>nt_Time = time_UnixMicro us, nt_Valid = True\<rparr>\<rparr>"

definition charge_key :: "charge \<Rightarrow> string" where
  "charge_key ch = buildChargeKey (ch_OrganizationID ch) (ch_PlanID ch) (ch_BillableMetricID ch) (ch_ID ch)"

lemma charge_consumer_simps [simp]:
  "cc_GetKey (charge_consumer B p) = charge_key"
  "cc_IsDeleted (charge_consumer B p) m = nt_Valid (ch_DeletedAt m)"
  "cc_GetUpdatedAt (charge_consumer B p) m = updated_ms (ch_UpdatedAt m)"
  "cc_GetID (charge_consumer B p) = ch_ID"
  by (simp_all add: charge_consumer_def charge_key_def fun_eq_iff updated_ms_def)

lemma sample_charge_ok [simp]: "MinInt64 \<le> us \<Longrightarrow> us \<le> MaxInt64 \<Longrightarrow> charge_ok (sample_charge i us a)"
  by (simp add: charge_ok_def sample_charge_def time_ok_def time_UnixMicro_def)

lemma sample_charge_key: "charge_key (sample_charge i us a) = ''ch:org:plan:bm:'' @ i"
  by (simp add: charge_key_def sample_charge_def buildChargeKey_def colon_key_def zero_charge_def)

lemma sample_charge_live [simp]: "\<not> nt_Valid (ch_DeletedAt (sample_charge i us a))"
  by (simp add: sample_charge_def zero_charge_def no_time_def)

lemma sample_charge_updated [simp]: "updated_ms (ch_UpdatedAt (sample_charge i us a)) = wrap64 (us * 1000 div 1000000)"
  by (simp add: sample_charge_def updated_ms_def UnixMilli_def time_UnixMicro_def)

text \<open>
  C16: A change message for a charge does to the typed cache what the abstract change asks for: an
  unreadable message is reported and changes nothing, a row newer than the cached one replaces it,
  an older or equally old one does not, a deleted row goes if the cached row has its ID; when the
  store refuses the write the error is reported and nothing changes.
\<close>
theorem charge_message_effect:
  assumes "badger_store B view" and "connector_time (json_get msg ''updated_at'')"
    and "processRecord charge_fields zero_charge (charge_consumer B p) (Some msg) db = (errs, db')"
  shows "case UnmarshalNestedJSON charge_fields (Some msg) zero_charge of
      Inl e \<Rightarrow> errs = [e] \<and> db' = db
    | Inr m \<Rightarrow> typed_view view charge_codec db' =
        (if errs = []
         then change_effect (charge_consumer B p) stored_charge (\<lambda>_. None) m (typed_view view charge_codec db)
         else typed_view view charge_codec db)"
proof (cases "UnmarshalNestedJSON charge_fields (Some msg) zero_charge")
  case (Inl e)
  with assms(3) show ?thesis by (simp add: processRecord_def)
next
  case (Inr m)
  then have "charge_ok m" using charge_message_updated assms(2) by blast
  moreover have "apply_model (charge_consumer B p) m db = (errs, db')"
    using assms(3) Inr by (simp add: processRecord_def)
  ultimately show ?thesis
    using consumer_contract.apply_refines [OF charge_contract [OF assms(1)]] Inr by auto
qed

definition charge_message :: "string \<Rightarrow> string \<Rightarrow> (string \<times> json) list \<Rightarrow> json" where
  "charge_message ident us members = JObj ([(''id'', JStr ident), (''organization_id'', JStr ''org''),
     (''plan_id'', JStr ''plan''), (''billable_metric_id'', JStr ''bm''), (''updated_at'', JNum us)] @ members)"

lemma charge_message_effect_witness:
  "\<exists>errs db'. processRecord charge_fields zero_charge (charge_consumer ref_badger ''lago'')
      (Some (charge_message ''c1'' ''5000000'' [])) (ref_empty 0) = (errs, db') \<and>
    (case UnmarshalNestedJSON charge_fields (Some (charge_message ''c1'' ''5000000'' [])) zero_charge of
      Inl e \<Rightarrow> errs = [e] \<and> db' = ref_empty 0
    | Inr m \<Rightarrow> typed_view ref_view charge_codec db' =
        (if errs = []
         then change_effect (charge_consumer ref_badger ''lago'') stored_charge (\<lambda>_. None) m
                (typed_view ref_view charge_codec (ref_empty 0))
         else typed_view ref_view charge_codec (ref_empty 0)))"
proof -
  obtain errs db' where run: "processRecord charge_fields zero_charge (charge_consumer ref_badger ''lago'')
      (Some (charge_message ''c1'' ''5000000'' [])) (ref_empty 0) = (errs, db')" by fastforce
  have "connector_time (json_get (charge_message ''c1'' ''5000000'' []) ''updated_at'')"
    by (simp add: charge_message_def connector_time_def)
  from charge_message_effect [OF ref.badger_store_axioms this run] run show ?thesis
    by (intro exI conjI)
qed

text \<open>
  C17: A run of updates of one charge, all accepted by the store, ends with the row of the latest
  \<open>updated_at\<close>, in whatever order the messages came; no other key changes.
\<close>
theorem charge_updates_last_wins:
  assumes "badger_store B view" and "ms \<noteq> []" and "typed_view view charge_codec db k = None"
    and "\<forall>m \<in> set ms. charge_ok m \<and> \<not> nt_Valid (ch_DeletedAt m) \<and> charge_key m = k"
    and "inj_on (\<lambda>m. updated_ms (ch_UpdatedAt m)) (set ms)"
    and "apply_all (charge_consumer B p) ms db = ([], db')"
  shows "\<exists>m \<in> set ms. (\<forall>n \<in> set ms. updated_ms (ch_UpdatedAt n) \<le> updated_ms (ch_UpdatedAt m)) \<and>
    typed_view view charge_codec db' = (typed_view view charge_codec db)(k \<mapsto> stored_charge m)"
  using consumer_contract.last_wins [OF charge_contract [OF assms(1)] assms(2) _ assms(3) _ assms(6)] assms(4,5)
  by (auto simp: inj_on_def)

lemma charge_updates_last_wins_witness:
  "\<exists>db'. apply_all (charge_consumer ref_badger ''lago'') [sample_charge ''c1'' 9000000 True, sample_charge ''c1'' 5000000 False]
      (ref_empty 0) = ([], db') \<and>
    typed_view ref_view charge_codec db' ''ch:org:plan:bm:c1'' = Some (stored_charge (sample_charge ''c1'' 9000000 True))"
proof -
  define ms where "ms = [sample_charge ''c1'' 9000000 True, sample_charge ''c1'' 5000000 False]"
  obtain errs db' where run: "apply_all (charge_consumer ref_badger ''lago'') ms (ref_empty 0) = (errs, db')" by fastforce
  have e: "fst (apply_all (charge_consumer ref_badger ''lago'') ms (ref_empty 0)) = []"
    unfolding ms_def by code_simp
  then have errs: "errs = []" using run by simp
  have ne: "ms \<noteq> []" by (simp add: ms_def)
  have up: "wrap64 9000 = 9000" "wrap64 5000 = 5000" by (simp_all add: wrap64_def)
  have ok: "\<forall>m \<in> set ms. charge_ok m \<and> \<not> nt_Valid (ch_DeletedAt m) \<and> charge_key m = ''ch:org:plan:bm:c1''"
    by (simp add: ms_def sample_charge_key MinInt64_def MaxInt64_def)
  have inj: "inj_on (\<lambda>m. updated_ms (ch_UpdatedAt m)) (set ms)"
    by (auto simp: ms_def up)
  have empty: "typed_view ref_view charge_codec (ref_empty 0) ''ch:org:plan:bm:c1'' = None"
    by (simp add: typed_view_def ref_view_def ref_empty_def)
  obtain m where m: "m \<in> set ms" "\<forall>n \<in> set ms. updated_ms (ch_UpdatedAt n) \<le> updated_ms (ch_UpdatedAt m)"
      "typed_view ref_view charge_codec db' = (typed_view ref_view charge_codec (ref_empty 0))(''ch:org:plan:bm:c1'' \<mapsto> stored_charge m)"
    using charge_updates_last_wins [OF ref.badger_store_axioms ne empty ok inj run [unfolded errs]] by blast
  have "m = sample_charge ''c1'' 9000000 True" using m(1,2) by (auto simp: ms_def up)
  with m(3) run errs show ?thesis by (auto simp: ms_def)
qed

text \<open>
  Replaying old messages of a metric, as a consumer group that starts over does, changes nothing
  once the cache holds a row at least as recent as all of them: not the store, and no error.
\<close>
lemma billable_metric_replay:
  assumes "badger_store B view" and "typed_view view billable_metric_codec db k = Some x"
    and "\<forall>m \<in> set ms. billable_metric_ok m \<and> \<not> nt_Valid (bm_DeletedAt m) \<and>
      buildBillableMetricKey (bm_OrganizationID m) (bm_Code m) = k \<and>
      updated_ms (bm_UpdatedAt m) \<le> updated_ms (bm_UpdatedAt x)"
  shows "apply_all (billable_metric_consumer B p) ms db = ([], db)"
proof -
  have "\<And>m. m \<in> set ms \<Longrightarrow> billable_metric_ok m \<and> \<not> cc_IsDeleted (billable_metric_consumer B p) m \<and>
      cc_GetKey (billable_metric_consumer B p) m = k \<and>
      cc_GetUpdatedAt (billable_metric_consumer B p) m \<le> cc_GetUpdatedAt (billable_metric_consumer B p) x"
    using assms(3) by (simp add: billable_metric_consumer_def updated_ms_def)
  then show ?thesis
    by (rule consumer_contract.apply_all_older [OF billable_metric_contract [OF assms(1)] assms(2)])
qed

definition sample_metric :: "string \<Rightarrow> string \<Rightarrow> int \<Rightarrow> billable_metric" where
  "sample_metric ident code us = zero_billable_metric\<lparr>bm_ID := ident, bm_OrganizationID := ''org'', bm_Code := code,
     bm_UpdatedAt := \<lparr>nt_Time = time_UnixMicro us, nt_Valid = True\<rparr>\<rparr>"

definition metric_key :: "billable_metric \<Rightarrow> string" where
  "metric_key bm = buildBillableMetricKey (bm_OrganizationID bm) (bm_Code bm)"

lemma metric_consumer_simps [simp]:
  "cc_GetKey (billable_metric_consumer B p) = metric_key"
  "cc_IsDeleted (billable_metric_consumer B p) m = nt_Valid (bm_DeletedAt m)"
  "cc_GetUpdatedAt (billable_metric_consumer B p) m = updated_ms (bm_UpdatedAt m)"
  "cc_GetID (billable_metric_consumer B p) = bm_ID"
  by (simp_all add: billable_metric_consumer_def metric_key_def fun_eq_iff updated_ms_def)

text \<open>A store that holds one metric under its key.\<close>

definition metric_store :: "billable_metric \<Rightarrow> ref_db" where
  "metric_store bm = snd (SetBillableMetric ref_badger bm (ref_empty 0))"

lemma metric_store_view:
  assumes "billable_metric_ok bm"
  shows "typed_view ref_view billable_metric_codec (metric_store bm) (metric_key bm) = Some (stored_billable_metric bm)"
proof -
  obtain r db where s: "SetBillableMetric ref_badger bm (ref_empty 0) = (r, db)" by fastforce
  then have "bg_Set ref_badger (metric_key bm) (marshal_struct billable_metric_fields bm) (ref_empty 0) = (None, db)"
    by (auto simp: SetBillableMetric_def setJSON_def billable_metric_codec_def struct_codec_def metric_key_def
      ref_badger_def ref_write_def buildBillableMetricKey_def colon_key_def split: prod.splits option.splits)
  then have "ref_view db (metric_key bm) = Some (marshal_struct billable_metric_fields bm)"
    using ref.set_ok by fastforce
  with s assms show ?thesis
    by (simp add: metric_store_def typed_view_def billable_metric_codec_def struct_codec_def
      billable_metric_roundtrip billable_metric_ok_def)
qed

lemma sample_metric_ok [simp]: "MinInt64 \<le> us \<Longrightarrow> us \<le> MaxInt64 \<Longrightarrow> billable_metric_ok (sample_metric i c us)"
  by (simp add: billable_metric_ok_def sample_metric_def time_ok_def time_UnixMicro_def aggregation_type_ok_def
    zero_billable_metric_def MinInt64_def MaxInt64_def)

lemma sample_metric_live [simp]: "\<not> nt_Valid (bm_DeletedAt (sample_metric i c us))"
  by (simp add: sample_metric_def zero_billable_metric_def no_time_def)

lemma sample_metric_key: "metric_key (sample_metric i c us) = ''bm:org:'' @ c"
  by (simp add: metric_key_def sample_metric_def buildBillableMetricKey_def colon_key_def zero_billable_metric_def)

lemma sample_metric_updated [simp]: "updated_ms (bm_UpdatedAt (sample_metric i c us)) = wrap64 (us * 1000 div 1000000)"
  by (simp add: sample_metric_def updated_ms_def UnixMilli_def time_UnixMicro_def)

lemma billable_metric_replay_witness:
  "apply_all (billable_metric_consumer ref_badger ''lago'')
     [sample_metric ''m1'' ''api'' 1000000, sample_metric ''m1'' ''api'' 3000000] (metric_store (sample_metric ''m1'' ''api'' 4000000))
   = ([], metric_store (sample_metric ''m1'' ''api'' 4000000))"
proof -
  have ok: "billable_metric_ok (sample_metric ''m1'' ''api'' 4000000)" by (simp add: MinInt64_def MaxInt64_def)
  have up: "updated_ms (bm_UpdatedAt (stored_billable_metric (sample_metric ''m1'' ''api'' 4000000))) = 4000"
    using ok by (simp add: stored_billable_metric_def updated_ms_stored billable_metric_ok_def wrap64_def)
  show ?thesis
    using billable_metric_replay [OF ref.badger_store_axioms metric_store_view [OF ok], of
        "[sample_metric ''m1'' ''api'' 1000000, sample_metric ''m1'' ''api'' 3000000]" "''lago''"]
    unfolding metric_key_def [symmetric]
    by (simp add: up sample_metric_key wrap64_def MinInt64_def MaxInt64_def)
qed

text \<open>
  A metric whose code changed stays cached under its old code: no message with the new code
  touches the entry of the old one, so events with the old code keep finding the metric.
\<close>
theorem renamed_metric_keeps_old_code:
  assumes "badger_store B view" and "typed_view view billable_metric_codec db (metric_key old) = Some old"
    and "billable_metric_ok new" and "bm_ID new = bm_ID old" and "metric_key new \<noteq> metric_key old"
    and "apply_model (billable_metric_consumer B p) new db = (errs, db')"
  shows "GetBillableMetric B (bm_OrganizationID old) (bm_Code old) db' = SuccessResult old"
proof -
  have "metric_key old \<noteq> cc_GetKey (billable_metric_consumer B p) new" using assms(5) by simp
  then have tv: "typed_view view billable_metric_codec db' (metric_key old) = Some old"
    using consumer_contract.apply_frame [OF billable_metric_contract [OF assms(1)] assms(3,6)] assms(2) by simp
  then obtain j where "view db' (metric_key old) = Some j" "cd_Unmarshal billable_metric_codec j = Inr old"
    by (auto simp: typed_view_def split: option.splits sum.splits)
  then show ?thesis
    using badger_store.getJSON_present [OF assms(1)] by (simp add: GetBillableMetric_def metric_key_def)
qed

lemma renamed_metric_keeps_old_code_witness:
  "\<exists>errs db'. apply_model (billable_metric_consumer ref_badger ''lago'') (sample_metric ''m1'' ''api_v2'' 5000000)
      (metric_store (sample_metric ''m1'' ''api'' 4000000)) = (errs, db') \<and>
    GetBillableMetric ref_badger ''org'' ''api'' db' = SuccessResult (sample_metric ''m1'' ''api'' 4000000)"
proof -
  let ?old = "sample_metric ''m1'' ''api'' 4000000" and ?new = "sample_metric ''m1'' ''api_v2'' 5000000"
  obtain errs db' where run: "apply_model (billable_metric_consumer ref_badger ''lago'') ?new (metric_store ?old) = (errs, db')"
    by fastforce
  have ok: "billable_metric_ok ?old" "billable_metric_ok ?new" by (simp_all add: MinInt64_def MaxInt64_def)
  have st: "stored_billable_metric ?old = ?old"
    by (simp add: stored_billable_metric_def sample_metric_def stored_time_def UnixMicro_def time_UnixMicro_def
      zero_billable_metric_def no_time_def wrap64_def)
  have "GetBillableMetric ref_badger (bm_OrganizationID ?old) (bm_Code ?old) db' = SuccessResult ?old"
    using renamed_metric_keeps_old_code [OF ref.badger_store_axioms metric_store_view [OF ok(1), unfolded st] ok(2) _ _ run]
    by (simp add: sample_metric_key) (simp add: sample_metric_def)
  moreover have "bm_OrganizationID ?old = ''org''" "bm_Code ?old = ''api''" by (simp_all add: sample_metric_def)
  ultimately show ?thesis using run by auto
qed

section \<open>What the connector's messages leave out\<close>

text \<open>
  The connector of extra/debezium_config.json sends neither \<open>pay_in_advance\<close> nor
  \<open>accepts_target_wallet\<close> for a charge, and a JSONB column as a string.
\<close>

text \<open>
  C40: A message without these members and with such properties, newer than the cached charge, resets both flags and drops the pricing group
  keys of the cached charge, without an error.
\<close>
theorem charge_message_resets_fields:
  assumes "badger_store B view"
    and "UnmarshalNestedJSON charge_fields (Some msg) zero_charge = Inr m" and "\<not> nt_Valid (ch_DeletedAt m)"
    and "json_get msg ''pay_in_advance'' = None" and "json_get msg ''accepts_target_wallet'' = None"
    and "json_get msg ''properties'' = Some (JStr props)" and "connector_time (json_get msg ''updated_at'')"
    and "typed_view view charge_codec db (charge_key m) = Some old"
    and "updated_ms (ch_UpdatedAt old) < updated_ms (ch_UpdatedAt m)"
    and "processRecord charge_fields zero_charge (charge_consumer B p) (Some msg) db = ([], db')"
  shows "\<exists>c. typed_view view charge_codec db' (charge_key m) = Some c \<and> ch_ID c = ch_ID m \<and>
    \<not> ch_PayInAdvance c \<and> \<not> ch_AcceptsTargetWallet c \<and> ch_PricingGroupKeys c = None"
proof -
  have ok: "charge_ok m" using charge_message_updated assms(2,7) by blast
  have run: "apply_model (charge_consumer B p) m db = ([], db')"
    using assms(2,10) by (simp add: processRecord_def)
  have "typed_view view charge_codec db' =
      change_effect (charge_consumer B p) stored_charge (\<lambda>_. None) m (typed_view view charge_codec db)"
    using consumer_contract.apply_refines [OF charge_contract [OF assms(1)] ok run] by simp
  then have "typed_view view charge_codec db' (charge_key m) = Some (stored_charge m)"
    using assms(3,8,9) by (simp add: change_effect_def)
  moreover have "ch_PricingGroupKeys m = None" using charge_message_pricing_keys [OF assms(2)] assms(6) by simp
  moreover note charge_message_pay_in_advance [OF assms(2,4)] charge_message_target_wallet [OF assms(2,5)]
  ultimately show ?thesis by (simp add: stored_charge_def)
qed

definition charge_store :: "charge \<Rightarrow> ref_db" where
  "charge_store ch = snd (SetCharge ref_badger ch (ref_empty 0))"

lemma charge_message_resets_fields_witness:
  "\<exists>db' c. processRecord charge_fields zero_charge (charge_consumer ref_badger ''lago'')
      (Some (charge_message ''c1'' ''9000000'' [(''properties'', JStr [])])) (charge_store (sample_charge ''c1'' 5000000 True)) = ([], db') \<and>
    typed_view ref_view charge_codec db' ''ch:org:plan:bm:c1'' = Some c \<and> ch_ID c = ''c1'' \<and>
    \<not> ch_PayInAdvance c \<and> \<not> ch_AcceptsTargetWallet c \<and> ch_PricingGroupKeys c = None"
proof -
  define msg where "msg = charge_message ''c1'' ''9000000'' [(''properties'', JStr [])]"
  define db where "db = charge_store (sample_charge ''c1'' 5000000 True)"
  define m where "m = sample_charge ''c1'' 9000000 False"
  obtain errs db' where run: "processRecord charge_fields zero_charge (charge_consumer ref_badger ''lago'') (Some msg) db = (errs, db')"
    by fastforce
  have "fst (processRecord charge_fields zero_charge (charge_consumer ref_badger ''lago'') (Some msg) db) = []"
    unfolding msg_def db_def by code_simp
  then have errs: "errs = []" using run by simp
  have um: "UnmarshalNestedJSON charge_fields (Some msg) zero_charge = Inr m"
    unfolding msg_def m_def by code_simp
  have old: "typed_view ref_view charge_codec db (charge_key m) = Some (sample_charge ''c1'' 5000000 True)"
    unfolding db_def m_def by code_simp
  have key: "charge_key m = ''ch:org:plan:bm:c1''" by (simp add: m_def sample_charge_key)
  have ident: "ch_ID m = ''c1''" by (simp add: m_def sample_charge_def)
  have "\<exists>c. typed_view ref_view charge_codec db' (charge_key m) = Some c \<and> ch_ID c = ch_ID m \<and>
      \<not> ch_PayInAdvance c \<and> \<not> ch_AcceptsTargetWallet c \<and> ch_PricingGroupKeys c = None"
    using run
    by (intro charge_message_resets_fields [OF ref.badger_store_axioms um _ _ _ _ _ old, where p = "''lago''" and props = "[]"])
      (simp_all add: errs m_def wrap64_def, simp_all add: msg_def charge_message_def connector_time_def)
  then show ?thesis using run unfolding key ident by (auto simp: errs msg_def [symmetric] db_def [symmetric])
qed

section \<open>Terminated subscriptions\<close>

text \<open>
  C26: A terminated subscription whose message is accepted stays readable, with its new dates, for
  thirty days less a second, and cannot be read from thirty days on.
\<close>
theorem terminated_subscription_lifetime:
  assumes "badger_clock B view later" and "sub_OrganizationID m = Some org"
    and "nt_Valid (sub_TerminatedAt m)"
    and "typed_view view subscription_codec db (buildSubscriptionKey org (sub_ExternalID m) (sub_ID m)) = Some old"
    and "sub_ID old = sub_ID m"
    and "apply_model (subscription_consumer B p) m db = ([], db')" and "0 \<le> n"
  shows "(n + Second \<le> subscription_ttl \<longrightarrow>
      GetSubscription B org (sub_ExternalID m) (sub_ID m) (later n db') = SuccessResult (stored_subscription m)) \<and>
    (subscription_ttl \<le> n \<longrightarrow> \<not> Success (GetSubscription B org (sub_ExternalID m) (sub_ID m) (later n db')))"
proof -
  have store: "badger_store B view" using assms(1) by (simp add: badger_clock_def)
  let ?k = "buildSubscriptionKey org (sub_ExternalID m) (sub_ID m)"
  have get: "GetSubscription B org (sub_ExternalID m) (sub_ID m) db = SuccessResult old"
    using assms(4) badger_store.getJSON_present [OF store]
    by (auto simp: GetSubscription_def typed_view_def split: option.splits sum.splits)
  obtain r db1 where del: "deleteWithTTL B subscription_codec ?k m subscription_ttl db = (r, db1)" by fastforce
  then have "Success r \<and> db1 = db'"
    using assms(2,3,5,6) get
    by (auto simp: apply_model_def subscription_consumer_def DeleteSubscription_def subscriptionKey_def split: if_splits)
  with del have del': "deleteWithTTL B subscription_codec ?k m subscription_ttl db = (r, db')" and "Success r" by simp_all
  have enc: "cd_Marshal subscription_codec m = Inr (marshal_struct subscription_fields m)"
      "cd_Unmarshal subscription_codec (marshal_struct subscription_fields m) = Inr (stored_subscription m)"
    by (simp_all add: subscription_codec_def struct_codec_def subscription_roundtrip)
  have "0 < subscription_ttl" by (simp add: subscription_ttl_def Second_def)
  from badger_clock.deleteWithTTL_expires [OF assms(1) enc del' \<open>Success r\<close> this] assms(7) show ?thesis
    by (simp add: GetSubscription_def)
qed

definition sample_subscription :: "string \<Rightarrow> int \<Rightarrow> null_time \<Rightarrow> subscription" where
  "sample_subscription ident us term = zero_subscription\<lparr>sub_ID := ident, sub_OrganizationID := Some ''org'',
     sub_ExternalID := ''ext'', sub_PlanID := ''plan'', sub_StartedAt := \<lparr>nt_Time = 0, nt_Valid = True\<rparr>,
     sub_UpdatedAt := \<lparr>nt_Time = time_UnixMicro us, nt_Valid = True\<rparr>, sub_TerminatedAt := term\<rparr>"

definition subscription_store :: "subscription \<Rightarrow> ref_db" where
  "subscription_store sub = snd (SetSubscription ref_badger sub (ref_empty 0))"

lemma terminated_subscription_lifetime_witness:
  "\<exists>db'. apply_model (subscription_consumer ref_badger ''lago'')
       (sample_subscription ''s1'' 9000000 \<lparr>nt_Time = 8000000000, nt_Valid = True\<rparr>)
       (subscription_store (sample_subscription ''s1'' 5000000 no_time)) = ([], db') \<and>
     Success (GetSubscription ref_badger ''org'' ''ext'' ''s1'' (ref_later 0 db')) \<and>
     \<not> Success (GetSubscription ref_badger ''org'' ''ext'' ''s1'' (ref_later subscription_ttl db'))"
proof -
  define m where "m = sample_subscription ''s1'' 9000000 \<lparr>nt_Time = 8000000000, nt_Valid = True\<rparr>"
  define db where "db = subscription_store (sample_subscription ''s1'' 5000000 no_time)"
  obtain errs db' where run: "apply_model (subscription_consumer ref_badger ''lago'') m db = (errs, db')" by fastforce
  have "fst (apply_model (subscription_consumer ref_badger ''lago'') m db) = []" unfolding m_def db_def by code_simp
  then have errs: "errs = []" using run by simp
  have ids: "sub_OrganizationID m = Some ''org''" "sub_ExternalID m = ''ext''" "sub_ID m = ''s1''"
      "nt_Valid (sub_TerminatedAt m)" by (simp_all add: m_def sample_subscription_def)
  have old: "typed_view ref_view subscription_codec db (buildSubscriptionKey ''org'' (sub_ExternalID m) (sub_ID m))
      = Some (sample_subscription ''s1'' 5000000 no_time)"
    unfolding db_def m_def by code_simp
  have same: "sub_ID (sample_subscription ''s1'' 5000000 no_time) = sub_ID m"
    by (simp add: m_def sample_subscription_def)
  have ttl: "0 + Second \<le> subscription_ttl" "0 \<le> subscription_ttl" by (simp_all add: subscription_ttl_def Second_def)
  note life = terminated_subscription_lifetime [OF ref.badger_clock_axioms ids(1,4) old same run [unfolded errs]]
  have "GetSubscription ref_badger ''org'' ''ext'' ''s1'' (ref_later 0 db') = SuccessResult (stored_subscription m)"
    using life [of 0] ttl(1) ids by simp
  moreover have "\<not> Success (GetSubscription ref_badger ''org'' ''ext'' ''s1'' (ref_later subscription_ttl db'))"
    using life [OF ttl(2)] ids by simp
  ultimately show ?thesis using run errs by (auto simp: m_def db_def)
qed

section \<open>Snapshots\<close>

lemma load_items_view:
  assumes store: "badger_store B view" and enc: "\<And>x. x \<in> set items \<Longrightarrow> cd_Marshal cd x = Inr (enc x)"
    and "load_items B cd keyFn items db = (count, [], db')"
  shows "view db' = (\<lambda>k. case map_of (rev (map (\<lambda>x. (keyFn x, enc x)) (filter (\<lambda>x. keyFn x \<noteq> []) items))) k of
      Some j \<Rightarrow> Some j | None \<Rightarrow> view db k) \<and> count = int (length (filter (\<lambda>x. keyFn x \<noteq> []) items))"
  using assms(2,3)
proof (induction items arbitrary: db count)
  case Nil
  then show ?case by (auto simp: fun_eq_iff)
next
  case (Cons x items)
  show ?case
  proof (cases "keyFn x = []")
    case True
    with Cons show ?thesis by simp
  next
    case False
    obtain r db1 where set: "setJSON B cd (keyFn x) x db = (r, db1)" by fastforce
    obtain count' errs' db2 where rest: "load_items B cd keyFn items db1 = (count', errs', db2)" by (metis prod_cases3)
    have ok: "Success r" and "errs' = []" "db2 = db'" "count = count' + 1"
      using Cons.prems(2) False set rest Failure_Error [of r] by (auto split: if_splits)
    then have "view db1 = (view db)(keyFn x \<mapsto> enc x)"
      using badger_store.setJSON_cases [OF store _ set] Cons.prems(1) by auto
    then show ?thesis
      using Cons.IH [of db1 count'] Cons.prems(1) rest False \<open>errs' = []\<close> \<open>db2 = db'\<close> \<open>count = count' + 1\<close>
      by (auto simp: fun_eq_iff map_add_def split: option.splits)
  qed
qed

text \<open>
  C24: A charge snapshot without store errors caches every fetched charge under its key, the last one
  where two share a key, leaves every other entry, and counts the rows; a failed fetch changes
  nothing.
\<close>
theorem charges_snapshot:
  assumes "badger_store B view"
    and "LoadChargesSnapshot B res db = (r, [], db')"
  shows "(\<not> Success res \<longrightarrow> \<not> Success r \<and> db' = db) \<and>
    (\<forall>cs. res = SuccessResult cs \<longrightarrow> r = SuccessResult (int (length cs)) \<and>
      (\<forall>us c vs. cs = us @ c # vs \<longrightarrow> (\<forall>d \<in> set vs. charge_key d \<noteq> charge_key c) \<longrightarrow>
         typed_view view charge_codec db' (charge_key c) = Some (stored_charge c)) \<and>
      (\<forall>k. k \<notin> charge_key ` set cs \<longrightarrow> view db' k = view db k))"
proof (intro conjI impI allI)
  assume "\<not> Success res"
  then obtain e where "Error res = Some e" using Failure_Error by blast
  with assms(2) show "\<not> Success r" and "db' = db"
    by (auto simp: LoadChargesSnapshot_def LoadSnapshot_def)
next
  fix cs assume res: "res = SuccessResult cs"
  let ?enc = "marshal_struct charge_fields"
  have key: "buildChargeKey (ch_OrganizationID c) (ch_PlanID c) (ch_BillableMetricID c) (ch_ID c) = charge_key c" for c
    by (simp add: charge_key_def)
  have ne: "charge_key c \<noteq> []" for c by (simp add: charge_key_def buildChargeKey_def colon_key_def)
  obtain count where load: "load_items B charge_codec charge_key cs db = (count, [], db')" "r = SuccessResult count"
    using assms(2) res by (auto simp: LoadChargesSnapshot_def LoadSnapshot_def key split: prod.splits)
  have enc: "cd_Marshal charge_codec c = Inr (?enc c)" for c by (simp add: charge_codec_def struct_codec_def)
  have view: "view db' = (\<lambda>k. case map_of (rev (map (\<lambda>x. (charge_key x, ?enc x)) cs)) k of
      Some j \<Rightarrow> Some j | None \<Rightarrow> view db k)" and count: "count = int (length cs)"
    using load_items_view [OF assms(1) enc load(1)] ne by simp_all
  show "r = SuccessResult (int (length cs))" using load(2) count by simp
  show "view db' k = view db k" if "k \<notin> charge_key ` set cs" for k
  proof -
    have "map_of (rev (map (\<lambda>x. (charge_key x, ?enc x)) cs)) k = None"
      using that by (auto simp: map_of_eq_None_iff)
    then show ?thesis by (simp add: view)
  qed
  fix us c vs assume cs: "cs = us @ c # vs" "\<forall>d \<in> set vs. charge_key d \<noteq> charge_key c"
  have "map_of (rev (map (\<lambda>x. (charge_key x, ?enc x)) vs)) (charge_key c) = None"
    using cs(2) by (auto simp: map_of_eq_None_iff)
  then have "view db' (charge_key c) = Some (?enc c)" by (simp add: view cs(1) map_add_def)
  then show "typed_view view charge_codec db' (charge_key c) = Some (stored_charge c)"
    by (simp add: typed_view_def charge_codec_def struct_codec_def charge_roundtrip)
qed

lemma charges_snapshot_witness:
  "\<exists>r db'. LoadChargesSnapshot ref_badger (SuccessResult [sample_charge ''c1'' 5000000 True, sample_charge ''c2'' 5000000 False])
      (ref_empty 0) = (r, [], db') \<and> r = SuccessResult 2 \<and>
    typed_view ref_view charge_codec db' ''ch:org:plan:bm:c1'' = Some (stored_charge (sample_charge ''c1'' 5000000 True))"
proof -
  define cs where "cs = [sample_charge ''c1'' 5000000 True, sample_charge ''c2'' 5000000 False]"
  obtain r errs db' where run: "LoadChargesSnapshot ref_badger (SuccessResult cs) (ref_empty 0) = (r, errs, db')"
    by (metis prod_cases3)
  have "fst (snd (LoadChargesSnapshot ref_badger (SuccessResult cs) (ref_empty 0))) = []"
    unfolding cs_def by code_simp
  then have errs: "errs = []" using run by simp
  have split: "cs = [] @ sample_charge ''c1'' 5000000 True # [sample_charge ''c2'' 5000000 False]" by (simp add: cs_def)
  have other: "\<forall>d \<in> set [sample_charge ''c2'' 5000000 False]. charge_key d \<noteq> charge_key (sample_charge ''c1'' 5000000 True)"
    by (simp add: sample_charge_key)
  have "r = SuccessResult (int (length cs)) \<and>
      typed_view ref_view charge_codec db' (charge_key (sample_charge ''c1'' 5000000 True)) =
        Some (stored_charge (sample_charge ''c1'' 5000000 True))"
    using charges_snapshot [OF ref.badger_store_axioms run [unfolded errs]] split other by blast
  then show ?thesis using run errs by (simp add: cs_def sample_charge_key)
qed

section \<open>Keys and searches\<close>



text \<open>The parts of a charge's key behind the tag.\<close>

definition charge_parts :: "charge \<Rightarrow> string list" where
  "charge_parts ch = [ch_OrganizationID ch, ch_PlanID ch, ch_BillableMetricID ch, ch_ID ch]"

text \<open>
  C22: \<open>SearchCharge\<close> returns every cached charge of the organization, plan and metric, each once, in
  the order of their keys, and nothing else.
\<close>
theorem SearchCharge_spec:
  assumes "badger_store B view" and "coherent view charge_codec ''ch'' charge_parts db"
    and "\<forall>p \<in> set [org, plan, bm]. CHR '':'' \<notin> set p"
  shows "\<exists>cs. SearchCharge B org plan bm db = SuccessResult cs \<and> distinct cs \<and> sorted (map charge_key cs) \<and>
    set cs = {c. typed_view view charge_codec db (charge_key c) = Some c \<and>
      ch_OrganizationID c = org \<and> ch_PlanID c = plan \<and> ch_BillableMetricID c = bm}"
proof -
  have clean: "CHR '':'' \<notin> set p" if "p \<in> set [''ch'', org, plan, bm]" for p
    using that assms(3) by auto
  have key: "colon_key (''ch'' # charge_parts c) = charge_key c" for c
    by (simp add: charge_parts_def charge_key_def buildChargeKey_def)
  have take: "length [org, plan, bm] < length (charge_parts c) \<and> take (length [org, plan, bm]) (charge_parts c) = [org, plan, bm] \<longleftrightarrow>
      ch_OrganizationID c = org \<and> ch_PlanID c = plan \<and> ch_BillableMetricID c = bm" for c
    by (simp add: charge_parts_def)
  show ?thesis
  proof -
    obtain cs where cs: "searchJSON B charge_codec db (colon_prefix (''ch'' # [org, plan, bm])) = SuccessResult cs"
        "set cs = {x \<in> rows view charge_codec ''ch'' charge_parts db. length [org, plan, bm] < length (charge_parts x) \<and>
          take (length [org, plan, bm]) (charge_parts x) = [org, plan, bm]}"
        "distinct cs" "sorted (map (\<lambda>x. colon_key (''ch'' # charge_parts x)) cs)"
      using search_rows [OF assms(1,2), of "[org, plan, bm]"] clean by auto
    have "set cs = {c. typed_view view charge_codec db (charge_key c) = Some c \<and>
        ch_OrganizationID c = org \<and> ch_PlanID c = plan \<and> ch_BillableMetricID c = bm}"
      unfolding cs(2) take rows_def key by simp
    moreover have "sorted (map charge_key cs)" using cs(4) unfolding key .
    ultimately show ?thesis using cs(1,3) by (auto simp: SearchCharge_def)
  qed
qed

text \<open>What the searches rely on holds of an empty store and is kept by the typed writes and deletes.\<close>

lemma coherent_empty: "view db = Map.empty \<Longrightarrow> coherent view cd tag parts db"
  by (simp add: coherent_def)

lemma coherent_write:
  assumes "coherent view cd tag parts db" and "view db' = (view db)(colon_key (tag # parts x) \<mapsto> j)"
    and "cd_Unmarshal cd j = Inr x" and "parts x \<noteq> []" and "\<forall>p \<in> set (parts x). CHR '':'' \<notin> set p"
  shows "coherent view cd tag parts db'"
  using assms by (simp add: coherent_def)

lemma coherent_delete:
  "coherent view cd tag parts db \<Longrightarrow> view db' = (view db)(k := None) \<Longrightarrow> coherent view cd tag parts db'"
  by (simp add: coherent_def)

lemma charge_store_coherent: "coherent ref_view charge_codec ''ch'' charge_parts (charge_store (sample_charge ''c1'' 5000000 True))"
proof (rule coherent_write [OF coherent_empty [of ref_view "ref_empty 0"]])
  let ?c = "sample_charge ''c1'' 5000000 True" and ?j = "marshal_struct charge_fields (sample_charge ''c1'' 5000000 True)"
  show "ref_view (ref_empty 0) = Map.empty" by (simp add: ref_view_def ref_empty_def fun_eq_iff)
  obtain r db where s: "SetCharge ref_badger ?c (ref_empty 0) = (r, db)" by fastforce
  have key: "charge_key ?c = colon_key (''ch'' # charge_parts ?c)"
    by (simp add: charge_key_def charge_parts_def buildChargeKey_def)
  have "bg_Set ref_badger (charge_key ?c) ?j (ref_empty 0) = (None, db)"
    using s by (auto simp: SetCharge_def setJSON_def charge_codec_def struct_codec_def charge_key_def
      ref_badger_def ref_write_def buildChargeKey_def colon_key_def split: prod.splits option.splits)
  then show "ref_view (charge_store ?c) = (ref_view (ref_empty 0))(colon_key (''ch'' # charge_parts ?c) \<mapsto> ?j)"
    using s ref.set_ok key by (simp add: charge_store_def)
  show "cd_Unmarshal charge_codec ?j = Inr ?c" by code_simp
  show "charge_parts ?c \<noteq> []" and "\<forall>p \<in> set (charge_parts ?c). CHR '':'' \<notin> set p"
    by (simp_all add: charge_parts_def sample_charge_def)
qed

lemma SearchCharge_spec_witness:
  "\<exists>cs. SearchCharge ref_badger ''org'' ''plan'' ''bm'' (charge_store (sample_charge ''c1'' 5000000 True)) = SuccessResult cs \<and>
     sample_charge ''c1'' 5000000 True \<in> set cs"
proof -
  let ?c = "sample_charge ''c1'' 5000000 True"
  have clean: "\<forall>p \<in> set [''org'', ''plan'', ''bm'']. CHR '':'' \<notin> set p" by simp
  have "typed_view ref_view charge_codec (charge_store ?c) (charge_key ?c) = Some ?c" by code_simp
  moreover have "ch_OrganizationID ?c = ''org''" "ch_PlanID ?c = ''plan''" "ch_BillableMetricID ?c = ''bm''"
    by (simp_all add: sample_charge_def)
  ultimately show ?thesis
    using SearchCharge_spec [OF ref.badger_store_axioms charge_store_coherent clean] by auto
qed

end
