(* ===== verification/Cache_Search.thy ===== *)
theory Cache_Search
  imports Cache_Sync
begin

text \<open>
  The lookups of the enrichment: cache/subscriptions.go \<open>SearchSubscriptions\<close> and
  cache/flat_filters.go \<open>BuildFlatFilters\<close>, beside the queries of the API store they replace
  (models/subscriptions.go, billable_metrics.go, flat_filters.go).

  The subscription search is shown to pick the row the query's ORDER BY puts first, and to agree
  with the query on the same rows; the flat filters are shown to be one per charge without filters
  and one per charge filter, with the values the filter tables give.
\<close>

section \<open>The subscription of an event\<close>

definition covers_instant :: "instant \<Rightarrow> subscription \<Rightarrow> bool" where
  "covers_instant timestamp sub \<longleftrightarrow>
     nt_Valid (sub_StartedAt sub) \<and> \<not> timestamp < nt_Time (sub_StartedAt sub) \<and>
     (\<not> nt_Valid (sub_TerminatedAt sub) \<or> timestamp < nt_Time (sub_TerminatedAt sub) \<or>
      nt_Time (sub_TerminatedAt sub) = timestamp)"

text \<open>One turn of the loop that picks the best match: nulls first, then the later dates.\<close>

definition better_match :: "subscription \<Rightarrow> subscription \<Rightarrow> subscription" where
  "better_match best sub =
     (let bt = sub_TerminatedAt best; st = sub_TerminatedAt sub in
      if \<not> nt_Valid bt \<and> nt_Valid st then best
      else if nt_Valid bt \<and> \<not> nt_Valid st then sub
      else if nt_Valid bt \<and> nt_Valid st \<and> nt_Time bt < nt_Time st then sub
      else if nt_Valid bt \<and> nt_Valid st \<and> nt_Time st < nt_Time bt then best
      else if nt_Valid (sub_StartedAt sub) \<and> nt_Valid (sub_StartedAt best) \<and>
              nt_Time (sub_StartedAt best) < nt_Time (sub_StartedAt sub) then sub
      else best)"

fun best_subscription :: "subscription option \<Rightarrow> subscription list \<Rightarrow> subscription option" where
  "best_subscription bestMatch [] = bestMatch"
| "best_subscription None (sub # subs) = best_subscription (Some sub) subs"
| "best_subscription (Some best) (sub # subs) = best_subscription (Some (better_match best sub)) subs"

definition SearchSubscriptions :: "'db badger \<Rightarrow> string \<Rightarrow> string \<Rightarrow> instant \<Rightarrow> 'db \<Rightarrow> subscription result" where
  "SearchSubscriptions B organizationID externalID timestamp db =
     (let result = searchJSON B subscription_codec db (colon_prefix [''sub'', organizationID, externalID]) in
      if Failure result then FailedResult_err (Error result)
      else let subscriptions = get_or [] (Value result);
               validSubs = filter (covers_instant timestamp) subscriptions
           in case best_subscription None validSubs of
                None \<Rightarrow> NonRetryable (NonCapturable (FailedResult ErrKeyNotFound))
              | Some bestMatch \<Rightarrow> SuccessResult bestMatch)"

text \<open>
  The order of the query, \<open>terminated_at DESC NULLS FIRST, started_at DESC\<close>, as a rank: lists
  compare lexicographically.
\<close>

definition sub_rank :: "subscription \<Rightarrow> int list" where
  "sub_rank sub =
     [if nt_Valid (sub_TerminatedAt sub) then 0 else 1,
      if nt_Valid (sub_TerminatedAt sub) then nt_Time (sub_TerminatedAt sub) else 0,
      nt_Time (sub_StartedAt sub)]"

lemma better_match_rank:
  assumes "nt_Valid (sub_StartedAt best)" and "nt_Valid (sub_StartedAt sub)"
  shows "better_match best sub = (if sub_rank best < sub_rank sub then sub else best)"
  using assms by (auto simp: better_match_def sub_rank_def Let_def)

lemma best_subscription_max:
  assumes "\<forall>s \<in> set (b # subs). nt_Valid (sub_StartedAt s)"
  shows "best_subscription (Some b) subs = Some (first_max sub_rank b subs)"
  using assms by (induction subs arbitrary: b) (auto simp: better_match_rank)

definition first_by_rank :: "subscription list \<Rightarrow> subscription option" where
  "first_by_rank subs = (case subs of [] \<Rightarrow> None | b # rest \<Rightarrow> Some (first_max sub_rank b rest))"

lemma best_subscription_ranked:
  "\<forall>s \<in> set subs. nt_Valid (sub_StartedAt s) \<Longrightarrow> best_subscription None subs = first_by_rank subs"
  by (cases subs) (simp_all add: first_by_rank_def best_subscription_max)

lemma first_by_rank_in: "first_by_rank subs = Some s \<Longrightarrow> s \<in> set subs \<and> (\<forall>x \<in> set subs. sub_rank x \<le> sub_rank s)"
proof (cases subs)
  case (Cons b rest)
  moreover assume "first_by_rank subs = Some s"
  ultimately have "s = first_max sub_rank b rest" by (simp add: first_by_rank_def)
  with Cons show ?thesis using first_max_in [of sub_rank b rest] first_max_ge [of _ b rest sub_rank] by simp
qed (simp add: first_by_rank_def)

lemma first_by_rank_set:
  assumes "set xs = set ys" and "inj_on sub_rank (set xs)"
  shows "first_by_rank xs = first_by_rank ys"
proof (cases xs)
  case (Cons b bs)
  with assms(1) obtain c cs where "ys = c # cs" by (cases ys) auto
  with Cons assms show ?thesis using first_max_unique [of b bs c cs sub_rank] by (simp add: first_by_rank_def)
qed (use assms in \<open>simp add: first_by_rank_def\<close>)

lemma SearchSubscriptions_found:
  assumes "searchJSON B subscription_codec db (colon_prefix [''sub'', org, ext]) = SuccessResult subs"
  shows "SearchSubscriptions B org ext t db =
    (case first_by_rank (filter (covers_instant t) subs) of
       None \<Rightarrow> NonRetryable (NonCapturable (FailedResult ErrKeyNotFound))
     | Some s \<Rightarrow> SuccessResult s)"
proof -
  have "\<forall>s \<in> set (filter (covers_instant t) subs). nt_Valid (sub_StartedAt s)"
    by (simp add: covers_instant_def)
  then show ?thesis using assms by (simp add: SearchSubscriptions_def best_subscription_ranked)
qed

section \<open>The queries of the API store\<close>

text \<open>
  The tables the queries read, or the error the connection returns. \<open>First\<close> orders by the primary
  key; rows that the ORDER BY leaves tied come in table order.
\<close>

record api_store =
  as_err :: "go_error option"
  as_billable_metrics :: "billable_metric list"
  as_subscriptions :: "subscription list"
  as_flat_filters :: "flat_filter list"

definition failedSubscriptionResult :: "go_error \<Rightarrow> 'a result" where
  "failedSubscriptionResult err =
     (let result = FailedResult err in
      if error_msg err = error_msg ErrRecordNotFound then NonRetryable (NonCapturable result) else result)"

definition failedBillableMetricResult :: "go_error \<Rightarrow> 'a result" where
  "failedBillableMetricResult err =
     (let result = FailedResult err in
      if error_msg err = error_msg ErrRecordNotFound then NonRetryable (NonCapturable result) else result)"

text \<open>The driver sends a timestamp in microseconds; \<open>date_trunc\<close> cuts the column to the millisecond.\<close>

definition Microsecond :: int where "Microsecond = 1000"

definition subscription_condition :: "string \<Rightarrow> string \<Rightarrow> instant \<Rightarrow> subscription \<Rightarrow> bool" where
  "subscription_condition organizationID externalID timestamp sub \<longleftrightarrow>
     sub_OrganizationID sub = Some organizationID \<and> sub_ExternalID sub = externalID \<and>
     nt_Valid (sub_StartedAt sub) \<and>
     Truncate Millisecond (nt_Time (sub_StartedAt sub)) \<le> Truncate Microsecond timestamp \<and>
     (\<not> nt_Valid (sub_TerminatedAt sub) \<or>
      Truncate Microsecond timestamp \<le> Truncate Millisecond (nt_Time (sub_TerminatedAt sub)))"

definition FetchSubscription :: "api_store \<Rightarrow> string \<Rightarrow> string \<Rightarrow> instant \<Rightarrow> subscription result" where
  "FetchSubscription store organizationID externalID timestamp =
     (case as_err store of
        Some e \<Rightarrow> failedSubscriptionResult e
      | None \<Rightarrow>
          (let sub = get_or zero_subscription (first_by_rank
                 (filter (subscription_condition organizationID externalID timestamp) (as_subscriptions store)))
           in if sub_ID sub = [] then failedSubscriptionResult ErrRecordNotFound else SuccessResult sub))"

fun smallest_id :: "billable_metric \<Rightarrow> billable_metric list \<Rightarrow> billable_metric" where
  "smallest_id b [] = b"
| "smallest_id b (m # ms) = (if bm_ID m < bm_ID b then smallest_id m ms else smallest_id b ms)"

definition FetchBillableMetric :: "api_store \<Rightarrow> string \<Rightarrow> string \<Rightarrow> billable_metric result" where
  "FetchBillableMetric store organizationID code =
     (case as_err store of
        Some e \<Rightarrow> failedBillableMetricResult e
      | None \<Rightarrow>
          (case filter (\<lambda>bm. bm_OrganizationID bm = organizationID \<and> bm_Code bm = code \<and>
                  \<not> nt_Valid (bm_DeletedAt bm)) (as_billable_metrics store) of
             [] \<Rightarrow> failedBillableMetricResult ErrRecordNotFound
           | b # bs \<Rightarrow> SuccessResult (smallest_id b bs)))"

definition FetchFlatFilters :: "api_store \<Rightarrow> string \<Rightarrow> string \<Rightarrow> string \<Rightarrow> flat_filter list result" where
  "FetchFlatFilters store organizationID planID billableMetricCode =
     (case as_err store of
        Some e \<Rightarrow> FailedResult e
      | None \<Rightarrow> SuccessResult (filter (\<lambda>ff. ff_OrganizationID ff = organizationID \<and> ff_PlanID ff = planID \<and>
          ff_BillableMetricCode ff = billableMetricCode) (as_flat_filters store)))"

text \<open>A missing row is neither retried nor reported; every other database error is both.\<close>

lemma FetchSubscription_missing:
  "as_err store = None \<Longrightarrow> filter (subscription_condition org ext t) (as_subscriptions store) = [] \<Longrightarrow>
   FetchSubscription store org ext t = NonRetryable (NonCapturable (FailedResult ErrRecordNotFound))"
  by (simp add: FetchSubscription_def first_by_rank_def zero_subscription_def failedSubscriptionResult_def)

lemma smallest_id_in: "smallest_id b ms \<in> set (b # ms)"
  by (induction ms arbitrary: b) auto

lemma FetchBillableMetric_found:
  assumes "FetchBillableMetric store org code = SuccessResult bm"
  shows "bm_OrganizationID bm = org \<and> bm_Code bm = code \<and> \<not> nt_Valid (bm_DeletedAt bm) \<and>
    bm \<in> set (as_billable_metrics store)"
proof -
  define found where "found = filter (\<lambda>bm. bm_OrganizationID bm = org \<and> bm_Code bm = code \<and>
    \<not> nt_Valid (bm_DeletedAt bm)) (as_billable_metrics store)"
  have failed: "failedBillableMetricResult e \<noteq> SuccessResult bm" for e
    by (simp add: failedBillableMetricResult_def go_simps Let_def)
  obtain b bs where "found = b # bs" and "smallest_id b bs = bm"
    using assms failed unfolding FetchBillableMetric_def found_def [symmetric]
    by (auto simp: go_simps split: option.splits list.splits)
  then have "bm \<in> set found" using smallest_id_in [of b bs] by auto
  then show ?thesis by (simp add: found_def)
qed

section \<open>The search against its specification and against the query\<close>

definition sub_parts :: "subscription \<Rightarrow> string list" where
  "sub_parts sub = [get_or [] (sub_OrganizationID sub), sub_ExternalID sub, sub_ID sub]"

definition sub_key :: "subscription \<Rightarrow> string" where
  "sub_key sub = colon_key (''sub'' # sub_parts sub)"

text \<open>The cached subscriptions of an organization's customer.\<close>

definition cached_subscriptions :: "('db \<Rightarrow> string \<Rightarrow> json option) \<Rightarrow> string \<Rightarrow> string \<Rightarrow> 'db \<Rightarrow> subscription set" where
  "cached_subscriptions view org ext db =
     {s. typed_view view subscription_codec db (sub_key s) = Some s \<and>
       get_or [] (sub_OrganizationID s) = org \<and> sub_ExternalID s = ext}"

lemma search_cached_subscriptions:
  assumes "badger_store B view" and "coherent view subscription_codec ''sub'' sub_parts db"
    and "\<forall>p \<in> set [org, ext]. CHR '':'' \<notin> set p"
  shows "\<exists>subs. searchJSON B subscription_codec db (colon_prefix [''sub'', org, ext]) = SuccessResult subs \<and>
    set subs = cached_subscriptions view org ext db"
proof -
  have clean: "CHR '':'' \<notin> set p" if "p \<in> set (''sub'' # [org, ext])" for p using that assms(3) by auto
  have take: "length [org, ext] < length (sub_parts s) \<and> take (length [org, ext]) (sub_parts s) = [org, ext] \<longleftrightarrow>
      get_or [] (sub_OrganizationID s) = org \<and> sub_ExternalID s = ext" for s
    by (simp add: sub_parts_def)
  show ?thesis
    using search_rows [OF assms(1,2), of "[org, ext]"] clean unfolding take rows_def
    by (auto simp: cached_subscriptions_def sub_key_def)
qed

text \<open>
  C18: Among the cached subscriptions of the customer that cover the instant, \<open>SearchSubscriptions\<close>
  returns one the query's order puts first: no other is unterminated where it is terminated, none
  ends later, none that ends alike starts later. When there is none it fails with a missing key,
  not to be retried or reported.
\<close>
theorem SearchSubscriptions_spec:
  assumes "badger_store B view" and "coherent view subscription_codec ''sub'' sub_parts db"
    and "\<forall>p \<in> set [org, ext]. CHR '':'' \<notin> set p"
  shows "if \<exists>s \<in> cached_subscriptions view org ext db. covers_instant t s
    then \<exists>s \<in> cached_subscriptions view org ext db. covers_instant t s \<and>
      SearchSubscriptions B org ext t db = SuccessResult s \<and>
      (\<forall>c \<in> cached_subscriptions view org ext db. covers_instant t c \<longrightarrow> sub_rank c \<le> sub_rank s)
    else SearchSubscriptions B org ext t db = NonRetryable (NonCapturable (FailedResult ErrKeyNotFound))"
proof -
  obtain subs where subs: "searchJSON B subscription_codec db (colon_prefix [''sub'', org, ext]) = SuccessResult subs"
      "set subs = cached_subscriptions view org ext db"
    using search_cached_subscriptions [OF assms] by blast
  note found = SearchSubscriptions_found [OF subs(1), of t]
  show ?thesis
  proof (cases "first_by_rank (filter (covers_instant t) subs)")
    case None
    then have "filter (covers_instant t) subs = []"
      by (cases "filter (covers_instant t) subs") (simp_all add: first_by_rank_def)
    then have "\<not> (\<exists>s \<in> cached_subscriptions view org ext db. covers_instant t s)"
      unfolding subs(2) [symmetric] by (simp add: filter_empty_conv)
    with found None show ?thesis by simp
  next
    case (Some s)
    from first_by_rank_in [OF this] have s: "s \<in> cached_subscriptions view org ext db" "covers_instant t s"
        "\<forall>c \<in> cached_subscriptions view org ext db. covers_instant t c \<longrightarrow> sub_rank c \<le> sub_rank s"
      by (auto simp: subs(2) [symmetric])
    with found Some show ?thesis by auto
  qed
qed

text \<open>Whole milliseconds, the precision of the events' instants.\<close>

definition whole_ms :: "null_time \<Rightarrow> bool" where
  "whole_ms nt \<longleftrightarrow> (nt_Valid nt \<longrightarrow> nt_Time nt mod Millisecond = 0)"

lemma whole_ms_condition:
  assumes "t mod Millisecond = 0" and "whole_ms (sub_StartedAt s)" and "whole_ms (sub_TerminatedAt s)"
  shows "subscription_condition org ext t s \<longleftrightarrow> sub_OrganizationID s = Some org \<and> sub_ExternalID s = ext \<and> covers_instant t s"
proof -
  have "t mod 1000 = 0"
  proof -
    have "t mod Millisecond mod 1000 = t mod 1000" by (simp add: Millisecond_def mod_mod_cancel)
    then show ?thesis using assms(1) by simp
  qed
  then have "Truncate Microsecond t = t" by (simp add: Truncate_def Microsecond_def)
  moreover have "nt_Valid nt \<and> whole_ms nt \<Longrightarrow> Truncate Millisecond (nt_Time nt) = nt_Time nt" for nt
    by (simp add: Truncate_def whole_ms_def)
  ultimately show ?thesis using assms(2,3) by (auto simp: subscription_condition_def covers_instant_def)
qed

text \<open>
  C19: On the same rows the cache search and the query of the API store find the same subscription,
  for events and rows in whole milliseconds, when no two rows of the customer agree on both dates.
\<close>
theorem SearchSubscriptions_agrees_with_query:
  assumes "badger_store B view" and "coherent view subscription_codec ''sub'' sub_parts db"
    and "\<forall>p \<in> set [org, ext]. CHR '':'' \<notin> set p"
    and "as_err store = None"
    and "{s \<in> set (as_subscriptions store). sub_OrganizationID s = Some org \<and> sub_ExternalID s = ext}
      = cached_subscriptions view org ext db"
    and "t mod Millisecond = 0"
    and "\<forall>s \<in> cached_subscriptions view org ext db. sub_ID s \<noteq> [] \<and> whole_ms (sub_StartedAt s) \<and> whole_ms (sub_TerminatedAt s)"
    and "inj_on sub_rank (cached_subscriptions view org ext db)"
  shows "SearchSubscriptions B org ext t db = SuccessResult s \<longleftrightarrow> FetchSubscription store org ext t = SuccessResult s"
proof -
  obtain subs where subs: "searchJSON B subscription_codec db (colon_prefix [''sub'', org, ext]) = SuccessResult subs"
      "set subs = cached_subscriptions view org ext db"
    using search_cached_subscriptions [OF assms(1-3)] by blast
  let ?xs = "filter (covers_instant t) subs"
    and ?ys = "filter (subscription_condition org ext t) (as_subscriptions store)"
  have "s \<in> set ?ys \<longleftrightarrow> s \<in> set ?xs" for s
  proof -
    have "s \<in> cached_subscriptions view org ext db \<longleftrightarrow>
        s \<in> set (as_subscriptions store) \<and> sub_OrganizationID s = Some org \<and> sub_ExternalID s = ext"
      using assms(5) by blast
    then show ?thesis using subs(2) assms(6,7) whole_ms_condition [of t s org ext]
      by (auto simp: subscription_condition_def)
  qed
  then have same: "set ?xs = set ?ys" by blast
  moreover have "inj_on sub_rank (set ?xs)" using assms(8) subs(2) by (auto intro: inj_on_subset)
  ultimately have eq: "first_by_rank ?xs = first_by_rank ?ys" by (rule first_by_rank_set)
  show ?thesis
  proof (cases "first_by_rank ?xs")
    case None
    with eq have "FetchSubscription store org ext t = failedSubscriptionResult ErrRecordNotFound"
      using assms(4) by (simp add: FetchSubscription_def zero_subscription_def)
    then have "FetchSubscription store org ext t \<noteq> SuccessResult s"
      by (simp add: failedSubscriptionResult_def go_simps)
    moreover have "SearchSubscriptions B org ext t db \<noteq> SuccessResult s"
      using SearchSubscriptions_found [OF subs(1), of t] None by (simp add: go_simps)
    ultimately show ?thesis by simp
  next
    case (Some u)
    then have "u \<in> cached_subscriptions view org ext db" using first_by_rank_in subs(2) by fastforce
    then have "sub_ID u \<noteq> []" using assms(7) by blast
    then show ?thesis
      using SearchSubscriptions_found [OF subs(1), of t] Some eq assms(4)
      by (simp add: FetchSubscription_def go_simps)
  qed
qed

section \<open>Concrete searches\<close>

text \<open>A subscription and stores holding some, for the witnesses and the two divergences below.\<close>

definition sub_at :: "string \<Rightarrow> string \<Rightarrow> int \<Rightarrow> null_time \<Rightarrow> subscription" where
  "sub_at ident ext started term = zero_subscription\<lparr>sub_ID := ident, sub_OrganizationID := Some ''org'',
     sub_ExternalID := ext, sub_PlanID := ''plan'', sub_StartedAt := \<lparr>nt_Time = started, nt_Valid = True\<rparr>,
     sub_TerminatedAt := term\<rparr>"

fun store_subs :: "subscription list \<Rightarrow> ref_db \<Rightarrow> ref_db" where
  "store_subs [] db = db"
| "store_subs (s # ss) db = store_subs ss (snd (SetSubscription ref_badger s db))"

lemma ref_set_view:
  assumes "k \<noteq> []" and "cd_Marshal cd x = Inr j"
  shows "ref_view (snd (setJSON ref_badger cd k x db)) = (ref_view db)(k \<mapsto> j)"
proof -
  obtain r db' where s: "setJSON ref_badger cd k x db = (r, db')" by fastforce
  with assms have "bg_Set ref_badger k j db = (None, db')"
    by (auto simp: setJSON_def ref_badger_def ref_write_def split: prod.splits option.splits)
  with s show ?thesis using ref.set_ok by simp
qed

lemma SetSubscription_ref_view:
  assumes "sub_OrganizationID s = Some org"
  shows "ref_view (snd (SetSubscription ref_badger s db)) = (ref_view db)(sub_key s \<mapsto> marshal_struct subscription_fields s)"
proof -
  have key: "subscriptionKey s = Inr (sub_key s)"
    using assms by (simp add: subscriptionKey_def sub_key_def sub_parts_def buildSubscriptionKey_def)
  have "sub_key s \<noteq> []" by (simp add: sub_key_def sub_parts_def colon_key_def)
  then show ?thesis
    by (simp add: SetSubscription_def key ref_set_view subscription_codec_def struct_codec_def)
qed

lemma store_subs_coherent:
  assumes "\<forall>s \<in> set ss. stored_subscription s = s \<and> sub_OrganizationID s \<noteq> None \<and> (\<forall>p \<in> set (sub_parts s). CHR '':'' \<notin> set p)"
    and "coherent ref_view subscription_codec ''sub'' sub_parts db"
  shows "coherent ref_view subscription_codec ''sub'' sub_parts (store_subs ss db)"
  using assms
proof (induction ss arbitrary: db)
  case (Cons s ss)
  obtain org where org: "sub_OrganizationID s = Some org" using Cons.prems(1) by auto
  have "coherent ref_view subscription_codec ''sub'' sub_parts (snd (SetSubscription ref_badger s db))"
  proof (rule coherent_write [OF Cons.prems(2)])
    show "ref_view (snd (SetSubscription ref_badger s db)) =
        (ref_view db)(colon_key (''sub'' # sub_parts s) \<mapsto> marshal_struct subscription_fields s)"
      using SetSubscription_ref_view [OF org] by (simp add: sub_key_def)
    show "cd_Unmarshal subscription_codec (marshal_struct subscription_fields s) = Inr s"
      using Cons.prems(1) by (simp add: subscription_codec_def struct_codec_def subscription_roundtrip)
  qed (use Cons.prems(1) in \<open>simp_all add: sub_parts_def\<close>)
  then show ?case using Cons by simp
qed simp

definition sample_subs :: "subscription list" where
  "sample_subs = [sub_at ''s1'' ''acme'' 1000000000 \<lparr>nt_Time = 9000000000, nt_Valid = True\<rparr>,
     sub_at ''s2'' ''acme'' 3000000000 no_time]"

definition sample_sub_db :: ref_db where
  "sample_sub_db = store_subs sample_subs (ref_empty 0)"

lemma sample_subs_stored: "\<forall>s \<in> set sample_subs. stored_subscription s = s"
  by (simp add: sample_subs_def sub_at_def stored_subscription_def stored_time_def UnixMicro_def wrap64_def
    time_UnixMicro_def no_time_def zero_subscription_def)

lemma sample_sub_coherent: "coherent ref_view subscription_codec ''sub'' sub_parts sample_sub_db"
  unfolding sample_sub_db_def
proof (rule store_subs_coherent)
  show "\<forall>s \<in> set sample_subs. stored_subscription s = s \<and> sub_OrganizationID s \<noteq> None \<and> (\<forall>p \<in> set (sub_parts s). CHR '':'' \<notin> set p)"
    using sample_subs_stored by (simp add: sample_subs_def sub_at_def sub_parts_def)
  show "coherent ref_view subscription_codec ''sub'' sub_parts (ref_empty 0)"
    by (rule coherent_empty) (simp add: ref_view_def ref_empty_def fun_eq_iff)
qed

lemma sub_at_org: "sub_OrganizationID (sub_at i e s t) = Some ''org''"
  by (simp add: sub_at_def)

lemma sample_sub_key: "sub_key (sub_at i e s t) = ''sub:org:'' @ e @ '':'' @ i"
  by (simp add: sub_key_def sub_parts_def sub_at_def colon_key_def)

lemma sample_cached: "cached_subscriptions ref_view ''org'' ''acme'' sample_sub_db = set sample_subs"
proof -
  have view: "ref_view sample_sub_db = ((ref_view (ref_empty 0))
      (''sub:org:acme:s1'' \<mapsto> marshal_struct subscription_fields (sample_subs ! 0)))
      (''sub:org:acme:s2'' \<mapsto> marshal_struct subscription_fields (sample_subs ! 1))"
    by (simp add: sample_sub_db_def sample_subs_def SetSubscription_ref_view [OF sub_at_org] sample_sub_key)
  have empty: "ref_view (ref_empty 0) k = None" for k by (simp add: ref_view_def ref_empty_def)
  have dec: "unmarshal_struct subscription_fields (marshal_struct subscription_fields (sample_subs ! i)) zero_subscription
      = Inr (sample_subs ! i)" if "i < 2" for i
  proof -
    have "sample_subs ! i \<in> set sample_subs" using that by (intro nth_mem) (simp add: sample_subs_def)
    then show ?thesis using sample_subs_stored by (simp add: subscription_roundtrip)
  qed
  have tv: "typed_view ref_view subscription_codec sample_sub_db k =
      (if k = ''sub:org:acme:s2'' then Some (sample_subs ! 1)
       else if k = ''sub:org:acme:s1'' then Some (sample_subs ! 0) else None)" for k
    using dec [of 0] dec [of 1] by (simp add: typed_view_def view empty subscription_codec_def struct_codec_def)
  have keys: "sub_key (sample_subs ! 0) = ''sub:org:acme:s1''" "sub_key (sample_subs ! 1) = ''sub:org:acme:s2''"
    by (simp_all add: sample_subs_def sample_sub_key)
  have ids: "get_or [] (sub_OrganizationID (sample_subs ! i)) = ''org'' \<and> sub_ExternalID (sample_subs ! i) = ''acme''" if "i < 2" for i
    using that by (auto simp: sample_subs_def sub_at_def less_2_cases_iff)
  have set: "set sample_subs = {sample_subs ! 0, sample_subs ! 1}" by (auto simp: sample_subs_def)
  show ?thesis
    unfolding cached_subscriptions_def tv set using keys ids [of 0] ids [of 1] by (auto split: if_splits)
qed

lemma sample_clean: "\<forall>p \<in> set [''org'', ''acme'']. CHR '':'' \<notin> set p"
  by simp

lemma SearchSubscriptions_spec_witness:
  "\<exists>s. SearchSubscriptions ref_badger ''org'' ''acme'' 5000000000 sample_sub_db = SuccessResult s \<and> sub_ID s = ''s2''"
proof -
  have cov: "covers_instant 5000000000 (sample_subs ! 1)"
    by (simp add: covers_instant_def sample_subs_def sub_at_def no_time_def)
  have in1: "sample_subs ! 1 \<in> set sample_subs" by (simp add: sample_subs_def)
  obtain s where s: "s \<in> set sample_subs"
      "SearchSubscriptions ref_badger ''org'' ''acme'' 5000000000 sample_sub_db = SuccessResult s"
      "\<forall>c \<in> set sample_subs. covers_instant 5000000000 c \<longrightarrow> sub_rank c \<le> sub_rank s"
    using SearchSubscriptions_spec [OF ref.badger_store_axioms sample_sub_coherent sample_clean, of 5000000000]
      cov in1 unfolding sample_cached by (auto split: if_splits)
  have "\<not> sub_rank (sample_subs ! 1) \<le> sub_rank (sample_subs ! 0)"
    by (simp add: sample_subs_def sub_at_def sub_rank_def no_time_def)
  moreover have "sub_rank (sample_subs ! 1) \<le> sub_rank s" using s(3) cov in1 by blast
  moreover have "s = sample_subs ! 0 \<or> s = sample_subs ! 1" using s(1) by (auto simp: sample_subs_def)
  ultimately have "s = sample_subs ! 1" by auto
  moreover have "sub_ID (sample_subs ! 1) = ''s2''" by (simp add: sample_subs_def sub_at_def)
  ultimately show ?thesis using s(2) by blast
qed

lemma SearchSubscriptions_agrees_with_query_witness:
  "SearchSubscriptions ref_badger ''org'' ''acme'' 5000000000 sample_sub_db = SuccessResult (sample_subs ! 1) \<longleftrightarrow>
   FetchSubscription \<lparr>as_err = None, as_billable_metrics = [], as_subscriptions = rev sample_subs, as_flat_filters = []\<rparr>
     ''org'' ''acme'' 5000000000 = SuccessResult (sample_subs ! 1)"
proof (rule SearchSubscriptions_agrees_with_query [OF ref.badger_store_axioms sample_sub_coherent sample_clean])
  show "inj_on sub_rank (cached_subscriptions ref_view ''org'' ''acme'' sample_sub_db)"
    unfolding sample_cached by (auto simp: sample_subs_def sub_at_def sub_rank_def no_time_def)
  show "\<forall>s \<in> cached_subscriptions ref_view ''org'' ''acme'' sample_sub_db.
      sub_ID s \<noteq> [] \<and> whole_ms (sub_StartedAt s) \<and> whole_ms (sub_TerminatedAt s)"
    unfolding sample_cached by (simp add: sample_subs_def sub_at_def whole_ms_def Millisecond_def no_time_def)
qed (auto simp: sample_cached, auto simp: sample_subs_def sub_at_def Millisecond_def)

text \<open>
  The search takes the instants as they are where the query cuts them to the millisecond: an
  event in the millisecond in which its subscription starts finds it by the query and not in the
  cache, as events carry whole milliseconds.
\<close>
lemma search_misses_first_millisecond:
  "Success (FetchSubscription \<lparr>as_err = None, as_billable_metrics = [],
       as_subscriptions = [sub_at ''s1'' ''acme'' 1000000500000 no_time], as_flat_filters = []\<rparr> ''org'' ''acme'' 1000000000000)
   \<and> \<not> Success (SearchSubscriptions ref_badger ''org'' ''acme'' 1000000000000
       (store_subs [sub_at ''s1'' ''acme'' 1000000500000 no_time] (ref_empty 0)))"
  by code_simp

text \<open>
  External identifiers are free text. The prefix of a search for customer \<open>acme\<close> is also one of
  the keys of customer \<open>acme:eu\<close>, whose subscription is returned.
\<close>
theorem search_finds_other_customer:
  "map_option sub_ExternalID (Value (SearchSubscriptions ref_badger ''org'' ''acme'' 5000000000
     (store_subs [sub_at ''s1'' ''acme:eu'' 1000000000 no_time] (ref_empty 0)))) = Some ''acme:eu''"
  by code_simp

end
