(* ===== verification/Flat_Filters.thy ===== *)
theory Flat_Filters
  imports Events "HOL-Library.Multiset"
begin

text \<open>
  models/flat_filters.go: which filter of a charge an event falls under.

  A flat filter pairs property names with accepted values. \<open>MatchingFilter\<close> is given the filters of
  one charge and picks, among those the event satisfies, one with the most property names; an
  event that satisfies none falls into the charge's default bucket.
\<close>

section \<open>Reading and writing the columns\<close>

text \<open>
  \<open>Scan\<close> takes SQL null, or text with the JSON document it spells (\<open>None\<close>: it spells none).
\<close>

definition scan_error :: "string \<Rightarrow> go_error" where
  "scan_error v = ErrMsg (''cannot scan '' @ v @ '' into FlatFilterValues'')"

fun decode_filter_values :: "json \<Rightarrow> go_error + flat_filter_values" where
  "decode_filter_values JNull = Inr None"
| "decode_filter_values (JObj kvs) =
     sum_bind (map_sum_list (\<lambda>(k, j). sum_bind (decode_strings j) (\<lambda>x. Inr (k, x))) kvs)
       (\<lambda>es. Inr (Some (fold (\<lambda>(k, x) m. AList.update k x m) es [])))"
| "decode_filter_values _ = Inl (json_error ''map[string][]string'')"

fun FlatFilterValues_Scan :: "sql_value \<Rightarrow> go_error + flat_filter_values" where
  "FlatFilterValues_Scan SqlNull = Inr None"
| "FlatFilterValues_Scan (SqlBytes v doc) =
     (case doc of None \<Rightarrow> Inl (ErrMsg ''invalid character'') | Some j \<Rightarrow> decode_filter_values j)"
| "FlatFilterValues_Scan (SqlString v doc) =
     (case doc of None \<Rightarrow> Inl (ErrMsg ''invalid character'') | Some j \<Rightarrow> decode_filter_values j)"
| "FlatFilterValues_Scan (SqlOther v) = Inl (scan_error v)"

definition FlatFilterValues_Value :: "flat_filter_values \<Rightarrow> json option" where
  "FlatFilterValues_Value fm =
     map_option (\<lambda>kvs. JObj (map (\<lambda>(k, vs). (k, encode_strings vs)) (sort_key fst kvs))) fm"

fun PricingGroupKeys_Scan :: "sql_value \<Rightarrow> go_error + string_slice" where
  "PricingGroupKeys_Scan SqlNull = Inr None"
| "PricingGroupKeys_Scan (SqlBytes v doc) =
     (case doc of None \<Rightarrow> Inl (ErrMsg ''invalid character'') | Some j \<Rightarrow> decode_strings j)"
| "PricingGroupKeys_Scan (SqlString v doc) =
     (case doc of None \<Rightarrow> Inl (ErrMsg ''invalid character'') | Some j \<Rightarrow> decode_strings j)"
| "PricingGroupKeys_Scan (SqlOther v) = Inl (scan_error v)"

definition PricingGroupKeys_Value :: "string_slice \<Rightarrow> json option" where
  "PricingGroupKeys_Value fm = (case fm of None \<Rightarrow> None | Some _ \<Rightarrow> Some (encode_strings fm))"

text \<open>What the column holds reads back as the same map, its entries in key order.\<close>

lemma fold_update_distinct:
  "distinct (map fst (m @ es)) \<Longrightarrow> fold (\<lambda>(k, x) m. AList.update k x m) es m = m @ es"
proof (induction es arbitrary: m)
  case (Cons e es)
  obtain k x where e: "e = (k, x)" by (cases e)
  have "k \<notin> fst ` set m" using Cons.prems e by auto
  then have "AList.update k x m = m @ [(k, x)]" by (induction m) auto
  with Cons e show ?case by simp
qed simp

lemma decode_filter_values_encoded:
  assumes "distinct (map fst es)"
  shows "decode_filter_values (JObj (map (\<lambda>(k, vs). (k, encode_strings vs)) es)) = Inr (Some es)"
proof -
  have "map_sum_list (\<lambda>(k, j). sum_bind (decode_strings j) (\<lambda>x. Inr (k, x)))
      (map (\<lambda>(k, vs). (k, encode_strings vs)) es) = Inr es"
    by (induction es) (auto simp: split_beta)
  then show ?thesis using assms fold_update_distinct [of "[]" es] by simp
qed

text \<open>
  C38: A filter map written to its JSONB column reads back as the same map, whatever the order of its
  entries; a nil map is written as SQL null, which reads back as nil.
\<close>
theorem FlatFilterValues_roundtrip:
  assumes "distinct (map fst kvs)"
  shows "FlatFilterValues_Value None = None \<and> FlatFilterValues_Scan SqlNull = Inr None \<and>
    (\<exists>es. FlatFilterValues_Scan (SqlBytes text (FlatFilterValues_Value (Some kvs))) = Inr (Some es) \<and>
      map_of es = map_of kvs)"
proof -
  have "mset (map fst (sort_key fst kvs)) = mset (map fst kvs)" by simp
  then have d: "distinct (map fst (sort_key fst kvs))" using assms by (metis mset_eq_imp_distinct_iff)
  then have "map_of (sort_key fst kvs) = map_of kvs"
    using assms by (intro map_of_inject_set [THEN iffD2]) simp_all
  then show ?thesis
    using decode_filter_values_encoded [OF d] by (auto simp: FlatFilterValues_Value_def)
qed

lemma FlatFilterValues_roundtrip_witness:
  "\<exists>es. FlatFilterValues_Scan (SqlBytes [] (FlatFilterValues_Value
      (Some [(''region'', Some [''eu'']), (''cloud'', None)]))) = Inr (Some es) \<and>
    map_of es = map_of [(''region'', Some [''eu'']), (''cloud'', None)]"
  using FlatFilterValues_roundtrip [of "[(''region'', Some [''eu'']), (''cloud'', None)]" "[]"] by simp

section \<open>Matching\<close>

fun Keys :: "flat_filter_values option \<Rightarrow> string list" where
  "Keys (Some (Some m)) = map fst m"
| "Keys _ = []"

definition HasFilters :: "flat_filter \<Rightarrow> bool" where
  "HasFilters ff \<longleftrightarrow> (case ff_Filters ff of Some (Some m) \<Rightarrow> m \<noteq> [] | _ \<Rightarrow> False)"

text \<open>\<open>slices.Contains\<close>.\<close>

definition contains :: "string_slice \<Rightarrow> string \<Rightarrow> bool" where
  "contains vs v \<longleftrightarrow> v \<in> set (get_or [] vs)"

text \<open>The loop over the filter's entries, left at the first property missing or not accepted.\<close>

fun entries_match :: "(string \<times> string_slice) list \<Rightarrow> properties \<Rightarrow> bool" where
  "entries_match [] p = True"
| "entries_match ((key, values) # rest) p =
     (if property p key = ANil then False
      else if \<not> contains values (sprintf_v (property p key)) then False
      else entries_match rest p)"

definition IsMatchingEvent :: "flat_filter \<Rightarrow> enriched_event \<Rightarrow> bool result" where
  "IsMatchingEvent ff event =
     (if \<not> HasFilters ff then SuccessResult True
      else SuccessResult (entries_match (get_or [] (get_or None (ff_Filters ff))) (ee_Properties event)))"

definition ToDefaultFilter :: "flat_filter \<Rightarrow> flat_filter" where
  "ToDefaultFilter ff =
     \<lparr>ff_OrganizationID = ff_OrganizationID ff, ff_BillableMetricCode = ff_BillableMetricCode ff,
      ff_PlanID = ff_PlanID ff, ff_ChargeID = ff_ChargeID ff, ff_ChargeUpdatedAt = ff_ChargeUpdatedAt ff,
      ff_ChargeFilterID = None, ff_ChargeFilterUpdatedAt = None, ff_Filters = None,
      ff_PricingGroupKeys = ff_PricingGroupKeys ff, ff_PayInAdvance = ff_PayInAdvance ff,
      ff_AcceptsTargetWallet = ff_AcceptsTargetWallet ff\<rparr>"

text \<open>The condition both branches test.\<close>

definition selects :: "enriched_event \<Rightarrow> flat_filter \<Rightarrow> bool" where
  "selects event ff \<longleftrightarrow> HasFilters ff \<and> get_or False (Value (IsMatchingEvent ff event))"

fun best_filter :: "flat_filter option \<Rightarrow> flat_filter list \<Rightarrow> flat_filter option" where
  "best_filter bestFilter [] = bestFilter"
| "best_filter None (ff # rest) = best_filter (Some ff) rest"
| "best_filter (Some best) (ff # rest) =
     (if length (Keys (ff_Filters best)) < length (Keys (ff_Filters ff))
      then best_filter (Some ff) rest else best_filter (Some best) rest)"

text \<open>An empty list panics (\<open>filters[0]\<close>).\<close>

definition MatchingFilter :: "flat_filter list \<Rightarrow> enriched_event \<Rightarrow> flat_filter go" where
  "MatchingFilter filters event =
     (if 1 < length filters
      then let matchingFilters = filter (selects event) filters
           in if matchingFilters = [] then Ret (ToDefaultFilter (hd filters))
              else (case best_filter None matchingFilters of
                      Some f \<Rightarrow> Ret f
                    | None \<Rightarrow> Panic ''invalid memory address or nil pointer dereference'')
      else case filters of
             [] \<Rightarrow> Panic ''index out of range''
           | ff # _ \<Rightarrow> if selects event ff then Ret ff else Ret (ToDefaultFilter ff))"

section \<open>What MatchingFilter selects\<close>

text \<open>A filter accepts an event: every property it names is present with an accepted value.\<close>

definition accepts :: "enriched_event \<Rightarrow> flat_filter \<Rightarrow> bool" where
  "accepts event ff \<longleftrightarrow>
     (\<exists>m. ff_Filters ff = Some (Some m) \<and> m \<noteq> [] \<and>
       (\<forall>(key, values) \<in> set m. property (ee_Properties event) key \<noteq> ANil \<and>
          contains values (sprintf_v (property (ee_Properties event) key))))"

definition key_count :: "flat_filter \<Rightarrow> nat" where
  "key_count ff = length (Keys (ff_Filters ff))"

lemma entries_match_iff:
  "entries_match m p \<longleftrightarrow> (\<forall>(key, values) \<in> set m. property p key \<noteq> ANil \<and>
     contains values (sprintf_v (property p key)))"
  by (induction m p rule: entries_match.induct) auto

lemma selects_iff_accepts: "selects event ff \<longleftrightarrow> accepts event ff"
  by (auto simp: selects_def accepts_def HasFilters_def IsMatchingEvent_def entries_match_iff
    split: option.splits)

lemma best_filter_Some:
  "\<exists>us f vs. b # fs = us @ f # vs \<and> best_filter (Some b) fs = Some f \<and>
     (\<forall>g \<in> set us. key_count g < key_count f) \<and> (\<forall>g \<in> set vs. key_count g \<le> key_count f)"
proof (induction fs arbitrary: b)
  case Nil
  show ?case by (intro exI [of _ "[]"]) simp
next
  case (Cons a fs)
  show ?case
  proof (cases "key_count b < key_count a")
    case True
    obtain us f vs where f: "a # fs = us @ f # vs" "best_filter (Some a) fs = Some f"
        "\<forall>g \<in> set us. key_count g < key_count f" "\<forall>g \<in> set vs. key_count g \<le> key_count f"
      using Cons.IH [of a] by (elim exE conjE)
    have "key_count a \<le> key_count f" using f(1,3) by (cases us) auto
    moreover have "best_filter (Some b) (a # fs) = Some f" using True f(2) by (simp add: key_count_def)
    moreover have "b # a # fs = (b # us) @ f # vs" using f(1) by simp
    ultimately show ?thesis
      using True f(3,4) by (intro exI conjI) (assumption | simp)+
  next
    case False
    obtain us f vs where f: "b # fs = us @ f # vs" "best_filter (Some b) fs = Some f"
        "\<forall>g \<in> set us. key_count g < key_count f" "\<forall>g \<in> set vs. key_count g \<le> key_count f"
      using Cons.IH [of b] by (elim exE conjE)
    have best: "best_filter (Some b) (a # fs) = Some f" using False f(2) by (simp add: key_count_def)
    show ?thesis
    proof (cases us)
      case Nil
      then have "f = b" "vs = fs" using f(1) by simp_all
      then show ?thesis
        using best f(4) False by (intro exI [of _ "[]"] exI [of _ b] exI [of _ "a # fs"]) simp
    next
      case (Cons u us')
      then have "b = u" "fs = us' @ f # vs" using f(1) by simp_all
      then show ?thesis
        using best f(3,4) False Cons
        by (intro exI [of _ "b # a # us'"] exI [of _ f] exI [of _ vs]) simp
    qed
  qed
qed

text \<open>The shape of a selection among filters.\<close>

definition best_match :: "enriched_event \<Rightarrow> flat_filter list \<Rightarrow> flat_filter \<Rightarrow> bool" where
  "best_match event filters f \<longleftrightarrow>
     (\<exists>us vs. filter (accepts event) filters = us @ f # vs \<and>
       (\<forall>g \<in> set us. key_count g < key_count f) \<and> (\<forall>g \<in> set vs. key_count g \<le> key_count f))"

lemma MatchingFilter_selects:
  assumes "filters \<noteq> []"
  shows "\<exists>f. MatchingFilter filters event = Ret f \<and>
    (if filter (accepts event) filters = [] then f = ToDefaultFilter (hd filters)
     else best_match event filters f)"
proof -
  have sel: "selects event = accepts event" by (rule ext) (rule selects_iff_accepts)
  show ?thesis
  proof (cases "1 < length filters")
    case True
    show ?thesis
    proof (cases "filter (accepts event) filters")
      case Nil
      with True show ?thesis by (simp add: MatchingFilter_def sel)
    next
      case (Cons b fs)
      obtain us f vs where f: "b # fs = us @ f # vs" "best_filter (Some b) fs = Some f"
          "\<forall>g \<in> set us. key_count g < key_count f" "\<forall>g \<in> set vs. key_count g \<le> key_count f"
        using best_filter_Some [of b fs] by (elim exE conjE)
      have "MatchingFilter filters event = Ret f"
        using True f(2) by (simp add: MatchingFilter_def sel Cons)
      with f Cons show ?thesis by (auto simp: best_match_def)
    qed
  next
    case False
    with assms obtain f where "filters = [f]" by (cases filters; cases "tl filters") auto
    then show ?thesis
      by (auto simp: MatchingFilter_def sel best_match_def intro!: exI [of _ "[]"])
  qed
qed

lemma best_match_in:
  "best_match event filters f \<Longrightarrow> f \<in> set filters \<and> accepts event f \<and>
     (\<forall>g \<in> set filters. accepts event g \<longrightarrow> key_count g \<le> key_count f)"
proof -
  assume "best_match event filters f"
  then obtain us vs where f: "filter (accepts event) filters = us @ f # vs"
      "\<forall>g \<in> set us. key_count g < key_count f" "\<forall>g \<in> set vs. key_count g \<le> key_count f"
    unfolding best_match_def by (elim exE conjE)
  have "\<forall>g \<in> set us. key_count g \<le> key_count f" using f(2) by (simp add: less_imp_le)
  moreover have "g \<in> set filters \<and> accepts event g \<longleftrightarrow> g \<in> set us \<or> g = f \<or> g \<in> set vs" for g
    using arg_cong [OF f(1), of set] by auto
  ultimately show ?thesis using f(3) by auto
qed

text \<open>
  C20: On the filters of a charge \<open>MatchingFilter\<close> never fails. If the event satisfies none of them it
  returns the default bucket of the first one; otherwise one of the filters the event satisfies,
  with the most property names among these, the first in the list of those with as many.
\<close>
theorem MatchingFilter_spec:
  assumes "filters \<noteq> []"
  shows "\<exists>f. MatchingFilter filters event = Ret f \<and>
    (if \<exists>g \<in> set filters. accepts event g
     then f \<in> set filters \<and> accepts event f \<and> best_match event filters f \<and>
          (\<forall>g \<in> set filters. accepts event g \<longrightarrow> key_count g \<le> key_count f)
     else f = ToDefaultFilter (hd filters))"
proof -
  have empty: "filter (accepts event) filters = [] \<longleftrightarrow> \<not> (\<exists>g \<in> set filters. accepts event g)"
    by (auto simp: filter_empty_conv)
  obtain f where f: "MatchingFilter filters event = Ret f"
      "if filter (accepts event) filters = [] then f = ToDefaultFilter (hd filters)
       else best_match event filters f"
    using MatchingFilter_selects [OF assms, of event] by (elim exE conjE)
  show ?thesis
  proof (cases "\<exists>g \<in> set filters. accepts event g")
    case True
    then have "best_match event filters f" using f(2) empty by simp
    with True f(1) best_match_in [OF this] show ?thesis by simp
  next
    case False
    with f empty show ?thesis by auto
  qed
qed

text \<open>
  C21: When the filters an event satisfies all differ in their number of property names, the choice
  does not depend on the order in which the filters are listed.
\<close>
theorem MatchingFilter_order:
  assumes "mset filters' = mset filters" and "g0 \<in> set filters" and "accepts event g0"
    and "inj_on key_count {g \<in> set filters. accepts event g}"
  shows "MatchingFilter filters' event = MatchingFilter filters event"
proof -
  have set: "set filters' = set filters" using assms(1) by (rule mset_eq_setD)
  have ne: "filters \<noteq> []" "filters' \<noteq> []" using assms(2) set by auto
  have some: "filter (accepts event) filters \<noteq> []" "filter (accepts event) filters' \<noteq> []"
    using assms(2,3) set by (auto simp: filter_empty_conv)
  obtain f where f: "MatchingFilter filters event = Ret f" "best_match event filters f"
    using MatchingFilter_selects [OF ne(1), of event] some by auto
  obtain f' where f': "MatchingFilter filters' event = Ret f'" "best_match event filters' f'"
    using MatchingFilter_selects [OF ne(2), of event] some by auto
  have "key_count f = key_count f'"
    using best_match_in [OF f(2)] best_match_in [OF f'(2)] set by (simp add: antisym)
  then have "f = f'"
    using assms(4) best_match_in [OF f(2)] best_match_in [OF f'(2)] set by (auto dest: inj_onD)
  with f f' show ?thesis by simp
qed

definition sample_filter :: "string \<Rightarrow> (string \<times> string_slice) list \<Rightarrow> flat_filter" where
  "sample_filter cf m = \<lparr>ff_OrganizationID = ''org'', ff_BillableMetricCode = ''api'', ff_PlanID = ''plan'',
     ff_ChargeID = ''charge'', ff_ChargeUpdatedAt = 0, ff_ChargeFilterID = Some cf,
     ff_ChargeFilterUpdatedAt = Some 0, ff_Filters = Some (Some m), ff_PricingGroupKeys = None,
     ff_PayInAdvance = False, ff_AcceptsTargetWallet = False\<rparr>"

definition sample_event :: "(string \<times> any) list \<Rightarrow> enriched_event" where
  "sample_event p = new_enriched_event (zero_event\<lparr>ev_Properties := Some p\<rparr>)"

lemma MatchingFilter_spec_witness:
  "\<exists>f. MatchingFilter [sample_filter ''cf1'' [(''region'', Some [''eu''])],
        sample_filter ''cf2'' [(''region'', Some [''eu'']), (''cloud'', Some [''aws''])]]
      (sample_event [(''region'', AStr ''eu''), (''cloud'', AStr ''aws'')]) = Ret f \<and>
    ff_ChargeFilterID f = Some ''cf2''"
proof -
  define fs where "fs = [sample_filter ''cf1'' [(''region'', Some [''eu''])],
        sample_filter ''cf2'' [(''region'', Some [''eu'']), (''cloud'', Some [''aws''])]]"
  define ev where "ev = sample_event [(''region'', AStr ''eu''), (''cloud'', AStr ''aws'')]"
  have acc: "accepts ev (fs ! 1)"
    by (simp add: accepts_def fs_def ev_def sample_filter_def sample_event_def new_enriched_event_def
      property_def contains_def)
  have count: "key_count (fs ! 0) = 1" "key_count (fs ! 1) = 2"
    by (simp_all add: key_count_def fs_def sample_filter_def)
  have ne: "fs \<noteq> []" and "fs ! 1 \<in> set fs" by (simp_all add: fs_def)
  then have some: "\<exists>g \<in> set fs. accepts ev g" using acc by blast
  obtain f where f: "MatchingFilter fs ev = Ret f" "f \<in> set fs"
      "\<forall>g \<in> set fs. accepts ev g \<longrightarrow> key_count g \<le> key_count f"
    using MatchingFilter_spec [OF ne, of ev] some by auto
  have "key_count (fs ! 1) \<le> key_count f" using f(3) acc \<open>fs ! 1 \<in> set fs\<close> by blast
  then have "f = fs ! 1" using f(2) count by (auto simp: fs_def)
  with f(1) show ?thesis unfolding fs_def ev_def by (simp add: sample_filter_def)
qed

lemma MatchingFilter_order_witness:
  "MatchingFilter [sample_filter ''cf2'' [(''region'', Some [''eu'']), (''cloud'', Some [''aws''])],
        sample_filter ''cf1'' [(''region'', Some [''eu''])]]
      (sample_event [(''region'', AStr ''eu''), (''cloud'', AStr ''aws'')]) =
   MatchingFilter [sample_filter ''cf1'' [(''region'', Some [''eu''])],
        sample_filter ''cf2'' [(''region'', Some [''eu'']), (''cloud'', Some [''aws''])]]
      (sample_event [(''region'', AStr ''eu''), (''cloud'', AStr ''aws'')])"
  by (rule MatchingFilter_order [where ?g0.0 = "sample_filter ''cf1'' [(''region'', Some [''eu''])]"])
    (auto simp: accepts_def sample_filter_def sample_event_def new_enriched_event_def property_def
      contains_def key_count_def inj_on_def)

text \<open>
  A numeric property is compared through \<open>%v\<close>, which writes \<open>1e+06\<close> for a million, so that the
  filter value \<open>1000000\<close> accepts the property as a string but not as a JSON number.
\<close>
theorem large_numbers_do_not_match:
  "accepts (sample_event [(''size'', AStr ''1000000'')]) (sample_filter ''cf'' [(''size'', Some [''1000000''])])
   \<and> \<not> accepts (sample_event [(''size'', AFloat (f64_of_int 1000000))]) (sample_filter ''cf'' [(''size'', Some [''1000000''])])
   \<and> accepts (sample_event [(''size'', AFloat (f64_of_int 999999))]) (sample_filter ''cf'' [(''size'', Some [''999999''])])"
proof -
  have "sprintf_v (AFloat (f64_of_int 1000000)) = ''1e+06''"
    "sprintf_v (AFloat (f64_of_int 999999)) = ''999999''" by code_simp+
  then show ?thesis
    by (simp add: accepts_def sample_event_def sample_filter_def new_enriched_event_def property_def
      contains_def)
qed

end
