(* ===== verification/Cache_Flat.thy ===== *)
theory Cache_Flat
  imports Cache_Search Flat_Filters
begin

text \<open>
  cache/flat_filters.go: \<open>BuildFlatFilters\<close> joins the cached charges of a plan and metric with their
  filters and filter values into the rows that the API store reads from the table flat_filters.

  The join is proved to be the concatenation, charge by charge in key order, of the rows a plain
  description of a charge gives, and to fail only when the metric is missing, as long as the cached
  keys are coherent.
\<close>

section \<open>The join\<close>

definition ALL_FILTER_VALUES :: string where "ALL_FILTER_VALUES = ''__ALL_FILTER_VALUES__''"

text \<open>The index of the metric's filters; with distinct keys, later rows overwrite.\<close>

definition bm_filter_map :: "billable_metric_filter list \<Rightarrow> (string \<times> billable_metric_filter) list" where
  "bm_filter_map bmfs = fold (\<lambda>bmf m. AList.update (bmf_ID bmf) bmf m) bmfs []"

text \<open>The loop over a charge filter's values: one entry per metric filter key, the last stays.\<close>

fun filter_entries :: "(string \<times> billable_metric_filter) list \<Rightarrow> charge_filter_value list \<Rightarrow>
    (string \<times> string_slice) list \<Rightarrow> (string \<times> string_slice) list" where
  "filter_entries bmFilterMap [] filters = filters"
| "filter_entries bmFilterMap (cfv # cfvs) filters =
     (case map_of bmFilterMap (cfv_BillableMetricFilterID cfv) of
        None \<Rightarrow> filter_entries bmFilterMap cfvs filters
      | Some bmFilter \<Rightarrow>
          (let values = (if contains (cfv_Values cfv) ALL_FILTER_VALUES then bmf_Values bmFilter else cfv_Values cfv)
           in filter_entries bmFilterMap cfvs (AList.update (bmf_Key bmFilter) values filters)))"

definition charge_row :: "string \<Rightarrow> string \<Rightarrow> string \<Rightarrow> charge \<Rightarrow> flat_filter" where
  "charge_row org code plan ch =
     \<lparr>ff_OrganizationID = org, ff_BillableMetricCode = code, ff_PlanID = plan, ff_ChargeID = ch_ID ch,
      ff_ChargeUpdatedAt = nt_Time (ch_UpdatedAt ch), ff_ChargeFilterID = None, ff_ChargeFilterUpdatedAt = None,
      ff_Filters = None, ff_PricingGroupKeys = ch_PricingGroupKeys ch, ff_PayInAdvance = ch_PayInAdvance ch,
      ff_AcceptsTargetWallet = ch_AcceptsTargetWallet ch\<rparr>"

definition charge_filter_row :: "string \<Rightarrow> string \<Rightarrow> string \<Rightarrow> charge \<Rightarrow> charge_filter \<Rightarrow> (string \<times> string_slice) list \<Rightarrow> flat_filter" where
  "charge_filter_row org code plan ch cf filters =
     \<lparr>ff_OrganizationID = org, ff_BillableMetricCode = code, ff_PlanID = plan, ff_ChargeID = ch_ID ch,
      ff_ChargeUpdatedAt = nt_Time (ch_UpdatedAt ch), ff_ChargeFilterID = Some (cf_ID cf),
      ff_ChargeFilterUpdatedAt = Some (nt_Time (cf_UpdatedAt cf)),
      ff_Filters = Some (Some filters), ff_PricingGroupKeys = cf_PricingGroupKeys cf, ff_PayInAdvance = ch_PayInAdvance ch,
      ff_AcceptsTargetWallet = ch_AcceptsTargetWallet ch\<rparr>"

text \<open>The inner loop, over the filters of a charge; a failing search ends the whole.\<close>

fun build_charge_filters :: "'db badger \<Rightarrow> string \<Rightarrow> string \<Rightarrow> string \<Rightarrow> (string \<times> billable_metric_filter) list \<Rightarrow>
    charge \<Rightarrow> 'db \<Rightarrow> charge_filter list \<Rightarrow> go_error option + flat_filter list" where
  "build_charge_filters B org code plan bmFilterMap ch db [] = Inr []"
| "build_charge_filters B org code plan bmFilterMap ch db (cf # cfs) =
     (let cfvResult = SearchChargeFilterValue B org (cf_ID cf) db in
      if Failure cfvResult then Inl (Error cfvResult)
      else let filters = filter_entries bmFilterMap (get_or [] (Value cfvResult)) []
           in sum_bind (build_charge_filters B org code plan bmFilterMap ch db cfs)
                (\<lambda>rest. Inr (charge_filter_row org code plan ch cf filters # rest)))"

fun build_charges :: "'db badger \<Rightarrow> string \<Rightarrow> string \<Rightarrow> string \<Rightarrow> (string \<times> billable_metric_filter) list \<Rightarrow>
    'db \<Rightarrow> charge list \<Rightarrow> go_error option + flat_filter list" where
  "build_charges B org code plan bmFilterMap db [] = Inr []"
| "build_charges B org code plan bmFilterMap db (ch # chs) =
     (let chfResult = SearchChargeFilter B org (ch_ID ch) db in
      if Failure chfResult then Inl (Error chfResult)
      else let chargeFilters = get_or [] (Value chfResult)
           in sum_bind
                (if chargeFilters = [] then Inr [charge_row org code plan ch]
                 else build_charge_filters B org code plan bmFilterMap ch db chargeFilters)
                (\<lambda>rows. sum_bind (build_charges B org code plan bmFilterMap db chs) (\<lambda>rest. Inr (rows @ rest))))"

definition BuildFlatFilters :: "'db badger \<Rightarrow> string \<Rightarrow> string \<Rightarrow> string \<Rightarrow> 'db \<Rightarrow> flat_filter list result" where
  "BuildFlatFilters B organizationID billableMetricCode planID db =
     (let bmResult = GetBillableMetric B organizationID billableMetricCode db in
      if Failure bmResult then FailedResult_err (Error bmResult)
      else let billableMetric = get_or zero_billable_metric (Value bmResult);
               bmfResult = SearchBillableMetricFilters B organizationID (bm_ID billableMetric) db in
        if Failure bmfResult then FailedResult_err (Error bmfResult)
        else let bmFilterMap = bm_filter_map (get_or [] (Value bmfResult));
                 chResult = SearchCharge B organizationID planID (bm_ID billableMetric) db in
          if Failure chResult then FailedResult_err (Error chResult)
          else case build_charges B organizationID billableMetricCode planID bmFilterMap db (get_or [] (Value chResult)) of
                 Inl e \<Rightarrow> FailedResult_err e
               | Inr flatFilters \<Rightarrow> SuccessResult flatFilters)"

section \<open>What a charge filter's entries are\<close>

lemma map_of_fold_update:
  "map_of (fold (\<lambda>x m. AList.update (f x) (g x) m) xs m) k
    = (case map_of (rev (map (\<lambda>x. (f x, g x)) xs)) k of None \<Rightarrow> map_of m k | Some y \<Rightarrow> Some y)"
proof (induction xs arbitrary: m)
  case (Cons x xs)
  then show ?case by (simp add: update_conv' map_add_def split: option.splits)
qed simp

lemma distinct_fold_update:
  "distinct (map fst m) \<Longrightarrow> distinct (map fst (fold (\<lambda>x m. AList.update (f x) (g x) m) xs m))"
  by (induction xs arbitrary: m) (simp_all add: distinct_update)

text \<open>A metric filter by its ID, when IDs are not repeated.\<close>

lemma bm_filter_map_lookup:
  assumes "distinct (map bmf_ID bmfs)" and "f \<in> set bmfs"
  shows "map_of (bm_filter_map bmfs) (bmf_ID f) = Some f"
proof -
  have "distinct (map fst (rev (map (\<lambda>x. (bmf_ID x, x)) bmfs)))"
    using assms(1) by (simp add: rev_map [symmetric] o_def)
  moreover have "(bmf_ID f, f) \<in> set (rev (map (\<lambda>x. (bmf_ID x, x)) bmfs))" using assms(2) by auto
  ultimately have "map_of (rev (map (\<lambda>x. (bmf_ID x, x)) bmfs)) (bmf_ID f) = Some f" by simp
  then show ?thesis unfolding bm_filter_map_def map_of_fold_update by simp
qed

lemma bm_filter_map_SomeD:
  assumes "map_of (bm_filter_map bmfs) i = Some f"
  shows "f \<in> set bmfs \<and> bmf_ID f = i"
proof -
  have "map_of (rev (map (\<lambda>x. (bmf_ID x, x)) bmfs)) i = Some f"
    using assms unfolding bm_filter_map_def map_of_fold_update by (simp split: option.splits)
  then show ?thesis by (auto dest: map_of_SomeD)
qed

definition entry_values :: "billable_metric_filter \<Rightarrow> charge_filter_value \<Rightarrow> string_slice" where
  "entry_values bmf cfv = (if contains (cfv_Values cfv) ALL_FILTER_VALUES then bmf_Values bmf else cfv_Values cfv)"

lemma filter_entries_distinct: "distinct (map fst m) \<Longrightarrow> distinct (map fst (filter_entries bmap cfvs m))"
  by (induction bmap cfvs m rule: filter_entries.induct) (auto simp: distinct_update Let_def split: option.splits)

lemma filter_entries_map_of:
  "map_of (filter_entries bmap cfvs m) k = Some vs \<Longrightarrow>
   map_of m k = Some vs \<or>
   (\<exists>cfv \<in> set cfvs. \<exists>bmf. map_of bmap (cfv_BillableMetricFilterID cfv) = Some bmf \<and> bmf_Key bmf = k \<and> vs = entry_values bmf cfv)"
proof (induction bmap cfvs m rule: filter_entries.induct)
  case (2 bmap cfv cfvs m)
  show ?case
  proof (cases "map_of bmap (cfv_BillableMetricFilterID cfv)")
    case None
    with 2 show ?thesis by auto
  next
    case (Some bmf)
    define v where "v = entry_values bmf cfv"
    have "map_of (filter_entries bmap cfvs (AList.update (bmf_Key bmf) v m)) k = Some vs"
      using 2(3) Some by (simp add: v_def entry_values_def Let_def)
    then have "map_of (AList.update (bmf_Key bmf) v m) k = Some vs \<or>
        (\<exists>cfv \<in> set cfvs. \<exists>bmf. map_of bmap (cfv_BillableMetricFilterID cfv) = Some bmf \<and> bmf_Key bmf = k \<and> vs = entry_values bmf cfv)"
      using 2(2) [OF Some refl] by (simp add: v_def entry_values_def)
    then show ?thesis using Some by (auto simp: update_conv' v_def split: if_splits)
  qed
qed simp

lemma filter_entries_keys:
  "fst ` set (filter_entries bmap cfvs m) = fst ` set m \<union>
     {bmf_Key bmf | bmf. \<exists>cfv \<in> set cfvs. map_of bmap (cfv_BillableMetricFilterID cfv) = Some bmf}"
proof (induction bmap cfvs m rule: filter_entries.induct)
  case (2 bmap cfv cfvs m)
  show ?case
  proof (cases "map_of bmap (cfv_BillableMetricFilterID cfv)")
    case None
    with 2 show ?thesis by auto
  next
    case (Some bmf)
    then show ?thesis using 2(2) [OF Some refl] by (auto simp: dom_update Let_def)
  qed
qed simp

section \<open>The cached rows of a plan\<close>

definition bmf_parts :: "billable_metric_filter \<Rightarrow> string list" where
  "bmf_parts bmf = [bmf_OrganizationID bmf, bmf_BillableMetricID bmf, bmf_ID bmf]"

definition cf_parts :: "charge_filter \<Rightarrow> string list" where
  "cf_parts cf = [cf_OrganizationID cf, cf_ChargeID cf, cf_ID cf]"

definition cfv_parts :: "charge_filter_value \<Rightarrow> string list" where
  "cfv_parts cfv = [cfv_OrganizationID cfv, cfv_ChargeFilterID cfv, cfv_BillableMetricFilterID cfv, cfv_ID cfv]"

definition cached_charges :: "('db \<Rightarrow> string \<Rightarrow> json option) \<Rightarrow> string \<Rightarrow> string \<Rightarrow> string \<Rightarrow> 'db \<Rightarrow> charge set" where
  "cached_charges view org plan bm db = {c \<in> rows view charge_codec ''ch'' charge_parts db.
     ch_OrganizationID c = org \<and> ch_PlanID c = plan \<and> ch_BillableMetricID c = bm}"

definition cached_metric_filters :: "('db \<Rightarrow> string \<Rightarrow> json option) \<Rightarrow> string \<Rightarrow> string \<Rightarrow> 'db \<Rightarrow> billable_metric_filter set" where
  "cached_metric_filters view org bm db = {f \<in> rows view billable_metric_filter_codec ''bmf'' bmf_parts db.
     bmf_OrganizationID f = org \<and> bmf_BillableMetricID f = bm}"

definition cached_charge_filters :: "('db \<Rightarrow> string \<Rightarrow> json option) \<Rightarrow> string \<Rightarrow> string \<Rightarrow> 'db \<Rightarrow> charge_filter set" where
  "cached_charge_filters view org ch db = {f \<in> rows view charge_filter_codec ''cf'' cf_parts db.
     cf_OrganizationID f = org \<and> cf_ChargeID f = ch}"

definition cached_filter_values :: "('db \<Rightarrow> string \<Rightarrow> json option) \<Rightarrow> string \<Rightarrow> string \<Rightarrow> 'db \<Rightarrow> charge_filter_value set" where
  "cached_filter_values view org cf db = {v \<in> rows view charge_filter_value_codec ''cfv'' cfv_parts db.
     cfv_OrganizationID v = org \<and> cfv_ChargeFilterID v = cf}"

text \<open>A store whose entries of the four tables are at their own keys.\<close>

definition coherent_filters :: "('db \<Rightarrow> string \<Rightarrow> json option) \<Rightarrow> 'db \<Rightarrow> bool" where
  "coherent_filters view db \<longleftrightarrow>
     coherent view charge_codec ''ch'' charge_parts db \<and>
     coherent view billable_metric_filter_codec ''bmf'' bmf_parts db \<and>
     coherent view charge_filter_codec ''cf'' cf_parts db \<and>
     coherent view charge_filter_value_codec ''cfv'' cfv_parts db"

lemma search_cached:
  assumes "badger_store B view" and "coherent view cd tag parts db"
    and "CHR '':'' \<notin> set tag" and "list_all (\<lambda>p. CHR '':'' \<notin> set p) ps"
  shows "\<exists>xs. searchJSON B cd db (colon_prefix (tag # ps)) = SuccessResult xs \<and> distinct xs \<and>
    sorted (map (\<lambda>x. colon_key (tag # parts x)) xs) \<and>
    set xs = {x \<in> rows view cd tag parts db. length ps < length (parts x) \<and> take (length ps) (parts x) = ps}"
  using search_rows [OF assms(1,2), of ps] assms(3,4) by (auto simp: list_all_iff)

lemma SearchCharge_cached:
  assumes "badger_store B view" and "coherent_filters view db" and "list_all (\<lambda>p. CHR '':'' \<notin> set p) [org, plan, bm]"
  shows "\<exists>cs. SearchCharge B org plan bm db = SuccessResult cs \<and> distinct cs \<and> sorted (map charge_key cs) \<and>
    set cs = cached_charges view org plan bm db"
  using search_cached [OF assms(1) _ _ assms(3), of charge_codec "''ch''" charge_parts db] assms(2)
  by (simp add: coherent_filters_def SearchCharge_def cached_charges_def charge_key_def [abs_def] charge_parts_def buildChargeKey_def)

lemma SearchBillableMetricFilters_cached:
  assumes "badger_store B view" and "coherent_filters view db" and "list_all (\<lambda>p. CHR '':'' \<notin> set p) [org, bm]"
  shows "\<exists>fs. SearchBillableMetricFilters B org bm db = SuccessResult fs \<and> distinct fs \<and>
    set fs = cached_metric_filters view org bm db"
  using search_cached [OF assms(1) _ _ assms(3), of billable_metric_filter_codec "''bmf''" bmf_parts db] assms(2)
  by (auto simp add: coherent_filters_def SearchBillableMetricFilters_def cached_metric_filters_def bmf_parts_def)

lemma SearchChargeFilter_cached:
  assumes "badger_store B view" and "coherent_filters view db" and "list_all (\<lambda>p. CHR '':'' \<notin> set p) [org, ch]"
  shows "\<exists>fs. SearchChargeFilter B org ch db = SuccessResult fs \<and> distinct fs \<and>
    set fs = cached_charge_filters view org ch db"
  using search_cached [OF assms(1) _ _ assms(3), of charge_filter_codec "''cf''" cf_parts db] assms(2)
  by (auto simp add: coherent_filters_def SearchChargeFilter_def cached_charge_filters_def cf_parts_def)

lemma SearchChargeFilterValue_cached:
  assumes "badger_store B view" and "coherent_filters view db" and "list_all (\<lambda>p. CHR '':'' \<notin> set p) [org, cf]"
  shows "\<exists>vs. SearchChargeFilterValue B org cf db = SuccessResult vs \<and> distinct vs \<and>
    set vs = cached_filter_values view org cf db"
  using search_cached [OF assms(1) _ _ assms(3), of charge_filter_value_codec "''cfv''" cfv_parts db] assms(2)
  by (auto simp add: coherent_filters_def SearchChargeFilterValue_def cached_filter_values_def cfv_parts_def)

text \<open>Identifiers in the cached rows hold no colon.\<close>

lemma rows_clean:
  assumes "coherent view cd tag parts db" and "x \<in> rows view cd tag parts db" and "parts x \<noteq> []" and "p \<in> set (parts x)"
  shows "CHR '':'' \<notin> set p"
proof -
  obtain j where "view db (colon_key (tag # parts x)) = Some j" "cd_Unmarshal cd j = Inr x"
    using assms(2) by (auto simp: rows_def typed_view_def split: option.splits sum.splits)
  moreover have "prefix (colon_prefix [tag]) (colon_key (tag # parts x))"
    using colon_key_prefix [of "parts x" "[tag]"] assms(3) by simp
  ultimately show ?thesis using assms(1,4) by (fastforce simp: coherent_def)
qed

section \<open>What the join returns\<close>

text \<open>
  The row of a charge filter: its entries are, for each key of a metric filter that one of its
  values refers to, the values accepted for one of the references.
\<close>

definition describes :: "('db \<Rightarrow> string \<Rightarrow> json option) \<Rightarrow> 'db \<Rightarrow> string \<Rightarrow> string \<Rightarrow> string \<Rightarrow> string \<Rightarrow> charge \<Rightarrow>
    charge_filter \<Rightarrow> flat_filter \<Rightarrow> bool" where
  "describes view db org code plan bm ch cf ff \<longleftrightarrow>
     (\<exists>entries. ff = charge_filter_row org code plan ch cf entries \<and> distinct (map fst entries) \<and>
       (\<forall>(key, vals) \<in> set entries. \<exists>cfv \<in> cached_filter_values view org (cf_ID cf) db. \<exists>bmf \<in> cached_metric_filters view org bm db.
          bmf_ID bmf = cfv_BillableMetricFilterID cfv \<and> bmf_Key bmf = key \<and> vals = entry_values bmf cfv) \<and>
       (\<forall>cfv \<in> cached_filter_values view org (cf_ID cf) db. \<forall>bmf \<in> cached_metric_filters view org bm db.
          bmf_ID bmf = cfv_BillableMetricFilterID cfv \<longrightarrow> bmf_Key bmf \<in> fst ` set entries))"

text \<open>The rows of a charge: the default row without filters, else one row per filter.\<close>

definition charge_rows :: "('db \<Rightarrow> string \<Rightarrow> json option) \<Rightarrow> 'db \<Rightarrow> string \<Rightarrow> string \<Rightarrow> string \<Rightarrow> string \<Rightarrow> charge \<Rightarrow>
    flat_filter list \<Rightarrow> bool" where
  "charge_rows view db org code plan bm ch ffs \<longleftrightarrow>
     (\<exists>cfs. distinct cfs \<and> set cfs = cached_charge_filters view org (ch_ID ch) db \<and>
       (if cfs = [] then ffs = [charge_row org code plan ch]
        else list_all2 (describes view db org code plan bm ch) cfs ffs))"

lemma metric_filter_lookup:
  assumes "coherent view billable_metric_filter_codec ''bmf'' bmf_parts db"
    and "set bmfs = cached_metric_filters view org bm db" and "distinct bmfs"
  shows "map_of (bm_filter_map bmfs) i = Some f \<longleftrightarrow> f \<in> cached_metric_filters view org bm db \<and> bmf_ID f = i"
proof
  have "inj_on bmf_ID (set bmfs)"
  proof (rule inj_onI)
    fix f g assume fg: "f \<in> set bmfs" "g \<in> set bmfs" "bmf_ID f = bmf_ID g"
    then have "bmf_parts f = bmf_parts g" by (simp add: assms(2) cached_metric_filters_def bmf_parts_def)
    moreover have "typed_view view billable_metric_filter_codec db (colon_key (''bmf'' # bmf_parts h)) = Some h"
      if "h \<in> set bmfs" for h using that by (simp add: assms(2) cached_metric_filters_def rows_def)
    ultimately show "f = g" using fg(1,2) by (metis option.inject)
  qed
  then have d: "distinct (map bmf_ID bmfs)" using assms(3) by (simp add: distinct_map)
  show "f \<in> cached_metric_filters view org bm db \<and> bmf_ID f = i" if "map_of (bm_filter_map bmfs) i = Some f"
    using bm_filter_map_SomeD [OF that] assms(2) by simp
  show "map_of (bm_filter_map bmfs) i = Some f" if "f \<in> cached_metric_filters view org bm db \<and> bmf_ID f = i"
    using bm_filter_map_lookup [OF d] that assms(2) by auto
qed

lemma entries_describe:
  assumes lookup: "\<And>i f. map_of bmap i = Some f \<longleftrightarrow> f \<in> cached_metric_filters view org bm db \<and> bmf_ID f = i"
    and cfvs: "set cfvs = cached_filter_values view org (cf_ID cf) db"
  shows "describes view db org code plan bm ch cf (charge_filter_row org code plan ch cf (filter_entries bmap cfvs []))"
proof -
  let ?es = "filter_entries bmap cfvs []"
  have d: "distinct (map fst ?es)" using filter_entries_distinct [of "[]"] by simp
  have sound: "\<exists>cfv \<in> set cfvs. \<exists>bmf. map_of bmap (cfv_BillableMetricFilterID cfv) = Some bmf \<and> bmf_Key bmf = k \<and> vs = entry_values bmf cfv"
    if "(k, vs) \<in> set ?es" for k vs
    using filter_entries_map_of [of bmap cfvs "[]" k vs] map_of_is_SomeI [OF d that] by simp
  have complete: "bmf_Key bmf \<in> fst ` set ?es"
    if "cfv \<in> set cfvs" "map_of bmap (cfv_BillableMetricFilterID cfv) = Some bmf" for cfv bmf
    using that by (auto simp: filter_entries_keys)
  show ?thesis
    unfolding describes_def
    by (rule exI [of _ ?es]) (use d sound complete in \<open>auto simp: lookup cfvs\<close>, metis)
qed

lemma build_charge_filters_rows:
  assumes store: "badger_store B view" and coh: "coherent_filters view db" and org: "CHR '':'' \<notin> set org"
    and lookup: "\<And>i f. map_of bmap i = Some f \<longleftrightarrow> f \<in> cached_metric_filters view org bm db \<and> bmf_ID f = i"
    and "list_all (\<lambda>cf. CHR '':'' \<notin> set (cf_ID cf)) cfs"
  shows "\<exists>ffs. build_charge_filters B org code plan bmap ch db cfs = Inr ffs \<and>
    list_all2 (describes view db org code plan bm ch) cfs ffs"
  using assms(5)
proof (induction cfs)
  case (Cons cf cfs)
  obtain ffs where ffs: "build_charge_filters B org code plan bmap ch db cfs = Inr ffs"
      "list_all2 (describes view db org code plan bm ch) cfs ffs"
    using Cons by auto
  obtain vs where vs: "SearchChargeFilterValue B org (cf_ID cf) db = SuccessResult vs"
      "set vs = cached_filter_values view org (cf_ID cf) db"
    using SearchChargeFilterValue_cached [OF store coh, of org "cf_ID cf"] org Cons.prems by auto
  show ?case using ffs vs entries_describe [OF lookup vs(2)] by (simp add: Let_def get_or_def)
qed simp

lemma build_charges_rows:
  assumes store: "badger_store B view" and coh: "coherent_filters view db" and org: "CHR '':'' \<notin> set org"
    and lookup: "\<And>i f. map_of bmap i = Some f \<longleftrightarrow> f \<in> cached_metric_filters view org bm db \<and> bmf_ID f = i"
    and "list_all (\<lambda>ch. CHR '':'' \<notin> set (ch_ID ch)) chs"
  shows "\<exists>rowss. build_charges B org code plan bmap db chs = Inr (concat rowss) \<and>
    list_all2 (charge_rows view db org code plan bm) chs rowss"
  using assms(5)
proof (induction chs)
  case Nil
  show ?case by (rule exI [of _ "[]"]) simp
next
  case (Cons ch chs)
  obtain rowss where rowss: "build_charges B org code plan bmap db chs = Inr (concat rowss)"
      "list_all2 (charge_rows view db org code plan bm) chs rowss"
    using Cons by auto
  obtain cfs where cfs: "SearchChargeFilter B org (ch_ID ch) db = SuccessResult cfs" "distinct cfs"
      "set cfs = cached_charge_filters view org (ch_ID ch) db"
    using SearchChargeFilter_cached [OF store coh, of org "ch_ID ch"] org Cons.prems by auto
  have "list_all (\<lambda>cf. CHR '':'' \<notin> set (cf_ID cf)) cfs"
    using cfs(3) coh rows_clean [of view charge_filter_codec "''cf''" cf_parts db]
    by (fastforce simp: list_all_iff cached_charge_filters_def coherent_filters_def cf_parts_def)
  then obtain ffs where ffs: "build_charge_filters B org code plan bmap ch db cfs = Inr ffs"
      "list_all2 (describes view db org code plan bm ch) cfs ffs"
    using build_charge_filters_rows [OF store coh org lookup] by blast
  let ?rs = "if cfs = [] then [charge_row org code plan ch] else ffs"
  have "charge_rows view db org code plan bm ch ?rs"
    unfolding charge_rows_def using cfs(2,3) ffs(2) by (intro exI [of _ cfs]) simp
  then show ?case
    using rowss cfs(1) ffs(1) by (intro exI [of _ "?rs # rowss"]) (simp add: Let_def get_or_def)
qed

text \<open>
  C13: On a coherent store with the metric cached, \<open>BuildFlatFilters\<close> succeeds, and its list is,
  charge by charge in key order, the default row of each cached charge of the plan and metric that
  has no filter, and one row for every filter of the others, with the accepted values of every
  metric filter that the filter's values refer to. Without the metric it fails with the error of
  the lookup.
\<close>
theorem BuildFlatFilters_spec:
  assumes "badger_store B view" and "coherent_filters view db"
    and "list_all (\<lambda>p. CHR '':'' \<notin> set p) [org, plan]"
    and "case Value (GetBillableMetric B org code db) of Some m \<Rightarrow> CHR '':'' \<notin> set (bm_ID m) | None \<Rightarrow> True"
  shows "let r = GetBillableMetric B org code db in
    if Success r
    then \<exists>m chs rowss. Value r = Some m \<and> BuildFlatFilters B org code plan db = SuccessResult (concat rowss) \<and>
      distinct chs \<and> sorted (map charge_key chs) \<and> set chs = cached_charges view org plan (bm_ID m) db \<and>
      list_all2 (charge_rows view db org code plan (bm_ID m)) chs rowss
    else BuildFlatFilters B org code plan db = FailedResult_err (Error r)"
proof (cases "Success (GetBillableMetric B org code db)")
  case True
  obtain m where m: "GetBillableMetric B org code db = SuccessResult m"
    using True by (auto simp: GetBillableMetric_def getJSON_def go_simps split: sum.splits if_splits)
  have org: "CHR '':'' \<notin> set org" "CHR '':'' \<notin> set plan" "CHR '':'' \<notin> set (bm_ID m)"
    using assms(3,4) m by simp_all
  obtain bmfs where bmfs: "SearchBillableMetricFilters B org (bm_ID m) db = SuccessResult bmfs" "distinct bmfs"
      "set bmfs = cached_metric_filters view org (bm_ID m) db"
    using SearchBillableMetricFilters_cached [OF assms(1,2), of org "bm_ID m"] org by auto
  obtain chs where chs: "SearchCharge B org plan (bm_ID m) db = SuccessResult chs" "distinct chs"
      "sorted (map charge_key chs)" "set chs = cached_charges view org plan (bm_ID m) db"
    using SearchCharge_cached [OF assms(1,2), of org plan "bm_ID m"] org by auto
  have "list_all (\<lambda>ch. CHR '':'' \<notin> set (ch_ID ch)) chs"
    using chs(4) assms(2) rows_clean [of view charge_codec "''ch''" charge_parts db]
    by (fastforce simp: list_all_iff cached_charges_def coherent_filters_def charge_parts_def)
  moreover have "coherent view billable_metric_filter_codec ''bmf'' bmf_parts db"
    using assms(2) by (simp add: coherent_filters_def)
  ultimately obtain rowss where rowss: "build_charges B org code plan (bm_filter_map bmfs) db chs = Inr (concat rowss)"
      "list_all2 (charge_rows view db org code plan (bm_ID m)) chs rowss"
    using build_charges_rows [OF assms(1,2) org(1) metric_filter_lookup [OF _ bmfs(3,2)]] by metis
  have "BuildFlatFilters B org code plan db = SuccessResult (concat rowss)"
    unfolding BuildFlatFilters_def using m bmfs(1) chs(1) rowss(1) by (simp add: Let_def get_or_def)
  then show ?thesis using m chs(2-4) rowss(2) by auto
next
  case False
  then show ?thesis by (simp add: BuildFlatFilters_def Let_def)
qed

section \<open>A cached plan\<close>

lemma coherent_ref:
  assumes "list_all (\<lambda>(k, v, e). prefix (colon_prefix [tag]) k \<longrightarrow>
      (case cd_Unmarshal cd v of Inl _ \<Rightarrow> False
       | Inr x \<Rightarrow> k = colon_key (tag # parts x) \<and> parts x \<noteq> [] \<and> list_all (\<lambda>p. CHR '':'' \<notin> set p) (parts x))) (rf_entries db)"
  shows "coherent ref_view cd tag parts db"
  unfolding coherent_def
proof (intro allI impI)
  fix k j assume k: "prefix (colon_prefix [tag]) k" "ref_view db k = Some j"
  then obtain e where "(k, j, e) \<in> set (rf_entries db)"
    by (auto simp: ref_view_def split: option.splits prod.splits if_splits dest: map_of_SomeD)
  with assms k(1) show "\<exists>x. cd_Unmarshal cd j = Inr x \<and> k = colon_key (tag # parts x) \<and> parts x \<noteq> [] \<and>
      (\<forall>p \<in> set (parts x). CHR '':'' \<notin> set p)"
    by (auto simp: list_all_iff split: sum.splits)
qed

text \<open>
  A metric with a filter on regions; a charge without filters and a charge with one filter, whose
  value asks for all regions.
\<close>

definition sample_plan_db :: ref_db where
  "sample_plan_db =
     snd (SetChargeFilterValue ref_badger (zero_charge_filter_value\<lparr>cfv_ID := ''v1'', cfv_OrganizationID := ''org'',
            cfv_ChargeFilterID := ''f1'', cfv_BillableMetricFilterID := ''region'',
            cfv_Values := Some [ALL_FILTER_VALUES]\<rparr>)
     (snd (SetChargeFilter ref_badger (zero_charge_filter\<lparr>cf_ID := ''f1'', cf_OrganizationID := ''org'', cf_ChargeID := ''c2''\<rparr>)
     (snd (SetBillableMetricFilter ref_badger (zero_billable_metric_filter\<lparr>bmf_ID := ''region'', bmf_OrganizationID := ''org'',
            bmf_BillableMetricID := ''bm'', bmf_Key := ''region'', bmf_Values := Some [''eu'', ''us'']\<rparr>)
     (snd (SetCharge ref_badger (sample_charge ''c2'' 6000000 False)
     (snd (SetCharge ref_badger (sample_charge ''c1'' 5000000 True)
     (snd (SetBillableMetric ref_badger (sample_metric ''bm'' ''api'' 4000000) (ref_empty 0))))))))))))"

lemma sample_plan_coherent: "coherent_filters ref_view sample_plan_db"
  unfolding coherent_filters_def by (intro conjI; rule coherent_ref; code_simp)

lemma sample_plan_metric: "GetBillableMetric ref_badger ''org'' ''api'' sample_plan_db = SuccessResult (sample_metric ''bm'' ''api'' 4000000)"
  by code_simp

lemma BuildFlatFilters_spec_witness:
  "\<exists>chs rowss. BuildFlatFilters ref_badger ''org'' ''api'' ''plan'' sample_plan_db = SuccessResult (concat rowss) \<and>
     list_all2 (charge_rows ref_view sample_plan_db ''org'' ''api'' ''plan'' ''bm'') chs rowss \<and>
     map (\<lambda>ff. (ff_ChargeID ff, ff_ChargeFilterID ff, map_option (map_option set) (ff_Filters ff))) (concat rowss)
       = [(''c1'', None, None), (''c2'', Some ''f1'', Some (Some {(''region'', Some [''eu'', ''us''])}))]"
proof -
  have m: "Value (GetBillableMetric ref_badger ''org'' ''api'' sample_plan_db) = Some (sample_metric ''bm'' ''api'' 4000000)"
      "Success (GetBillableMetric ref_badger ''org'' ''api'' sample_plan_db)"
      "bm_ID (sample_metric ''bm'' ''api'' 4000000) = ''bm''"
    unfolding sample_plan_metric by (simp_all add: sample_metric_def)
  have "case Value (GetBillableMetric ref_badger ''org'' ''api'' sample_plan_db) of Some m \<Rightarrow> CHR '':'' \<notin> set (bm_ID m) | None \<Rightarrow> True"
    unfolding m(1) by (simp add: sample_metric_def)
  then obtain chs rowss where r: "BuildFlatFilters ref_badger ''org'' ''api'' ''plan'' sample_plan_db = SuccessResult (concat rowss)"
      "list_all2 (charge_rows ref_view sample_plan_db ''org'' ''api'' ''plan'' ''bm'') chs rowss"
    using BuildFlatFilters_spec [OF ref.badger_store_axioms sample_plan_coherent, of "''org''" "''plan''" "''api''"] m by auto
  moreover have "map_option (map (\<lambda>ff. (ff_ChargeID ff, ff_ChargeFilterID ff, map_option (map_option set) (ff_Filters ff))))
      (Value (BuildFlatFilters ref_badger ''org'' ''api'' ''plan'' sample_plan_db))
    = Some [(''c1'', None, None), (''c2'', Some ''f1'', Some (Some {(''region'', Some [''eu'', ''us''])}))]"
    by code_simp
  ultimately show ?thesis by (intro exI [of _ chs] exI [of _ rowss]) simp
qed

end
