(* ===== verification/Effects.thy ===== *)
theory Effects
  imports Events Kafka_Consumer
begin

text \<open>
  What the processor does to the outside: records produced to Kafka, members added to a Redis
  sorted set, keys given an expiration, exceptions reported to Sentry, reads of the clock, and the
  append to the list of processed records that goroutines share under a mutex.

  A goroutine is a value of type \<open>io\<close>: it returns, or performs an operation and goes on with the
  reply. \<open>emits\<close> says which sequences of operations with replies a goroutine can go through; the
  replies are the environment's choice. Goroutines that run side by side go through any
  interleaving of their sequences.
\<close>

section \<open>Operations\<close>

datatype op =
    ProduceSync string "string option" "json option"  \<comment> \<open>topic, key and value; nil is None\<close>
  | ZAdd string f64 string  \<comment> \<open>sorted set, score, member\<close>
  | ExpireOp string int  \<comment> \<open>key and time to live\<close>
  | CaptureException "go_error option" "(string \<times> string) option" "event option"
      \<comment> \<open>the error, the code and message of a result, the event given as extra\<close>
  | Now
  | Append "json option kgo_record"

datatype reply = RErr "go_error option" | RTime instant

fun reply_ok :: "op \<Rightarrow> reply \<Rightarrow> bool" where
  "reply_ok Now r = (case r of RTime _ \<Rightarrow> True | RErr _ \<Rightarrow> False)"
| "reply_ok (CaptureException _ _ _) r = (r = RErr None)"
| "reply_ok (Append _) r = (r = RErr None)"
| "reply_ok _ r = (case r of RErr _ \<Rightarrow> True | RTime _ \<Rightarrow> False)"

fun err_of :: "reply \<Rightarrow> go_error option" where
  "err_of (RErr e) = e"
| "err_of (RTime _) = None"

fun time_of :: "reply \<Rightarrow> instant" where
  "time_of (RTime t) = t"
| "time_of (RErr _) = 0"

type_synonym effect = "op \<times> reply"

section \<open>Goroutines\<close>

datatype 'a io = Return 'a | Do op "reply \<Rightarrow> 'a io"

primrec io_bind :: "'a io \<Rightarrow> ('a \<Rightarrow> 'b io) \<Rightarrow> 'b io" where
  "io_bind (Return x) f = f x"
| "io_bind (Do c k) f = Do c (\<lambda>r. io_bind (k r) f)"

definition perform :: "op \<Rightarrow> go_error option io" where
  "perform c = Do c (\<lambda>r. Return (err_of r))"

definition time_Now :: "instant io" where
  "time_Now = Do Now (\<lambda>r. Return (time_of r))"

text \<open>utils/error_tracker.go: the three ways to report.\<close>

definition CaptureError :: "go_error option \<Rightarrow> unit io" where
  "CaptureError err = Do (CaptureException err None None) (\<lambda>_. Return ())"

definition CaptureErrorResultWithExtra :: "'r result \<Rightarrow> event option \<Rightarrow> unit io" where
  "CaptureErrorResultWithExtra errResult extra =
     Do (CaptureException (Error errResult) (Some (ErrorCode errResult, ErrorMessage errResult)) extra) (\<lambda>_. Return ())"

definition CaptureErrorResult :: "'r result \<Rightarrow> unit io" where
  "CaptureErrorResult errResult = CaptureErrorResultWithExtra errResult None"

primrec emits :: "'a io \<Rightarrow> effect list \<Rightarrow> 'a \<Rightarrow> bool" where
  "emits (Return x) = (\<lambda>es r. es = [] \<and> r = x)"
| "emits (Do c k) = (\<lambda>es r.
     case es of [] \<Rightarrow> False | (d, a) # es' \<Rightarrow> d = c \<and> reply_ok c a \<and> emits (k a) es' r)"

lemma emits_Do: "emits (Do c k) es r \<longleftrightarrow> (\<exists>a es'. es = (c, a) # es' \<and> reply_ok c a \<and> emits (k a) es' r)"
  by (cases es) auto

declare emits.simps(2) [simp del]

lemma reply_ok_iff [simp]:
  "reply_ok Now a \<longleftrightarrow> (\<exists>t. a = RTime t)"
  "reply_ok (ProduceSync tp k v) a \<longleftrightarrow> (\<exists>e. a = RErr e)"
  "reply_ok (ZAdd n sc m) a \<longleftrightarrow> (\<exists>e. a = RErr e)"
  "reply_ok (ExpireOp key ttl) a \<longleftrightarrow> (\<exists>e. a = RErr e)"
  by (cases a; simp)+

declare reply_ok.simps [simp del]
declare reply_ok.simps(2,3) [simp]

lemma emits_bind:
  "emits (io_bind m f) es r \<longleftrightarrow> (\<exists>es1 es2 x. es = es1 @ es2 \<and> emits m es1 x \<and> emits (f x) es2 r)"
proof (induction m arbitrary: es)
  case (Do c k)
  have IH: "emits (io_bind (k a) f) es r \<longleftrightarrow> (\<exists>es1 es2 x. es = es1 @ es2 \<and> emits (k a) es1 x \<and> emits (f x) es2 r)" for a es
    by (rule Do.IH) simp
  show ?case
  proof
    assume "emits (io_bind (Do c k) f) es r"
    then obtain a es' where e: "es = (c, a) # es'" "reply_ok c a" "emits (io_bind (k a) f) es' r"
      by (auto simp: emits_Do)
    obtain es1 es2 x where "es' = es1 @ es2" "emits (k a) es1 x" "emits (f x) es2 r"
      using e(3) unfolding IH by blast
    with e(1,2) show "\<exists>es1 es2 x. es = es1 @ es2 \<and> emits (Do c k) es1 x \<and> emits (f x) es2 r"
      by (intro exI [of _ "(c, a) # es1"] exI [of _ es2] exI [of _ x]) (simp add: emits_Do)
  next
    assume "\<exists>es1 es2 x. es = es1 @ es2 \<and> emits (Do c k) es1 x \<and> emits (f x) es2 r"
    then obtain es1 es2 x where e: "es = es1 @ es2" "emits (Do c k) es1 x" "emits (f x) es2 r" by blast
    obtain a es' where a: "es1 = (c, a) # es'" "reply_ok c a" "emits (k a) es' x"
      using e(2) unfolding emits_Do by blast
    have "emits (io_bind (k a) f) (es' @ es2) r" using a(3) e(3) IH by blast
    then show "emits (io_bind (Do c k) f) es r" using e(1) a(1,2) by (simp add: emits_Do)
  qed
qed simp

text \<open>A goroutine always can go on to its end, whatever the replies.\<close>

lemma reply_exists: "\<exists>a. reply_ok c a"
proof (cases c)
  case Now
  then show ?thesis by (intro exI [of _ "RTime 0"]) simp
qed (auto intro: exI [of _ "RErr None"])

lemma io_completes: "\<exists>es r. emits m es r"
proof (induction m)
  case (Do c k)
  obtain a where a: "reply_ok c a" using reply_exists by blast
  obtain es r where "emits (k a) es r" using Do.IH [of "k a"] by auto
  then have "emits (Do c k) ((c, a) # es) r" using a by (simp add: emits_Do)
  then show ?case by blast
qed simp

section \<open>Side by side\<close>

fun interleavings :: "'a list list \<Rightarrow> 'a list set" where
  "interleavings [] = {[]}"
| "interleavings (xs # xss) = (\<Union>ys \<in> interleavings xss. shuffles xs ys)"

lemma concat_interleaving: "concat xss \<in> interleavings xss"
proof (induction xss)
  case (Cons xs xss)
  have "xs @ ys \<in> shuffles xs ys" for ys :: "'a list"
    by (induction xs) (cases ys; simp add: Cons_in_shuffles_leftI)+
  then show ?case using Cons by auto
qed simp

lemma mset_interleavings: "es \<in> interleavings ess \<Longrightarrow> mset es = mset (concat ess)"
  by (induction ess arbitrary: es) (auto simp: mset_shuffles)

lemma set_interleavings: "es \<in> interleavings ess \<Longrightarrow> set es = \<Union> (set ` set ess)"
  by (drule mset_interleavings) (metis set_concat set_mset_mset)

lemma filter_interleavings: "es \<in> interleavings ess \<Longrightarrow> filter P es \<in> interleavings (map (filter P) ess)"
proof (induction ess arbitrary: es)
  case (Cons xs ess)
  then obtain ys where ys: "ys \<in> interleavings ess" "es \<in> shuffles xs ys" by auto
  have "filter P es \<in> shuffles (filter P xs) (filter P ys)"
    using ys(2) filter_shuffles [of P xs ys] by blast
  then show ?case using Cons.IH [OF ys(1)] by auto
qed simp

lemma interleavings_empty: "(\<And>xs. xs \<in> set ess \<Longrightarrow> xs = []) \<Longrightarrow> interleavings ess = {[]}"
  by (induction ess) auto

text \<open>
  A goroutine \<open>main\<close> that has started others: the group runs, in any interleaving, until all are
  done (\<open>errgroup.Wait\<close>).
\<close>

definition group_emits :: "unit io list \<Rightarrow> 'a io \<Rightarrow> effect list \<Rightarrow> 'a \<Rightarrow> bool" where
  "group_emits tasks main es r \<longleftrightarrow>
     (\<exists>es0 ess. emits main es0 r \<and> list_all2 (\<lambda>t e. emits t e ()) tasks ess \<and> es \<in> interleavings (es0 # ess))"

lemma group_completes: "\<exists>es r. group_emits tasks main es r"
proof -
  obtain es0 r where m: "emits main es0 r" using io_completes [of main] by auto
  have "\<exists>ess. list_all2 (\<lambda>t e. emits t e ()) tasks ess"
  proof (induction tasks)
    case (Cons t ts)
    then obtain ess where "list_all2 (\<lambda>t e. emits t e ()) ts ess" by blast
    moreover obtain e where "emits t e ()" using io_completes [of t] by auto
    ultimately show ?case by (intro exI [of _ "e # ess"]) simp
  qed simp
  then obtain ess where "list_all2 (\<lambda>t e. emits t e ()) tasks ess" by blast
  with m show ?thesis unfolding group_emits_def using concat_interleaving by blast
qed

end
