(* ===== verification/Stores.thy ===== *)
theory Stores
  imports Effects Flat_Filters
begin

text \<open>
  models/stores.go and models/charge_cache.go: the sorted set of subscriptions to refresh and the
  expiration of cached charge usage in Redis. models/query_streaming.go and the \<open>GetAll\<close> queries:
  the rows of a snapshot. A Redis command is an operation of a goroutine; a query is answered by
  the connection, a parameter.

  The lemmas say when two flags share a member, that a member's score stays within its bucket, and
  which keys an expiration addresses.
\<close>

section \<open>FlagStore\<close>

definition SUBSCRIPTION_BUCKET_DURATION :: int where
  "SUBSCRIPTION_BUCKET_DURATION = 10"

text \<open>Integer division cuts towards zero.\<close>

definition int_quot :: "int \<Rightarrow> int \<Rightarrow> int" where
  "int_quot a b = (if a < 0 then - ((- a) div b) else a div b)"

definition flag_bucket :: "int \<Rightarrow> int" where
  "flag_bucket now = int_quot now SUBSCRIPTION_BUCKET_DURATION * SUBSCRIPTION_BUCKET_DURATION"

definition flag_member :: "string \<Rightarrow> int \<Rightarrow> string" where
  "flag_member v bucket = v @ ''|'' @ itoa bucket"

definition FlagStore_Flag :: "string \<Rightarrow> string \<Rightarrow> go_error option io" where
  "FlagStore_Flag name v =
     io_bind time_Now (\<lambda>t.
       let now = t div Second; bucket = flag_bucket now
       in perform (ZAdd name (f64_of_int now) (flag_member v bucket)))"

section \<open>CacheStore and ChargeCache\<close>

definition EXPIRATION_TIME :: int where
  "EXPIRATION_TIME = 10 * Second"

definition CacheStore_ExpireKey :: "string \<Rightarrow> bool result io" where
  "CacheStore_ExpireKey key =
     io_bind (perform (ExpireOp key EXPIRATION_TIME)) (\<lambda>err.
       case err of Some e \<Rightarrow> Return (FailedBoolResult e) | None \<Rightarrow> Return (SuccessResult True))"

definition CACHE_KEY_VERSION :: string where "CACHE_KEY_VERSION = ''1''"

definition charge_cache_parts :: "flat_filter \<Rightarrow> string \<Rightarrow> string list" where
  "charge_cache_parts ff subID =
     [''charge-usage'', CACHE_KEY_VERSION, ff_ChargeID ff, subID, format_RFC3339 (ff_ChargeUpdatedAt ff)] @
     (case (ff_ChargeFilterID ff, ff_ChargeFilterUpdatedAt ff) of
        (Some ident, Some updated) \<Rightarrow> [ident, format_RFC3339 updated]
      | _ \<Rightarrow> [])"

definition ChargeCache_Expire :: "flat_filter \<Rightarrow> string \<Rightarrow> bool result io" where
  "ChargeCache_Expire ff subID = CacheStore_ExpireKey (join_with ''/'' (charge_cache_parts ff subID))"

section \<open>Streamed queries\<close>

text \<open>
  What the connection answers to a query: an error, or the rows in order, each scanned into an item
  or failing to, and the error that ended the iteration.
\<close>

record stream_config =
  sc_TableName :: string
  sc_SelectFields :: "string list"
  sc_WhereCondition :: string
  sc_WhereArgs :: "instant list"
  sc_LogInterval :: int

type_synonym 't connection =
  "string \<Rightarrow> string list \<Rightarrow> (string \<times> instant list) option \<Rightarrow> go_error + (go_error + 't) list \<times> go_error option"

fun stream_rows :: "('t \<Rightarrow> 's \<Rightarrow> go_error option \<times> 's) \<Rightarrow> (go_error + 't) list \<Rightarrow> int \<Rightarrow> 's \<Rightarrow> int \<times> go_error option \<times> 's" where
  "stream_rows callback [] n s = (n, None, s)"
| "stream_rows callback (Inl err # items) n s = (n, Some err, s)"
| "stream_rows callback (Inr item # items) n s =
     (case callback item s of
        (Some err, s') \<Rightarrow> (n, Some err, s')
      | (None, s') \<Rightarrow> stream_rows callback items (n + 1) s')"

definition StreamRows :: "'t connection \<Rightarrow> stream_config \<Rightarrow> ('t \<Rightarrow> 's \<Rightarrow> go_error option \<times> 's) \<Rightarrow> 's \<Rightarrow> int \<times> go_error option \<times> 's" where
  "StreamRows db config callback s =
     (case db (sc_TableName config) (sc_SelectFields config)
             (if sc_WhereCondition config \<noteq> [] then Some (sc_WhereCondition config, sc_WhereArgs config) else None) of
        Inl err \<Rightarrow> (0, Some err, s)
      | Inr (items, rows_err) \<Rightarrow>
          (case stream_rows callback items 0 s of
             (n, Some err, s') \<Rightarrow> (n, Some err, s')
           | (n, None, s') \<Rightarrow>
               (case rows_err of Some err \<Rightarrow> (n, Some err, s') | None \<Rightarrow> (n, None, s'))))"

definition GetAllWithStreaming :: "'t connection \<Rightarrow> stream_config \<Rightarrow> 't list result" where
  "GetAllWithStreaming db config =
     (case StreamRows db config (\<lambda>item items. (None, items @ [item])) [] of
        (n, Some err, items) \<Rightarrow> FailedResult err
      | (n, None, items) \<Rightarrow> SuccessResult items)"

definition GetAllBillableMetrics :: "billable_metric connection \<Rightarrow> billable_metric list result" where
  "GetAllBillableMetrics db = GetAllWithStreaming db
     \<lparr>sc_TableName = ''billable_metrics'',
      sc_SelectFields = [''id'', ''organization_id'', ''code'', ''aggregation_type'', ''field_name'', ''expression'',
        ''created_at'', ''updated_at''],
      sc_WhereCondition = ''deleted_at IS NULL'', sc_WhereArgs = [], sc_LogInterval = 50000\<rparr>"

definition pricing_group_keys_column :: string where
  "pricing_group_keys_column =
     ''properties->'' @ [CHR 0x27] @ ''pricing_group_keys'' @ [CHR 0x27] @ '' as pricing_group_keys''"

definition GetAllCharges :: "charge connection \<Rightarrow> charge list result" where
  "GetAllCharges db = GetAllWithStreaming db
     \<lparr>sc_TableName = ''charges'',
      sc_SelectFields = [''id'', ''organization_id'', ''plan_id'', ''billable_metric_id'', ''pay_in_advance'',
        ''accepts_target_wallet'', pricing_group_keys_column, ''created_at'', ''updated_at'', ''deleted_at''],
      sc_WhereCondition = ''deleted_at IS NULL'', sc_WhereArgs = [], sc_LogInterval = 50000\<rparr>"

definition GetAllBillableMetricFilters :: "billable_metric_filter connection \<Rightarrow> billable_metric_filter list result" where
  "GetAllBillableMetricFilters db = GetAllWithStreaming db
     \<lparr>sc_TableName = ''billable_metric_filters'',
      sc_SelectFields = [''id'', ''organization_id'', ''billable_metric_id'', ''key'', ''values'', ''created_at'',
        ''updated_at'', ''deleted_at''],
      sc_WhereCondition = ''deleted_at IS NULL'', sc_WhereArgs = [], sc_LogInterval = 10000\<rparr>"

definition GetAllChargeFilters :: "charge_filter connection \<Rightarrow> charge_filter list result" where
  "GetAllChargeFilters db = GetAllWithStreaming db
     \<lparr>sc_TableName = ''charge_filters'',
      sc_SelectFields = [''id'', ''organization_id'', ''charge_id'', pricing_group_keys_column, ''created_at'',
        ''updated_at'', ''deleted_at''],
      sc_WhereCondition = ''deleted_at IS NULL'', sc_WhereArgs = [], sc_LogInterval = 10000\<rparr>"

definition GetAllChargeFilterValues :: "charge_filter_value connection \<Rightarrow> charge_filter_value list result" where
  "GetAllChargeFilterValues db = GetAllWithStreaming db
     \<lparr>sc_TableName = ''charge_filter_values'',
      sc_SelectFields = [''id'', ''organization_id'', ''charge_filter_id'', ''billable_metric_filter_id'', ''values'',
        ''created_at'', ''updated_at'', ''deleted_at''],
      sc_WhereCondition = ''deleted_at IS NULL'', sc_WhereArgs = [], sc_LogInterval = 10000\<rparr>"

text \<open>
  \<open>t.AddDate(0, -1, 0)\<close>, in UTC: the day of the month is kept and runs over into the next month
  where the previous one is shorter.
\<close>

definition month_before :: "instant \<Rightarrow> instant" where
  "month_before t =
     (let (y, m, d) = civil_from_days (t div Second div 86400);
          days = (if m = 1 then days_from_civil (y - 1) 12 1 else days_from_civil y (m - 1) 1) + (d - 1)
      in days * 86400 * Second + t mod (86400 * Second))"

definition GetAllSubscriptions :: "instant \<Rightarrow> subscription connection \<Rightarrow> subscription list result" where
  "GetAllSubscriptions now db = GetAllWithStreaming db
     \<lparr>sc_TableName = ''subscriptions'',
      sc_SelectFields = [''id'', ''organization_id'', ''external_id'', ''plan_id'', ''created_at'', ''updated_at'',
        ''started_at'', ''terminated_at''],
      sc_WhereCondition = ''terminated_at IS NULL OR terminated_at >= ?'', sc_WhereArgs = [month_before now],
      sc_LogInterval = 50000\<rparr>"

section \<open>What the queries return\<close>

fun first_failure :: "(go_error + 't) list \<Rightarrow> go_error option" where
  "first_failure [] = None"
| "first_failure (Inl err # items) = Some err"
| "first_failure (Inr item # items) = first_failure items"

fun scanned :: "(go_error + 't) list \<Rightarrow> 't list" where
  "scanned (Inr item # items) = item # scanned items"
| "scanned items = []"

lemma stream_rows_append:
  "stream_rows (\<lambda>item items. (None, items @ [item])) items n acc =
     (n + int (length (scanned items)), first_failure items, acc @ scanned items)"
  by (induction items arbitrary: n acc rule: first_failure.induct) simp_all

lemma scanned_all: "first_failure items = None \<Longrightarrow> items = map Inr (scanned items)"
  by (induction items rule: first_failure.induct) simp_all

text \<open>All rows, or the first error; never a part of the rows.\<close>

definition all_rows :: "go_error + (go_error + 't) list \<times> go_error option \<Rightarrow> go_error + 't list" where
  "all_rows answer =
     (case answer of
        Inl err \<Rightarrow> Inl err
      | Inr (items, rows_err) \<Rightarrow>
          (case first_failure items of
             Some err \<Rightarrow> Inl err
           | None \<Rightarrow> (case rows_err of Some err \<Rightarrow> Inl err | None \<Rightarrow> Inr (scanned items))))"

lemma GetAllWithStreaming_rows:
  "GetAllWithStreaming db config =
     (case all_rows (db (sc_TableName config) (sc_SelectFields config)
             (if sc_WhereCondition config = [] then None else Some (sc_WhereCondition config, sc_WhereArgs config))) of
        Inl err \<Rightarrow> FailedResult err
      | Inr items \<Rightarrow> SuccessResult items)"
  by (simp add: GetAllWithStreaming_def StreamRows_def all_rows_def stream_rows_append split: sum.split prod.split option.split)

section \<open>What a flag is\<close>

lemma flag_bucket_div:
  assumes "0 \<le> now"
  shows "flag_bucket now = 10 * (now div 10)"
  using assms by (simp add: flag_bucket_def int_quot_def SUBSCRIPTION_BUCKET_DURATION_def)

lemma FlagStore_Flag_emits:
  "emits (FlagStore_Flag name v) es err \<longleftrightarrow>
     (\<exists>t. es = [(Now, RTime t),
        (ZAdd name (f64_of_int (t div Second)) (flag_member v (flag_bucket (t div Second))), RErr err)])"
  by (auto simp: FlagStore_Flag_def time_Now_def perform_def Let_def emits_bind emits_Do)

text \<open>
  \<open>Flagger\<close>, the interface of the store: a flag reads the clock, adds one member, and returns the
  error of that.
\<close>

locale flagger =
  fixes flag :: "string \<Rightarrow> go_error option io"
  assumes flag_adds: "emits (flag v) es err \<Longrightarrow>
    \<exists>t name score member. es = [(Now, RTime t), (ZAdd name score member, RErr err)]"

interpretation flag_store: flagger "FlagStore_Flag name"
  for name
  by unfold_locales (auto simp: FlagStore_Flag_emits)

lemma flag_member_inj:
  assumes "flag_member v b = flag_member v' b'" and "0 \<le> b" and "0 \<le> b'"
  shows "v = v' \<and> b = b'"
proof -
  have "CHR ''|'' \<notin> set (itoa n)" if "0 \<le> n" for n
  proof -
    have "list_all is_digit (itoa n)" using that by (simp add: itoa_def int_digits_all)
    then show ?thesis by (auto simp: list_all_iff is_digit_def)
  qed
  moreover have "v @ CHR ''|'' # itoa b = v' @ CHR ''|'' # itoa b'" using assms(1) by (simp add: flag_member_def)
  ultimately have "v = v' \<and> itoa b = itoa b'" using assms(2,3) by (intro split_last_sep) auto
  then show ?thesis by (auto dest: itoa_inj)
qed

text \<open>
  C27: Two flags share a member exactly when they are of the same subscription and within the same
  ten seconds, so a flag replaces the score of an earlier one only there; and the score stays below
  the end of the member's ten seconds, so that flags that keep coming cannot hold a member back.
\<close>
theorem FlagStore_Flag_buckets:
  assumes "emits (FlagStore_Flag name v) [(Now, RTime t), (ZAdd name s m, RErr e)] r"
    and "emits (FlagStore_Flag name v') [(Now, RTime t'), (ZAdd name s' m', RErr e')] r'"
    and "0 \<le> t" and "0 \<le> t'"
  shows "(m = m' \<longleftrightarrow> v = v' \<and> t div (10 * Second) = t' div (10 * Second)) \<and>
    (\<exists>n. s = f64_of_int n \<and> m = flag_member v (10 * (t div (10 * Second))) \<and>
       10 * (t div (10 * Second)) \<le> n \<and> n < 10 * (t div (10 * Second)) + 10)"
proof -
  have bucket: "flag_bucket (u div Second) = 10 * (u div (10 * Second))" if "0 \<le> u" for u
    using that by (simp add: flag_bucket_div Second_def pos_imp_zdiv_nonneg_iff zdiv_zmult2_eq [symmetric])
  have m: "m = flag_member v (10 * (t div (10 * Second)))" "s = f64_of_int (t div Second)"
      "m' = flag_member v' (10 * (t' div (10 * Second)))"
    using assms by (auto simp: FlagStore_Flag_emits bucket)
  have "0 \<le> t div (10 * Second)" "0 \<le> t' div (10 * Second)"
    using assms(3,4) by (simp_all add: Second_def pos_imp_zdiv_nonneg_iff)
  then have "m = m' \<longleftrightarrow> v = v' \<and> t div (10 * Second) = t' div (10 * Second)"
    using flag_member_inj [of v "10 * (t div (10 * Second))" v' "10 * (t' div (10 * Second))"] unfolding m by auto
  moreover have "10 * (t div (10 * Second)) \<le> t div Second \<and> t div Second < 10 * (t div (10 * Second)) + 10"
  proof -
    have "t div (10 * Second) = t div Second div 10"
      using zdiv_zmult2_eq [of 10 t Second] by (simp add: Second_def mult.commute)
    moreover have "10 * (n div 10) \<le> n \<and> n < 10 * (n div 10) + 10" for n :: int by presburger
    ultimately show ?thesis by simp
  qed
  ultimately show ?thesis using m(1,2) by blast
qed

lemma FlagStore_Flag_buckets_witness:
  "flag_member ''org:s1'' 1700000000 = flag_member ''org:s1'' 1700000000 \<and>
   emits (FlagStore_Flag ''refresh'' ''org:s1'') [(Now, RTime 1700000003000000000),
     (ZAdd ''refresh'' (f64_of_int 1700000003) (flag_member ''org:s1'' 1700000000), RErr None)] None \<and>
   flag_member ''org:s1'' 1700000000 \<noteq> flag_member ''org:s1'' 1700000010"
proof -
  have run: "emits (FlagStore_Flag ''refresh'' ''org:s1'') [(Now, RTime t),
      (ZAdd ''refresh'' (f64_of_int (t div Second)) (flag_member ''org:s1'' (flag_bucket (t div Second))), RErr None)] None" for t
    by (auto simp: FlagStore_Flag_emits)
  have eval: "1700000003000000000 div Second = 1700000003" "flag_bucket 1700000003 = 1700000000"
      "1700000012000000000 div Second = 1700000012" "flag_bucket 1700000012 = 1700000010"
    by (simp_all add: Second_def flag_bucket_div)
  note r = run [of 1700000003000000000] run [of 1700000012000000000]
  have "flag_member ''org:s1'' 1700000000 \<noteq> flag_member ''org:s1'' 1700000010"
    using FlagStore_Flag_buckets [OF r] by (simp add: eval) (simp add: Second_def)
  then show ?thesis using run [of 1700000003000000000] by (simp add: eval)
qed

section \<open>Which key expires\<close>

lemma format_datetime_chars:
  assumes "printable_time t" and "c \<in> set (format_datetime t)"
  shows "is_digit c \<or> c \<in> set ''-T:''"
proof -
  obtain y m d where civ: "civil_from_days (t div 1000000000 div 86400) = (y, m, d)" by (metis prod_cases3)
  have pad: "is_digit x" if "0 \<le> n" "x \<in> set (pad_int k n)" for n k x
    using that int_digits_all [of n]
    by (auto simp: pad_int_def zeros_def Let_def list_all_iff digit_char_0 [symmetric] set_replicate_conv_if split: if_splits)
  have "0 \<le> y" using assms(1) civ by (simp add: printable_time_def year_of_def)
  moreover have "0 \<le> m" "0 \<le> d" using civil_from_days_valid [OF civ] by simp_all
  ultimately show ?thesis
    using assms(2) by (auto simp: format_datetime_def Let_def civ dest!: pad [rotated])
qed

lemma format_RFC3339_no_slash: "printable_time t \<Longrightarrow> CHR ''/'' \<notin> set (format_RFC3339 t)"
  using format_datetime_chars [of t "CHR ''/''"] by (auto simp: format_RFC3339_def is_digit_def)

lemma format_RFC3339_inj:
  assumes "printable_time t" and "printable_time u"
  shows "format_RFC3339 t = format_RFC3339 u \<longleftrightarrow> Truncate Second t = Truncate Second u"
proof
  assume "format_RFC3339 t = format_RFC3339 u"
  then show "Truncate Second t = Truncate Second u"
    using parse_RFC3339_format assms by (metis option.inject)
next
  assume "Truncate Second t = Truncate Second u"
  then have "t div Second = u div Second" by (simp add: Truncate_def Second_def minus_mod_eq_mult_div)
  then show "format_RFC3339 t = format_RFC3339 u"
    by (simp add: format_RFC3339_def format_datetime_def Second_def)
qed

text \<open>The filter part of a key, with its update cut to the second.\<close>

definition filter_part :: "flat_filter \<Rightarrow> (string \<times> instant) option" where
  "filter_part ff = (case (ff_ChargeFilterID ff, ff_ChargeFilterUpdatedAt ff) of
     (Some ident, Some updated) \<Rightarrow> Some (ident, Truncate Second updated) | _ \<Rightarrow> None)"

text \<open>The identifiers hold no slash, and the dates are of years 0 to 9999.\<close>

definition cache_parts_ok :: "flat_filter \<Rightarrow> string \<Rightarrow> bool" where
  "cache_parts_ok ff subID \<longleftrightarrow> CHR ''/'' \<notin> set (ff_ChargeID ff) \<and> CHR ''/'' \<notin> set subID \<and>
     printable_time (ff_ChargeUpdatedAt ff) \<and>
     (case ff_ChargeFilterID ff of Some i \<Rightarrow> CHR ''/'' \<notin> set i | None \<Rightarrow> True) \<and>
     (case ff_ChargeFilterUpdatedAt ff of Some u \<Rightarrow> printable_time u | None \<Rightarrow> True)"

lemma charge_cache_parts_clean:
  "cache_parts_ok ff subID \<Longrightarrow> p \<in> set (charge_cache_parts ff subID) \<Longrightarrow> CHR ''/'' \<notin> set p"
  by (auto simp: charge_cache_parts_def cache_parts_ok_def CACHE_KEY_VERSION_def format_RFC3339_no_slash split: option.splits)

lemma charge_cache_parts_eq:
  assumes "cache_parts_ok ff sub" and "cache_parts_ok ff' sub'"
  shows "charge_cache_parts ff sub = charge_cache_parts ff' sub' \<longleftrightarrow>
    ff_ChargeID ff = ff_ChargeID ff' \<and> sub = sub' \<and>
    Truncate Second (ff_ChargeUpdatedAt ff) = Truncate Second (ff_ChargeUpdatedAt ff') \<and> filter_part ff = filter_part ff'"
  using assms by (auto simp: charge_cache_parts_def cache_parts_ok_def filter_part_def format_RFC3339_inj split: option.splits)

lemma CacheStore_ExpireKey_emits:
  "emits (CacheStore_ExpireKey key) es r \<longleftrightarrow>
     (\<exists>err. es = [(ExpireOp key EXPIRATION_TIME, RErr err)] \<and>
       r = (case err of Some e \<Rightarrow> FailedBoolResult e | None \<Rightarrow> SuccessResult True))"
proof -
  have "emits (case err of Some e \<Rightarrow> Return (FailedBoolResult e) | None \<Rightarrow> Return (SuccessResult True)) es' r \<longleftrightarrow>
      es' = [] \<and> r = (case err of Some e \<Rightarrow> FailedBoolResult e | None \<Rightarrow> SuccessResult True)" for err es'
    by (cases err) simp_all
  then show ?thesis by (auto simp: CacheStore_ExpireKey_def perform_def emits_bind emits_Do)
qed

lemma ChargeCache_Expire_emits:
  "emits (ChargeCache_Expire ff sub) es r \<longleftrightarrow>
     (\<exists>err. es = [(ExpireOp (join_with ''/'' (charge_cache_parts ff sub)) EXPIRATION_TIME, RErr err)] \<and>
       r = (case err of Some e \<Rightarrow> FailedBoolResult e | None \<Rightarrow> SuccessResult True))"
  by (simp add: ChargeCache_Expire_def CacheStore_ExpireKey_emits)

text \<open>
  C28: An expiration asks for ten seconds, and addresses the usage of one subscription under one
  version of one charge and filter: two expirations have the same key only if charge, subscription,
  filter and the dates of their last change, to the second, agree.
\<close>
theorem ChargeCache_Expire_key:
  assumes "cache_parts_ok ff sub" and "cache_parts_ok ff' sub'"
    and "emits (ChargeCache_Expire ff sub) [(ExpireOp k ttl, RErr e)] r"
    and "emits (ChargeCache_Expire ff' sub') [(ExpireOp k' ttl', RErr e')] r'"
  shows "ttl = 10 * Second \<and>
    (k = k' \<longleftrightarrow> ff_ChargeID ff = ff_ChargeID ff' \<and> sub = sub' \<and>
       Truncate Second (ff_ChargeUpdatedAt ff) = Truncate Second (ff_ChargeUpdatedAt ff') \<and> filter_part ff = filter_part ff')"
proof -
  let ?ps = "charge_cache_parts ff sub" and ?qs = "charge_cache_parts ff' sub'"
  have k: "k = join_with ''/'' ?ps" "k' = join_with ''/'' ?qs" "ttl = EXPIRATION_TIME"
    using assms(3,4) by (auto simp: ChargeCache_Expire_emits)
  have "split_on (CHR ''/'') k = ?ps" unfolding k(1)
    by (rule split_on_join) (use assms(1) charge_cache_parts_clean in \<open>auto simp: charge_cache_parts_def\<close>)
  moreover have "split_on (CHR ''/'') k' = ?qs" unfolding k(2)
    by (rule split_on_join) (use assms(2) charge_cache_parts_clean in \<open>auto simp: charge_cache_parts_def\<close>)
  ultimately have "k = k' \<longleftrightarrow> ?ps = ?qs" using k(1,2) by metis
  then show ?thesis using k(3) charge_cache_parts_eq [OF assms(1,2)] by (simp add: EXPIRATION_TIME_def)
qed

lemma ChargeCache_Expire_key_witness:
  "join_with ''/'' (charge_cache_parts (sample_filter ''cf'' []) ''s1'') \<noteq> join_with ''/'' (charge_cache_parts (sample_filter ''cf'' []) ''s2'')"
proof -
  let ?k = "\<lambda>s. join_with ''/'' (charge_cache_parts (sample_filter ''cf'' []) s)"
  have run: "emits (ChargeCache_Expire (sample_filter ''cf'' []) s) [(ExpireOp (?k s) EXPIRATION_TIME, RErr None)] (SuccessResult True)" for s
    by (auto simp: ChargeCache_Expire_emits)
  have ok: "cache_parts_ok (sample_filter ''cf'' []) ''s1''" "cache_parts_ok (sample_filter ''cf'' []) ''s2''"
    by code_simp+
  show ?thesis using ChargeCache_Expire_key [OF ok run run] by simp
qed

end
