(* ===== verification/Enrichment.thy ===== *)
theory Enrichment
  imports Stores Cache_Flat
begin

text \<open>
  processors/events_processor/enrichment_service.go, and the error results of processor.go: an event
  is joined with its billable metric, its subscription and its charges, from the cache when there
  is one and from the API store otherwise.

  Parameters: the expression evaluator of lago-expression, and the order in which Go ranges over
  the map of charges. The three reads of one event may see three states of the cache or of the
  database, which other goroutines change.
\<close>

section \<open>Failed results\<close>

definition failedResult :: "'r result \<Rightarrow> string \<Rightarrow> string \<Rightarrow> enriched_event result" where
  "failedResult r code message =
     (AddErrorDetails code message (FailedResult_err (Error r)))\<lparr>Retryable := IsRetryable r, Capture := IsCapturable r\<rparr>"

definition failedMultiEventsResult :: "'r result \<Rightarrow> string \<Rightarrow> string \<Rightarrow> enriched_event list result" where
  "failedMultiEventsResult r code message =
     (AddErrorDetails code message (FailedResult_err (Error r)))\<lparr>Retryable := IsRetryable r, Capture := IsCapturable r\<rparr>"

definition toMultiEventsResult :: "enriched_event result \<Rightarrow> enriched_event list result" where
  "toMultiEventsResult r = failedMultiEventsResult r (ErrorCode r) (ErrorMessage r)"

section \<open>The service\<close>

datatype stage = MetricRead | SubscriptionRead | FiltersRead

record 'db enrichment_service =
  es_apiStore :: "stage \<Rightarrow> api_store"
  es_memCache :: "('db badger \<times> (stage \<Rightarrow> 'db)) option"
  es_Evaluate :: "string \<Rightarrow> string \<Rightarrow> string option"
  es_range :: "(string \<times> flat_filter list) list \<Rightarrow> (string \<times> flat_filter list) list"

definition find_metric :: "'db enrichment_service \<Rightarrow> string \<Rightarrow> string \<Rightarrow> billable_metric result" where
  "find_metric s org code =
     (case es_memCache s of
        Some (B, db) \<Rightarrow> GetBillableMetric B org code (db MetricRead)
      | None \<Rightarrow> FetchBillableMetric (es_apiStore s MetricRead) org code)"

definition find_subscription :: "'db enrichment_service \<Rightarrow> string \<Rightarrow> string \<Rightarrow> instant \<Rightarrow> subscription result" where
  "find_subscription s org externalID t =
     (case es_memCache s of
        Some (B, db) \<Rightarrow> SearchSubscriptions B org externalID t (db SubscriptionRead)
      | None \<Rightarrow> FetchSubscription (es_apiStore s SubscriptionRead) org externalID t)"

definition find_filters :: "'db enrichment_service \<Rightarrow> string \<Rightarrow> string \<Rightarrow> string \<Rightarrow> flat_filter list result" where
  "find_filters s org code plan =
     (case es_memCache s of
        Some (B, db) \<Rightarrow> BuildFlatFilters B org code plan (db FiltersRead)
      | None \<Rightarrow> FetchFlatFilters (es_apiStore s FiltersRead) org plan code)"

section \<open>The metric\<close>

definition marshal_error :: go_error where
  "marshal_error = ErrMsg ''json: unsupported value''"

definition expression_error :: "string \<Rightarrow> string \<Rightarrow> go_error" where
  "expression_error expr text = ErrMsg (''failed to evaluate expr: '' @ expr @ '' with json: '' @ text)"

text \<open>The event after the call, with its result.\<close>

definition evaluateExpression :: "'db enrichment_service \<Rightarrow> enriched_event \<Rightarrow> billable_metric \<Rightarrow> (enriched_event \<times> bool result) go" where
  "evaluateExpression s ev bm =
     (if bm_Expression bm = [] then Ret (ev, SuccessResult False)
      else case encode_enriched_event ev of
        None \<Rightarrow> Ret (ev, NonRetryable (FailedBoolResult marshal_error))
      | Some eventJson \<Rightarrow>
          (let eventJsonString = json_text eventJson in
           case es_Evaluate s (bm_Expression bm) eventJsonString of
             Some res \<Rightarrow> go_bind (set_property (bm_FieldName bm) (AStr res) ev) (\<lambda>ev'. Ret (ev', SuccessResult True))
           | None \<Rightarrow> Ret (ev, NonRetryable (FailedBoolResult (expression_error (bm_Expression bm) eventJsonString)))))"

definition metric_value :: "enriched_event \<Rightarrow> billable_metric \<Rightarrow> string" where
  "metric_value ev bm =
     (if bm_AggregationType bm = AggregationTypeCount then ''1''
      else sprintf_v (property (ee_Properties ev) (bm_FieldName bm)))"

definition enrichWithBillableMetric :: "'db enrichment_service \<Rightarrow> enriched_event \<Rightarrow> billable_metric \<Rightarrow>
    (enriched_event \<times> enriched_event result) go" where
  "enrichWithBillableMetric s enrichedEvent bm =
     (let ev = enrichedEvent\<lparr>ee_BillableMetric := Some bm, ee_AggregationType := AggregationType_String (bm_AggregationType bm)\<rparr> in
      go_bind (if ee_Source ev \<noteq> HTTP_RUBY then evaluateExpression s ev bm else Ret (ev, SuccessResult False))
        (\<lambda>(ev', expressionResult).
           if Failure expressionResult
           then Ret (ev', failedResult expressionResult ''evaluate_expression'' ''Error evaluating custom expression'')
           else let ev'' = ev'\<lparr>ee_Value := Some (metric_value ev' bm)\<rparr> in Ret (ev'', SuccessResult ev'')))"

section \<open>The subscription\<close>

definition enrichWithSubscription :: "enriched_event \<Rightarrow> subscription \<Rightarrow> enriched_event" where
  "enrichWithSubscription enrichedEvent sub =
     enrichedEvent\<lparr>ee_Subscription := Some sub, ee_SubscriptionID := sub_ID sub, ee_PlanID := sub_PlanID sub\<rparr>"

section \<open>The charges\<close>

definition group_value :: "properties \<Rightarrow> string \<Rightarrow> string" where
  "group_value p key = (if property p key \<noteq> ANil then sprintf_v (property p key) else [])"

definition enrichWithPricingGroupKeys :: "enriched_event \<Rightarrow> enriched_event" where
  "enrichWithPricingGroupKeys event =
     (case ee_FlatFilter event of
        None \<Rightarrow> event
      | Some ff \<Rightarrow>
          (let ev1 = (case ff_PricingGroupKeys ff of
                 None \<Rightarrow> event
               | Some keys \<Rightarrow> event\<lparr>ee_GroupedBy :=
                   fold (\<lambda>key m. AList.update key (group_value (ee_Properties event) key) m) keys (ee_GroupedBy event)\<rparr>);
               raw = property (ee_Properties ev1) TARGET_WALLET_CODE
           in if ff_AcceptsTargetWallet ff \<and> has_property (ee_Properties ev1) TARGET_WALLET_CODE \<and> raw \<noteq> ANil
              then ev1\<lparr>ee_GroupedBy := AList.update TARGET_WALLET_CODE (sprintf_v raw) (ee_GroupedBy ev1),
                       ee_TargetWalletCode := Some (sprintf_v raw)\<rparr>
              else ev1))"

text \<open>The map of the filters by charge, as the association list in order of first appearance.\<close>

definition index_by_charge :: "flat_filter list \<Rightarrow> (string \<times> flat_filter list) list" where
  "index_by_charge filters =
     fold (\<lambda>ff m. AList.update (ff_ChargeID ff) (get_or [] (map_of m (ff_ChargeID ff)) @ [ff]) m) filters []"

definition charge_event :: "enriched_event \<Rightarrow> flat_filter \<Rightarrow> enriched_event" where
  "charge_event enrichedEvent ff =
     enrichWithPricingGroupKeys (enrichedEvent\<lparr>ee_GroupedBy := [], ee_FlatFilter := Some ff,
       ee_ChargeID := Some (ff_ChargeID ff), ee_ChargeUpdatedAt := Some (ff_ChargeUpdatedAt ff),
       ee_ChargeFilterID := ff_ChargeFilterID ff, ee_ChargeFilterUpdatedAt := ff_ChargeFilterUpdatedAt ff\<rparr>)"

fun charge_events :: "enriched_event \<Rightarrow> (string \<times> flat_filter list) list \<Rightarrow> enriched_event list go" where
  "charge_events enrichedEvent [] = Ret []"
| "charge_events enrichedEvent ((_, chargeFilters) # charges) =
     go_bind (MatchingFilter chargeFilters enrichedEvent) (\<lambda>ff.
     go_bind (charge_events enrichedEvent charges) (\<lambda>evs. Ret (charge_event enrichedEvent ff # evs)))"

definition enrichWithChargeInfo :: "'db enrichment_service \<Rightarrow> enriched_event \<Rightarrow> enriched_event list result go" where
  "enrichWithChargeInfo s enrichedEvent =
     (if ee_Subscription enrichedEvent = None then Ret (SuccessResult [enrichedEvent])
      else let filtersResult = find_filters s (ee_OrganizationID enrichedEvent) (ee_Code enrichedEvent) (ee_PlanID enrichedEvent) in
        if Failure filtersResult then Ret (FailedResult_err (Error filtersResult))
        else let filters = get_or [] (Value filtersResult) in
          if filters = [] then Ret (SuccessResult [enrichedEvent])
          else go_bind (charge_events enrichedEvent (es_range s (index_by_charge filters))) (\<lambda>evs. Ret (SuccessResult evs)))"

section \<open>EnrichEvent\<close>

text \<open>The steps after the metric, and the whole; with the event as the evaluation left it.\<close>

definition enrich_customer :: "'db enrichment_service \<Rightarrow> event \<Rightarrow> enriched_event \<Rightarrow> (event \<times> enriched_event list result) go" where
  "enrich_customer s event enrichedEvent =
     (let event' = ee_InitialEvent enrichedEvent;
          subResult = find_subscription s (ev_OrganizationID event) (ev_ExternalSubscriptionID event) (ee_Time enrichedEvent) in
      if Failure subResult \<and> IsCapturable subResult
      then Ret (event', failedMultiEventsResult subResult ''fetch_subscription'' ''Error fetching subscription'')
      else let sub = (if Failure subResult then None else Value subResult);
               withSub = (case sub of None \<Rightarrow> enrichedEvent | Some x \<Rightarrow> enrichWithSubscription enrichedEvent x)
           in go_bind (enrichWithChargeInfo s withSub) (\<lambda>res. Ret (event', res)))"

definition EnrichEvent :: "'db enrichment_service \<Rightarrow> event \<Rightarrow> (event \<times> enriched_event list result) go" where
  "EnrichEvent s event =
     (let enrichedEventResult = ToEnrichedEvent event in
      if Failure enrichedEventResult
      then Ret (event, failedMultiEventsResult enrichedEventResult ''build_enriched_event'' ''Error while converting event to enriched event'')
      else let enrichedEvent = get_or (new_enriched_event event) (Value enrichedEventResult);
               bmResult = find_metric s (ev_OrganizationID event) (ev_Code event) in
        if Failure bmResult
        then Ret (event, failedMultiEventsResult bmResult ''fetch_billable_metric'' ''Error fetching billable metric'')
        else case Value bmResult of
          None \<Rightarrow> enrich_customer s event enrichedEvent
        | Some bm \<Rightarrow>
            go_bind (enrichWithBillableMetric s enrichedEvent bm) (\<lambda>(ev, enrichBmResult).
              if Failure enrichBmResult then Ret (ee_InitialEvent ev, toMultiEventsResult enrichBmResult)
              else enrich_customer s event ev))"

section \<open>Facts about the steps\<close>

lemma failed_results [simp]:
  "Error (failedResult r c m) = Error r" "Error (failedMultiEventsResult r c m) = Error r"
  "IsRetryable (failedResult r c m) = IsRetryable r" "IsRetryable (failedMultiEventsResult r c m) = IsRetryable r"
  "IsCapturable (failedResult r c m) = IsCapturable r" "IsCapturable (failedMultiEventsResult r c m) = IsCapturable r"
  "ErrorCode (failedResult r c m) = c" "ErrorCode (failedMultiEventsResult r c m) = c"
  "ErrorMessage (failedResult r c m) = m" "ErrorMessage (failedMultiEventsResult r c m) = m"
  "Success (failedResult r c m) = Success r" "Success (failedMultiEventsResult r c m) = Success r"
  by (simp_all add: failedResult_def failedMultiEventsResult_def go_simps)

lemma toMultiEventsResult_simps [simp]:
  "Success (toMultiEventsResult r) = Success r" "IsRetryable (toMultiEventsResult r) = IsRetryable r"
  "Error (toMultiEventsResult r) = Error r"
  by (simp_all add: toMultiEventsResult_def)

text \<open>The evaluation only touches the property named by the metric.\<close>

lemma evaluateExpression_keeps:
  assumes "evaluateExpression s ev bm = Ret (ev', r)"
  shows "ev' = ev \<or> (\<exists>p. ev' = ev\<lparr>ee_Properties := p, ee_InitialEvent := (ee_InitialEvent ev)\<lparr>ev_Properties := p\<rparr>\<rparr>)"
  using assms
  by (auto simp: evaluateExpression_def set_property_def Let_def split: if_splits option.splits)

lemma pricing_keys_keep:
  "ee_ChargeID (enrichWithPricingGroupKeys e) = ee_ChargeID e" "ee_FlatFilter (enrichWithPricingGroupKeys e) = ee_FlatFilter e"
  "ee_Subscription (enrichWithPricingGroupKeys e) = ee_Subscription e" "ee_InitialEvent (enrichWithPricingGroupKeys e) = ee_InitialEvent e"
  "ee_OrganizationID (enrichWithPricingGroupKeys e) = ee_OrganizationID e" "ee_TransactionID (enrichWithPricingGroupKeys e) = ee_TransactionID e"
  "ee_SubscriptionID (enrichWithPricingGroupKeys e) = ee_SubscriptionID e" "ee_Value (enrichWithPricingGroupKeys e) = ee_Value e"
  "ee_Properties (enrichWithPricingGroupKeys e) = ee_Properties e"
  by (simp_all add: enrichWithPricingGroupKeys_def Let_def split: option.split)

lemma charge_event_simps [simp]:
  "ee_ChargeID (charge_event e ff) = Some (ff_ChargeID ff)" "ee_FlatFilter (charge_event e ff) = Some ff"
  "ee_Subscription (charge_event e ff) = ee_Subscription e" "ee_InitialEvent (charge_event e ff) = ee_InitialEvent e"
  "ee_OrganizationID (charge_event e ff) = ee_OrganizationID e" "ee_TransactionID (charge_event e ff) = ee_TransactionID e"
  "ee_SubscriptionID (charge_event e ff) = ee_SubscriptionID e" "ee_Value (charge_event e ff) = ee_Value e"
  "ee_Properties (charge_event e ff) = ee_Properties e"
  by (simp_all add: charge_event_def pricing_keys_keep)

section \<open>Filters by charge\<close>

definition of_charge :: "string \<Rightarrow> flat_filter list \<Rightarrow> flat_filter list" where
  "of_charge k filters = filter (\<lambda>ff. ff_ChargeID ff = k) filters"

lemma index_by_charge_snoc:
  "index_by_charge (fs @ [f]) =
     AList.update (ff_ChargeID f) (get_or [] (map_of (index_by_charge fs) (ff_ChargeID f)) @ [f]) (index_by_charge fs)"
  by (simp add: index_by_charge_def)

lemma index_by_charge_lookup:
  "map_of (index_by_charge fs) k = (if of_charge k fs = [] then None else Some (of_charge k fs))"
proof (induction fs rule: rev_induct)
  case (snoc f fs)
  show ?case
  proof (cases "ff_ChargeID f = k")
    case True
    then show ?thesis using snoc by (simp add: index_by_charge_snoc update_conv' of_charge_def)
  next
    case False
    then show ?thesis using snoc by (simp add: index_by_charge_snoc update_conv' of_charge_def)
  qed
qed (simp add: index_by_charge_def of_charge_def)

lemma index_by_charge_distinct: "distinct (map fst (index_by_charge fs))"
  by (induction fs rule: rev_induct) (simp_all add: index_by_charge_snoc distinct_update, simp add: index_by_charge_def)

lemma index_by_charge_entry:
  assumes "(k, g) \<in> set (index_by_charge fs)"
  shows "g = of_charge k fs \<and> g \<noteq> []"
  using map_of_is_SomeI [OF index_by_charge_distinct assms] by (simp add: index_by_charge_lookup split: if_splits)

lemma index_by_charge_keys: "fst ` set (index_by_charge fs) = ff_ChargeID ` set fs"
proof (rule set_eqI)
  fix k
  have "k \<in> fst ` set (index_by_charge fs) \<longleftrightarrow> map_of (index_by_charge fs) k \<noteq> None"
    by (metis map_of_eq_None_iff)
  also have "\<dots> \<longleftrightarrow> of_charge k fs \<noteq> []" by (simp add: index_by_charge_lookup)
  also have "\<dots> \<longleftrightarrow> k \<in> ff_ChargeID ` set fs" by (auto simp: of_charge_def filter_empty_conv)
  finally show "k \<in> fst ` set (index_by_charge fs) \<longleftrightarrow> k \<in> ff_ChargeID ` set fs" .
qed

text \<open>One event per charge, made from the filter that matches.\<close>

lemma charge_events_entries:
  assumes "\<forall>(k, g) \<in> set cs. g \<noteq> [] \<and> (\<forall>ff \<in> set g. ff_ChargeID ff = k)"
  shows "\<exists>evs. charge_events e cs = Ret evs \<and> map ee_ChargeID evs = map (\<lambda>c. Some (fst c)) cs \<and>
    list_all2 (\<lambda>(k, g) ev. \<exists>ff. MatchingFilter g e = Ret ff \<and> ev = charge_event e ff) cs evs"
  using assms
proof (induction cs)
  case (Cons c cs)
  obtain k g where c: "c = (k, g)" by fastforce
  have g: "g \<noteq> []" "\<forall>ff \<in> set g. ff_ChargeID ff = k" using Cons.prems c by auto
  obtain ff where ff: "MatchingFilter g e = Ret ff"
      "if filter (accepts e) g = [] then ff = ToDefaultFilter (hd g) else best_match e g ff"
    using MatchingFilter_selects [OF g(1), of e] by auto
  have id: "ff_ChargeID ff = k"
  proof (cases "filter (accepts e) g = []")
    case True
    then show ?thesis using ff(2) g by (simp add: ToDefaultFilter_def)
  next
    case False
    then show ?thesis using ff(2) g(2) best_match_in [of e g ff] by simp
  qed
  obtain evs where evs: "charge_events e cs = Ret evs" "map ee_ChargeID evs = map (\<lambda>c. Some (fst c)) cs"
      "list_all2 (\<lambda>(k, g) ev. \<exists>ff. MatchingFilter g e = Ret ff \<and> ev = charge_event e ff) cs evs"
    using Cons by auto
  show ?case using ff(1) id evs by (simp add: c)
qed simp

lemma charge_events_indexed:
  assumes "mset (order (index_by_charge fs)) = mset (index_by_charge fs)"
  shows "\<exists>evs. charge_events e (order (index_by_charge fs)) = Ret evs \<and> distinct (map ee_ChargeID evs) \<and>
    set (map ee_ChargeID evs) = (\<lambda>ff. Some (ff_ChargeID ff)) ` set fs \<and> length evs = length (index_by_charge fs) \<and>
    (\<forall>ev \<in> set evs. \<exists>k ff. MatchingFilter (of_charge k fs) e = Ret ff \<and> ff_ChargeID ff = k \<and> ev = charge_event e ff)"
proof -
  let ?cs = "order (index_by_charge fs)"
  have set: "set ?cs = set (index_by_charge fs)" using assms by (rule mset_eq_setD)
  have ok: "g = of_charge k fs \<and> g \<noteq> []" if "(k, g) \<in> set ?cs" for k g
    using that index_by_charge_entry unfolding set by blast
  then have "\<forall>(k, g) \<in> set ?cs. g \<noteq> [] \<and> (\<forall>ff \<in> set g. ff_ChargeID ff = k)" by (fastforce simp: of_charge_def)
  then obtain evs where evs: "charge_events e ?cs = Ret evs" "map ee_ChargeID evs = map (\<lambda>c. Some (fst c)) ?cs"
      "list_all2 (\<lambda>(k, g) ev. \<exists>ff. MatchingFilter g e = Ret ff \<and> ev = charge_event e ff) ?cs evs"
    using charge_events_entries [of ?cs e] by blast
  have "distinct (map fst ?cs)"
    using index_by_charge_distinct [of fs] assms by (metis mset_map mset_eq_imp_distinct_iff)
  then have d: "distinct (map ee_ChargeID evs)" unfolding evs(2)
    by (auto simp: distinct_map inj_on_def)
  have "set (map ee_ChargeID evs) = Some ` fst ` set (index_by_charge fs)"
    unfolding evs(2) by (simp add: set image_image)
  then have s: "set (map ee_ChargeID evs) = (\<lambda>ff. Some (ff_ChargeID ff)) ` set fs"
    by (simp add: index_by_charge_keys image_image)
  have "length ?cs = length (index_by_charge fs)" using assms by (metis size_mset)
  then have l: "length evs = length (index_by_charge fs)" using evs(3) by (simp add: list_all2_lengthD [symmetric])
  have m: "\<exists>k ff. MatchingFilter (of_charge k fs) e = Ret ff \<and> ff_ChargeID ff = k \<and> ev = charge_event e ff"
    if ev: "ev \<in> set evs" for ev
  proof -
    obtain i where i: "i < length evs" "ev = evs ! i" using ev by (auto simp: in_set_conv_nth)
    have ic: "i < length ?cs" using i(1) evs(3) by (simp add: list_all2_lengthD)
    obtain k g where c: "?cs ! i = (k, g)" by fastforce
    then have g: "g = of_charge k fs" using ok nth_mem [OF ic] by metis
    obtain ff where ff: "MatchingFilter g e = Ret ff" "ev = charge_event e ff"
      using list_all2_nthD2 [OF evs(3) i(1)] c i(2) by auto
    have "ee_ChargeID ev = Some k"
      using arg_cong [OF evs(2), of "\<lambda>xs. xs ! i"] i ic c by simp
    then show ?thesis using ff g by auto
  qed
  show ?thesis using evs(1) d s l m by blast
qed

section \<open>The event before its charges\<close>

text \<open>
  What holds of an enriched event up to the charges: its identifiers and its time are the event's,
  the event it was made from shares its properties, and no charge is set.
\<close>

definition base_of :: "event \<Rightarrow> enriched_event \<Rightarrow> bool" where
  "base_of ev e \<longleftrightarrow> ee_OrganizationID e = ev_OrganizationID ev \<and>
     ee_ExternalSubscriptionID e = ev_ExternalSubscriptionID ev \<and> ee_TransactionID e = ev_TransactionID ev \<and>
     ee_Code e = ev_Code ev \<and> ee_Source e = ev_Source ev \<and> ee_Timestamp e = get_or (Fin 0 0) (Value (ToFloat64Timestamp (ev_Timestamp ev))) \<and>
     ToTime (ev_Timestamp ev) = SuccessResult (ee_Time e) \<and> ee_InitialEvent e = ev\<lparr>ev_Properties := ee_Properties e\<rparr> \<and>
     ee_ChargeID e = None \<and> ee_FlatFilter e = None \<and> ee_GroupedBy e = []"

lemma event_same_properties [simp]: "ev\<lparr>ev_Properties := ev_Properties ev\<rparr> = ev"
  by (cases ev) simp

definition start_event :: "event \<Rightarrow> enriched_event" where
  "start_event ev = get_or (new_enriched_event ev) (Value (ToEnrichedEvent ev))"

lemma base_of_start:
  assumes "Success (ToEnrichedEvent ev)"
  shows "base_of ev (start_event ev) \<and> ee_Subscription (start_event ev) = None \<and> ee_Properties (start_event ev) = ev_Properties ev"
proof -
  obtain t ts where t: "ToTime (ev_Timestamp ev) = SuccessResult t" "ToFloat64Timestamp (ev_Timestamp ev) = SuccessResult ts"
      "ToEnrichedEvent ev = SuccessResult ((new_enriched_event ev)\<lparr>ee_Timestamp := ts, ee_TimestampStr := fmt_f6 ts, ee_Time := t\<rparr>)"
    using ToEnrichedEvent_cases [of ev] assms by (elim disjE exE conjE) simp_all
  show ?thesis by (simp add: base_of_def start_event_def t new_enriched_event_def)
qed

lemma base_of_metric:
  assumes "base_of ev e" and "enrichWithBillableMetric s e bm = Ret (e', r)"
  shows "base_of ev e' \<and> ee_Subscription e' = ee_Subscription e \<and>
    (Success r \<longrightarrow> r = SuccessResult e' \<and> ee_BillableMetric e' = Some bm \<and> ee_Value e' = Some (metric_value e' bm))"
proof -
  let ?e = "e\<lparr>ee_BillableMetric := Some bm, ee_AggregationType := AggregationType_String (bm_AggregationType bm)\<rparr>"
  let ?M = "if ee_Source ?e \<noteq> HTTP_RUBY then evaluateExpression s ?e bm else Ret (?e, SuccessResult False)"
  obtain p where p: "?M = Ret p"
      "(case p of (ev', er) \<Rightarrow> if Failure er then Ret (ev', failedResult er ''evaluate_expression'' ''Error evaluating custom expression'')
        else let ev'' = ev'\<lparr>ee_Value := Some (metric_value ev' bm)\<rparr> in Ret (ev'', SuccessResult ev'')) = Ret (e', r)"
    using assms(2) unfolding enrichWithBillableMetric_def Let_def [of ?e] go_bind_Ret_iff by blast
  obtain e1 er where pair: "p = (e1, er)" by fastforce
  have e1: "?M = Ret (e1, er)" using p(1) pair by simp
  have r: "(e', r) = (if Failure er then (e1, failedResult er ''evaluate_expression'' ''Error evaluating custom expression'')
        else (e1\<lparr>ee_Value := Some (metric_value e1 bm)\<rparr>, SuccessResult (e1\<lparr>ee_Value := Some (metric_value e1 bm)\<rparr>)))"
    using p(2) unfolding pair Let_def by (cases "Success er") auto
  have base: "base_of ev ?e" using assms(1) by (simp add: base_of_def)
  have "e1 = ?e \<or> (\<exists>p. e1 = ?e\<lparr>ee_Properties := p, ee_InitialEvent := (ee_InitialEvent ?e)\<lparr>ev_Properties := p\<rparr>\<rparr>)"
    using e1 evaluateExpression_keeps [of s ?e bm e1 er] by (simp split: if_splits)
  then have keep: "base_of ev e1 \<and> ee_Subscription e1 = ee_Subscription e \<and> ee_BillableMetric e1 = Some bm"
  proof
    assume "e1 = ?e"
    with base show ?thesis by simp
  next
    assume "\<exists>p. e1 = ?e\<lparr>ee_Properties := p, ee_InitialEvent := (ee_InitialEvent ?e)\<lparr>ev_Properties := p\<rparr>\<rparr>"
    then obtain p where "e1 = ?e\<lparr>ee_Properties := p, ee_InitialEvent := (ee_InitialEvent ?e)\<lparr>ev_Properties := p\<rparr>\<rparr>" ..
    with assms(1) show ?thesis by (simp add: base_of_def)
  qed
  have "base_of ev (e1\<lparr>ee_Value := v\<rparr>)" for v using keep by (simp add: base_of_def)
  moreover have "metric_value (e1\<lparr>ee_Value := v\<rparr>) bm = metric_value e1 bm" for v by (simp add: metric_value_def)
  ultimately show ?thesis using r keep by (cases "Success er") simp_all
qed

text \<open>A run of \<open>EnrichEvent\<close> that gets to the subscription.\<close>

lemma EnrichEvent_cases:
  assumes "EnrichEvent s ev = Ret (ev', r)"
  obtains (invalid) "\<not> Success (ToEnrichedEvent ev)" "ev' = ev"
      "r = failedMultiEventsResult (ToEnrichedEvent ev) ''build_enriched_event'' ''Error while converting event to enriched event''"
  | (metric) "\<not> Success (find_metric s (ev_OrganizationID ev) (ev_Code ev))" "ev' = ev"
      "r = failedMultiEventsResult (find_metric s (ev_OrganizationID ev) (ev_Code ev)) ''fetch_billable_metric'' ''Error fetching billable metric''"
  | (expression) e bm er where "Value (find_metric s (ev_OrganizationID ev) (ev_Code ev)) = Some bm" "base_of ev e"
      "enrichWithBillableMetric s (start_event ev) bm = Ret (e, er)" "\<not> Success er" "r = toMultiEventsResult er" "ev' = ee_InitialEvent e"
  | (customer) e where "base_of ev e" "ee_Subscription e = None" "enrich_customer s ev e = Ret (ev', r)"
proof (cases "Success (ToEnrichedEvent ev)")
  case False
  with assms have "ev' = ev" "r = failedMultiEventsResult (ToEnrichedEvent ev) ''build_enriched_event'' ''Error while converting event to enriched event''"
    by (auto simp: EnrichEvent_def Let_def)
  with False show thesis by (rule invalid)
next
  case ok: True
  note start = base_of_start [OF ok]
  note unfold = assms [unfolded EnrichEvent_def Let_def, folded start_event_def]
  show thesis
  proof (cases "Success (find_metric s (ev_OrganizationID ev) (ev_Code ev))")
    case False
    with ok unfold have "ev' = ev" "r = failedMultiEventsResult (find_metric s (ev_OrganizationID ev) (ev_Code ev)) ''fetch_billable_metric'' ''Error fetching billable metric''"
      by auto
    with False show thesis by (rule metric)
  next
    case True
    show thesis
    proof (cases "Value (find_metric s (ev_OrganizationID ev) (ev_Code ev))")
      case None
      with ok True unfold have "enrich_customer s ev (start_event ev) = Ret (ev', r)" by simp
      then show thesis using start by (intro customer) simp_all
    next
      case (Some bm)
      obtain e er where e: "enrichWithBillableMetric s (start_event ev) bm = Ret (e, er)"
          and rest: "(if Failure er then Ret (ee_InitialEvent e, toMultiEventsResult er) else enrich_customer s ev e) = Ret (ev', r)"
        using unfold ok True Some by (auto simp: go_bind_Ret_iff)
      have base: "base_of ev e" "ee_Subscription e = None"
        using base_of_metric [OF conjunct1 [OF start] e] start by simp_all
      show thesis
      proof (cases "Success er")
        case True
        with rest have "enrich_customer s ev e = Ret (ev', r)" by simp
        with base show thesis by (rule customer)
      next
        case False
        with rest have "r = toMultiEventsResult er" "ev' = ee_InitialEvent e" by simp_all
        with Some base(1) e False show thesis by (rule expression)
      qed
    qed
  qed
qed

section \<open>What EnrichEvent returns\<close>

text \<open>The customer and the charges.\<close>

definition charged :: "'db enrichment_service \<Rightarrow> event \<Rightarrow> enriched_event \<Rightarrow> enriched_event list \<Rightarrow> bool" where
  "charged s ev base evs \<longleftrightarrow>
     (\<exists>sub filters. Value (find_subscription s (ev_OrganizationID ev) (ev_ExternalSubscriptionID ev) (ee_Time base)) = Some sub \<and>
        ee_Subscription base = Some sub \<and> ee_SubscriptionID base = sub_ID sub \<and>
        Value (find_filters s (ev_OrganizationID ev) (ev_Code ev) (sub_PlanID sub)) = Some filters \<and> filters \<noteq> [] \<and>
        distinct (map ee_ChargeID evs) \<and> set (map ee_ChargeID evs) = (\<lambda>ff. Some (ff_ChargeID ff)) ` set filters \<and>
        (\<forall>x \<in> set evs. \<exists>k ff. MatchingFilter (of_charge k filters) base = Ret ff \<and> ff_ChargeID ff = k \<and> x = charge_event base ff))"

lemma base_of_subscription: "base_of ev e \<Longrightarrow> base_of ev (enrichWithSubscription e sub)"
  by (simp add: base_of_def enrichWithSubscription_def)

lemma enrichWithChargeInfo_success:
  assumes "enrichWithChargeInfo s e = Ret r" and "Success r" and "base_of ev e"
    and sub: "ee_Subscription e = None \<or> (\<exists>sub. ee_Subscription e = Some sub \<and> ee_SubscriptionID e = sub_ID sub \<and> ee_PlanID e = sub_PlanID sub \<and>
      Value (find_subscription s (ev_OrganizationID ev) (ev_ExternalSubscriptionID ev) (ee_Time e)) = Some sub)"
    and order: "\<And>m. mset (es_range s m) = mset m"
  shows "\<exists>evs. r = SuccessResult evs \<and> (evs = [e] \<or> charged s ev e evs)"
proof (cases "ee_Subscription e")
  case None
  with assms(1) show ?thesis by (auto simp: enrichWithChargeInfo_def)
next
  case (Some x)
  with sub obtain sub where sub: "ee_Subscription e = Some sub" "ee_SubscriptionID e = sub_ID sub" "ee_PlanID e = sub_PlanID sub"
      "Value (find_subscription s (ev_OrganizationID ev) (ev_ExternalSubscriptionID ev) (ee_Time e)) = Some sub" by auto
  let ?fr = "find_filters s (ee_OrganizationID e) (ee_Code e) (ee_PlanID e)"
  define filters where "filters = get_or [] (Value ?fr)"
  note run = assms(1) [unfolded enrichWithChargeInfo_def Let_def, folded filters_def]
  have ok: "Success ?fr"
  proof (rule ccontr)
    assume "\<not> Success ?fr"
    with run sub(1) have "r = FailedResult_err (Error ?fr)" by simp
    with \<open>\<not> Success ?fr\<close> assms(2) show False by (simp add: go_simps)
  qed
  show ?thesis
  proof (cases "filters = []")
    case True
    with run sub(1) ok show ?thesis by auto
  next
    case False
    then have v: "Value ?fr = Some filters" by (cases "Value ?fr") (simp_all add: filters_def)
    obtain evs where evs: "charge_events e (es_range s (index_by_charge filters)) = Ret evs" "distinct (map ee_ChargeID evs)"
        "set (map ee_ChargeID evs) = (\<lambda>ff. Some (ff_ChargeID ff)) ` set filters"
        "\<forall>x \<in> set evs. \<exists>k ff. MatchingFilter (of_charge k filters) e = Ret ff \<and> ff_ChargeID ff = k \<and> x = charge_event e ff"
      using charge_events_indexed [of "es_range s" filters e] order by blast
    have "r = SuccessResult evs" using run sub(1) ok False evs(1) by simp
    moreover have "charged s ev e evs"
      unfolding charged_def
      by (intro exI [of _ sub] exI [of _ filters]) (use assms(3) sub v False evs in \<open>simp add: base_of_def\<close>)
    ultimately show ?thesis by blast
  qed
qed

lemma enrich_customer_success:
  assumes "enrich_customer s ev e = Ret (ev', r)" and "Success r" and "base_of ev e" and "ee_Subscription e = None"
    and order: "\<And>m. mset (es_range s m) = mset m"
  shows "\<exists>base evs. r = SuccessResult evs \<and> base_of ev base \<and> ev' = ee_InitialEvent base \<and> (evs = [base] \<or> charged s ev base evs)"
proof -
  let ?sr = "find_subscription s (ev_OrganizationID ev) (ev_ExternalSubscriptionID ev) (ee_Time e)"
  note run = assms(1) [unfolded enrich_customer_def Let_def]
  have ok: "\<not> (Failure ?sr \<and> IsCapturable ?sr)"
  proof
    assume "Failure ?sr \<and> IsCapturable ?sr"
    with run have "r = failedMultiEventsResult ?sr ''fetch_subscription'' ''Error fetching subscription''" by simp
    with \<open>Failure ?sr \<and> IsCapturable ?sr\<close> assms(2) show False by simp
  qed
  define sub where "sub = (if Failure ?sr then None else Value ?sr)"
  define base where "base = (case sub of None \<Rightarrow> e | Some x \<Rightarrow> enrichWithSubscription e x)"
  have base: "base_of ev base" using assms(3) base_of_subscription by (cases sub) (simp_all add: base_def)
  have init: "ee_InitialEvent base = ee_InitialEvent e" "ee_Time base = ee_Time e"
    by (cases sub; simp add: base_def enrichWithSubscription_def)+
  obtain res where res: "enrichWithChargeInfo s base = Ret res" "Ret (ee_InitialEvent e, res) = Ret (ev', r)"
    using run ok by (auto simp: base_def sub_def go_bind_Ret_iff simp del: Failure_iff)
  have "ee_Subscription base = None \<or> (\<exists>sub. ee_Subscription base = Some sub \<and> ee_SubscriptionID base = sub_ID sub \<and> ee_PlanID base = sub_PlanID sub \<and>
      Value (find_subscription s (ev_OrganizationID ev) (ev_ExternalSubscriptionID ev) (ee_Time base)) = Some sub)"
  proof (cases sub)
    case None
    then show ?thesis using assms(4) by (simp add: base_def)
  next
    case (Some x)
    then have "Value ?sr = Some x" unfolding sub_def by (simp split: if_splits)
    then show ?thesis using Some init(2) by (simp add: base_def enrichWithSubscription_def)
  qed
  from enrichWithChargeInfo_success [OF res(1) _ base this order] res(2) assms(2) base init(1)
  show ?thesis by auto
qed

lemma EnrichEvent_shape:
  assumes "\<And>m. mset (es_range s m) = mset m" and "EnrichEvent s ev = Ret (ev', r)" and "Success r"
  shows "\<exists>base evs. r = SuccessResult evs \<and> evs \<noteq> [] \<and> base_of ev base \<and> ev' = ee_InitialEvent base \<and>
    (evs = [base] \<or> charged s ev base evs)"
proof -
  have ne: "evs \<noteq> []" if "charged s ev base evs" for base evs
    using that by (auto simp: charged_def)
  from assms(2) show ?thesis
  proof (cases rule: EnrichEvent_cases)
    case (customer e)
    from enrich_customer_success [OF customer(3) assms(3) customer(1,2) assms(1)] ne show ?thesis by blast
  qed (use assms(3) in simp_all)
qed


text \<open>Which failures may be retried.\<close>

lemma evaluation_not_retryable:
  assumes "enrichWithBillableMetric s e bm = Ret (e', r)" and "\<not> Success r"
  shows "\<not> IsRetryable r"
proof -
  let ?e = "e\<lparr>ee_BillableMetric := Some bm, ee_AggregationType := AggregationType_String (bm_AggregationType bm)\<rparr>"
  have ev: "\<not> IsRetryable er" if "evaluateExpression s ?e bm = Ret (e1, er)" "\<not> Success er" for e1 er
    using that by (auto simp: evaluateExpression_def Let_def go_bind_Ret_iff split: if_splits option.splits)
  from assms(1) obtain p where p: "(if ee_Source ?e \<noteq> HTTP_RUBY then evaluateExpression s ?e bm else Ret (?e, SuccessResult False)) = Ret p"
      "(case p of (ev', er) \<Rightarrow> if Failure er then Ret (ev', failedResult er ''evaluate_expression'' ''Error evaluating custom expression'')
        else let ev'' = ev'\<lparr>ee_Value := Some (metric_value ev' bm)\<rparr> in Ret (ev'', SuccessResult ev'')) = Ret (e', r)"
    unfolding enrichWithBillableMetric_def Let_def [of ?e] go_bind_Ret_iff by blast
  obtain e1 er where pair: "p = (e1, er)" by fastforce
  have er: "\<not> Success er" using p(2) assms(2) unfolding pair by (cases "Success er") (auto simp: Let_def)
  then have "r = failedResult er ''evaluate_expression'' ''Error evaluating custom expression''" using p(2) unfolding pair by simp
  moreover have "\<not> IsRetryable er"
  proof (cases "ee_Source ?e \<noteq> HTTP_RUBY")
    case True
    then show ?thesis using p(1) pair ev er by simp
  next
    case False
    then show ?thesis using p(1) pair er by auto
  qed
  ultimately show ?thesis by simp
qed

lemma enrich_customer_retryable:
  assumes "enrich_customer s ev e = Ret (ev', r)" and "\<not> Success r" and "base_of ev e" and "ee_Subscription e = None"
    and order: "\<And>m. mset (es_range s m) = mset m"
  shows "\<exists>t. ToTime (ev_Timestamp ev) = SuccessResult t \<and>
    (let sub = find_subscription s (ev_OrganizationID ev) (ev_ExternalSubscriptionID ev) t in
     (\<not> Success sub \<and> IsCapturable sub \<and> Error r = Error sub \<and> IsRetryable r = IsRetryable sub) \<or>
     (\<exists>x. Value sub = Some x \<and> Error r = Error (find_filters s (ev_OrganizationID ev) (ev_Code ev) (sub_PlanID x)) \<and> IsRetryable r))"
proof -
  let ?sr = "find_subscription s (ev_OrganizationID ev) (ev_ExternalSubscriptionID ev) (ee_Time e)"
  note run = assms(1) [unfolded enrich_customer_def Let_def]
  have t: "ToTime (ev_Timestamp ev) = SuccessResult (ee_Time e)" using assms(3) by (simp add: base_of_def)
  show ?thesis
  proof (cases "\<not> Success ?sr \<and> IsCapturable ?sr")
    case True
    with run have "r = failedMultiEventsResult ?sr ''fetch_subscription'' ''Error fetching subscription''" by simp
    with True t show ?thesis by (intro exI [of _ "ee_Time e"]) (simp add: Let_def)
  next
    case False
    define sub where "sub = (if Failure ?sr then None else Value ?sr)"
    define base where "base = (case sub of None \<Rightarrow> e | Some x \<Rightarrow> enrichWithSubscription e x)"
    have res: "enrichWithChargeInfo s base = Ret r"
      using run False by (auto simp: base_def sub_def go_bind_Ret_iff)
    show ?thesis
    proof (cases sub)
      case None
      then have "enrichWithChargeInfo s base = Ret (SuccessResult [base])"
        using assms(4) by (simp add: base_def enrichWithChargeInfo_def)
      with res assms(2) show ?thesis by auto
    next
      case (Some x)
      then have v: "Value ?sr = Some x" unfolding sub_def by (simp split: if_splits)
      have b: "ee_Subscription base = Some x" "ee_PlanID base = sub_PlanID x" "ee_OrganizationID base = ev_OrganizationID ev" "ee_Code base = ev_Code ev"
        using Some assms(3) by (simp_all add: base_def enrichWithSubscription_def base_of_def)
      let ?fr = "find_filters s (ev_OrganizationID ev) (ev_Code ev) (sub_PlanID x)"
      note inner = res [unfolded enrichWithChargeInfo_def Let_def, unfolded b]
      have "\<not> Success ?fr"
      proof
        assume ok: "Success ?fr"
        show False
        proof (cases "get_or [] (Value ?fr) = []")
          case True
          with inner ok assms(2) show False by auto
        next
          case False
          obtain evs where "charge_events base (es_range s (index_by_charge (get_or [] (Value ?fr)))) = Ret evs"
            using charge_events_indexed [of "es_range s" "get_or [] (Value ?fr)" base] order by blast
          with inner ok False assms(2) show False by auto
        qed
      qed
      with inner have "r = FailedResult_err (Error ?fr)" by simp
      then have "Error r = Error ?fr" "IsRetryable r" by (simp_all add: go_simps)
      with t v show ?thesis by (intro exI [of _ "ee_Time e"]) (simp add: Let_def)
    qed
  qed
qed

text \<open>
  C11: A failure of the enrichment is marked for a retry only when a read failed: the metric's or the
  subscription's with an error marked so, or any error of the charges' filters. A bad timestamp, an
  expression that cannot be evaluated, a missing metric or customer are never retried.
\<close>
theorem EnrichEvent_retryable:
  assumes "\<And>m. mset (es_range s m) = mset m" and "EnrichEvent s ev = Ret (ev', r)" and "\<not> Success r" and "IsRetryable r"
  shows "let bm = find_metric s (ev_OrganizationID ev) (ev_Code ev) in
    (\<not> Success bm \<and> IsRetryable bm \<and> Error r = Error bm) \<or>
    (\<exists>t. ToTime (ev_Timestamp ev) = SuccessResult t \<and>
      (let sub = find_subscription s (ev_OrganizationID ev) (ev_ExternalSubscriptionID ev) t in
       (\<not> Success sub \<and> IsRetryable sub \<and> Error r = Error sub) \<or>
       (\<exists>x. Value sub = Some x \<and> Error r = Error (find_filters s (ev_OrganizationID ev) (ev_Code ev) (sub_PlanID x)))))"
  using assms(2)
proof (cases rule: EnrichEvent_cases)
  case invalid
  then have "\<not> IsRetryable (ToEnrichedEvent ev)" using ToEnrichedEvent_cases [of ev] by auto
  with invalid assms(4) show ?thesis by simp
next
  case metric
  with assms(4) show ?thesis by (simp add: Let_def)
next
  case (expression e bm er)
  then have "\<not> IsRetryable er" by (intro evaluation_not_retryable)
  with expression assms(4) show ?thesis by simp
next
  case (customer e)
  from enrich_customer_retryable [OF customer(3) assms(3) customer(1,2) assms(1)] assms(4)
  show ?thesis by (auto simp: Let_def)
qed

section \<open>The one panic\<close>

lemma enrich_customer_returns:
  assumes "\<And>m. mset (es_range s m) = mset m"
  shows "\<exists>x. enrich_customer s ev e = Ret x"
proof -
  have info: "\<exists>r. enrichWithChargeInfo s b = Ret r" for b
  proof -
    let ?fs = "get_or [] (Value (find_filters s (ee_OrganizationID b) (ee_Code b) (ee_PlanID b)))"
    obtain evs where "charge_events b (es_range s (index_by_charge ?fs)) = Ret evs"
      using charge_events_indexed [of "es_range s" ?fs b] assms by blast
    then show ?thesis by (auto simp: enrichWithChargeInfo_def Let_def)
  qed
  show ?thesis
  proof (cases "Failure (find_subscription s (ev_OrganizationID ev) (ev_ExternalSubscriptionID ev) (ee_Time e)) \<and>
      IsCapturable (find_subscription s (ev_OrganizationID ev) (ev_ExternalSubscriptionID ev) (ee_Time e))")
    case True
    then show ?thesis by (simp add: enrich_customer_def Let_def)
  next
    case False
    obtain r where "enrichWithChargeInfo s (case if Failure (find_subscription s (ev_OrganizationID ev) (ev_ExternalSubscriptionID ev) (ee_Time e))
        then None else Value (find_subscription s (ev_OrganizationID ev) (ev_ExternalSubscriptionID ev) (ee_Time e)) of
        None \<Rightarrow> e | Some x \<Rightarrow> enrichWithSubscription e x) = Ret r" using info by blast
    with False show ?thesis unfolding enrich_customer_def Let_def by simp
  qed
qed

text \<open>The event the expression of a metric is evaluated on.\<close>

definition metric_event :: "event \<Rightarrow> billable_metric \<Rightarrow> enriched_event" where
  "metric_event ev bm = (start_event ev)\<lparr>ee_BillableMetric := Some bm, ee_AggregationType := AggregationType_String (bm_AggregationType bm)\<rparr>"

definition writes_expression :: "'db enrichment_service \<Rightarrow> event \<Rightarrow> billable_metric \<Rightarrow> bool" where
  "writes_expression s ev bm \<longleftrightarrow> ev_Source ev \<noteq> HTTP_RUBY \<and> bm_Expression bm \<noteq> [] \<and>
     (case encode_enriched_event (metric_event ev bm) of
        None \<Rightarrow> False
      | Some j \<Rightarrow> es_Evaluate s (bm_Expression bm) (json_text j) \<noteq> None)"

lemma enrichWithBillableMetric_panics:
  assumes "Success (ToEnrichedEvent ev)"
  shows "enrichWithBillableMetric s (start_event ev) bm = Panic msg \<longleftrightarrow>
    writes_expression s ev bm \<and> ev_Properties ev = None \<and> msg = ''assignment to entry in nil map''"
proof -
  let ?e = "metric_event ev bm"
  have base: "ee_Source ?e = ev_Source ev" "ee_Properties ?e = ev_Properties ev"
    using base_of_start [OF assms] by (simp_all add: metric_event_def base_of_def)
  have "evaluateExpression s ?e bm = Panic msg \<longleftrightarrow> bm_Expression bm \<noteq> [] \<and> ev_Properties ev = None \<and> msg = ''assignment to entry in nil map'' \<and>
      (case encode_enriched_event ?e of None \<Rightarrow> False | Some j \<Rightarrow> es_Evaluate s (bm_Expression bm) (json_text j) \<noteq> None)"
    by (auto simp: evaluateExpression_def set_property_def base Let_def split: option.splits)
  moreover have bind: "go_bind M (\<lambda>(ev', er). if Failure er then Ret (a ev' er) else Ret (b ev' er)) = Panic msg \<longleftrightarrow> M = Panic msg"
    for M :: "('x \<times> 'y result) go" and a b :: "'x \<Rightarrow> 'y result \<Rightarrow> 'z"
    by (cases M) (auto split: if_splits)
  ultimately show ?thesis
    unfolding enrichWithBillableMetric_def Let_def metric_event_def [symmetric] base bind
    by (auto simp: writes_expression_def)
qed

text \<open>
  C12: The enrichment of an event panics in one case: the metric has an expression that evaluates, the
  event is not from the Ruby API, and it has no properties, so that the result is written into a
  nil map.
\<close>
theorem EnrichEvent_panics:
  assumes "\<And>m. mset (es_range s m) = mset m"
  shows "EnrichEvent s ev = Panic msg \<longleftrightarrow>
    Success (ToEnrichedEvent ev) \<and> Success (find_metric s (ev_OrganizationID ev) (ev_Code ev)) \<and>
    (\<exists>bm. Value (find_metric s (ev_OrganizationID ev) (ev_Code ev)) = Some bm \<and> writes_expression s ev bm) \<and>
    ev_Properties ev = None \<and> msg = ''assignment to entry in nil map''"
proof -
  let ?bm = "find_metric s (ev_OrganizationID ev) (ev_Code ev)"
  note unfold = EnrichEvent_def [of s ev, unfolded Let_def, folded start_event_def]
  have noCustomer: "enrich_customer s ev e \<noteq> Panic msg" for e
    using enrich_customer_returns [OF assms, of ev e] by auto
  show ?thesis
  proof (cases "Success (ToEnrichedEvent ev) \<and> Success ?bm")
    case False
    then show ?thesis unfolding unfold by auto
  next
    case ok: True
    show ?thesis
    proof (cases "Value ?bm")
      case None
      with ok noCustomer show ?thesis unfolding unfold by simp
    next
      case (Some bm)
      have "EnrichEvent s ev = Panic msg \<longleftrightarrow> enrichWithBillableMetric s (start_event ev) bm = Panic msg"
        unfolding unfold using ok Some noCustomer
        by (cases "enrichWithBillableMetric s (start_event ev) bm") (auto split: if_splits)
      with ok Some show ?thesis by (simp add: enrichWithBillableMetric_panics)
    qed
  qed
qed

section \<open>A service\<close>

text \<open>
  A database with a counting metric that has an expression, a customer, and two charges, one of them
  with two filters; the evaluator answers every expression with \<open>42\<close>.
\<close>

definition sample_row :: "string \<Rightarrow> string option \<Rightarrow> (string \<times> string_slice) list \<Rightarrow> flat_filter" where
  "sample_row charge cf m = (sample_filter ''cf'' m)\<lparr>ff_ChargeID := charge, ff_ChargeFilterID := cf, ff_PayInAdvance := (charge = ''c2'')\<rparr>"

definition sample_api_store :: api_store where
  "sample_api_store = \<lparr>as_err = None,
     as_billable_metrics = [(sample_metric ''bm'' ''api'' 4000000)\<lparr>bm_FieldName := ''total'', bm_Expression := ''1+1''\<rparr>],
     as_subscriptions = [sub_at ''s1'' ''acme'' 1000000000 no_time],
     as_flat_filters = [sample_row ''c1'' (Some ''f1'') [(''region'', Some [''eu''])], sample_row ''c2'' None [],
       sample_row ''c1'' (Some ''f2'') [(''region'', Some [''us''])]]\<rparr>"

definition sample_service :: "api_store \<Rightarrow> ref_db enrichment_service" where
  "sample_service store = \<lparr>es_apiStore = (\<lambda>_. store), es_memCache = None, es_Evaluate = (\<lambda>_ _. Some ''42''), es_range = rev\<rparr>"

definition raw_event :: "properties \<Rightarrow> event" where
  "raw_event p = zero_event\<lparr>ev_OrganizationID := ''org'', ev_ExternalSubscriptionID := ''acme'', ev_TransactionID := ''t1'',
     ev_Code := ''api'', ev_Timestamp := AFloat (f64_of_int 5), ev_Properties := p\<rparr>"

lemma sample_range: "mset (es_range (sample_service store) m) = mset m"
  by (simp add: sample_service_def)


lemma EnrichEvent_retryable_witness:
  "\<exists>ev' r. EnrichEvent (sample_service (sample_api_store\<lparr>as_err := Some (ErrMsg ''connection refused'')\<rparr>)) (raw_event None) = Ret (ev', r) \<and>
     Error r = Error (find_metric (sample_service (sample_api_store\<lparr>as_err := Some (ErrMsg ''connection refused'')\<rparr>)) ''org'' ''api'')"
proof -
  let ?s = "sample_service (sample_api_store\<lparr>as_err := Some (ErrMsg ''connection refused'')\<rparr>)" and ?ev = "raw_event None"
  have "case EnrichEvent ?s ?ev of Panic _ \<Rightarrow> False | Ret (_, r) \<Rightarrow> \<not> Success r \<and> IsRetryable r" by code_simp
  then obtain ev' r where r: "EnrichEvent ?s ?ev = Ret (ev', r)" "\<not> Success r" "IsRetryable r" by (auto split: go.splits)
  have sub: "Error (find_subscription ?s o1 e1 t) = Some (ErrMsg ''connection refused'')" "Value (find_subscription ?s o1 e1 t) = None" for o1 e1 t
    by (simp_all add: find_subscription_def sample_service_def FetchSubscription_def failedSubscriptionResult_def Let_def go_simps)
  have bm: "Error (find_metric ?s o1 c1) = Some (ErrMsg ''connection refused'')" for o1 c1
    by (simp add: find_metric_def sample_service_def FetchBillableMetric_def failedBillableMetricResult_def Let_def go_simps)
  have "ev_OrganizationID ?ev = ''org''" "ev_Code ?ev = ''api''" by (simp_all add: raw_event_def)
  with EnrichEvent_retryable [OF sample_range r] r show ?thesis by (auto simp: Let_def sub bm)
qed

lemma EnrichEvent_panics_witness:
  "EnrichEvent (sample_service sample_api_store) (raw_event None) = Panic ''assignment to entry in nil map''"
proof -
  let ?s = "sample_service sample_api_store" and ?ev = "raw_event None"
  have "Success (ToEnrichedEvent ?ev) \<and> Success (find_metric ?s (ev_OrganizationID ?ev) (ev_Code ?ev)) \<and>
      ev_Properties ?ev = None" by code_simp
  moreover have "case Value (find_metric ?s (ev_OrganizationID ?ev) (ev_Code ?ev)) of None \<Rightarrow> False | Some bm \<Rightarrow> writes_expression ?s ?ev bm" by code_simp
  ultimately show ?thesis
    using EnrichEvent_panics [OF sample_range, of sample_api_store ?ev "''assignment to entry in nil map''"]
    by (auto split: option.splits)
qed

end
