(* ===== verification/Event_Producer.thy ===== *)
theory Event_Producer
  imports Effects
begin

text \<open>
  config/kafka/producer.go and processors/events_processor/event_producer_service.go: messages to
  the topics of enriched, expanded, charged in advance and failed events.

  The Go interface \<open>MessageProducer\<close> is a record of operations; the locale \<open>producer_contract\<close> states
  what the service relies on: one push to the producer's topic, answered truthfully. The Kafka
  producer satisfies it. A push that fails is followed by a dead letter.
\<close>

section \<open>The producer\<close>

record producer_message =
  pm_Key :: "string option"
  pm_Value :: "json option"

record message_producer =
  mp_Produce :: "producer_message \<Rightarrow> bool io"
  mp_GetTopic :: string

definition Producer_Produce :: "string \<Rightarrow> producer_message \<Rightarrow> bool io" where
  "Producer_Produce topic msg =
     io_bind (perform (ProduceSync topic (pm_Key msg) (pm_Value msg))) (\<lambda>err.
       case err of
         Some e \<Rightarrow> io_bind (CaptureError (Some e)) (\<lambda>_. Return False)
       | None \<Rightarrow> Return True)"

definition kafka_producer :: "string \<Rightarrow> message_producer" where
  "kafka_producer topic = \<lparr>mp_Produce = Producer_Produce topic, mp_GetTopic = topic\<rparr>"

section \<open>The service\<close>

record event_producer_service =
  ps_enriched :: message_producer
  ps_expanded :: message_producer
  ps_inAdvance :: message_producer
  ps_deadLetter :: message_producer

definition marshal_failure :: go_error where
  "marshal_failure = ErrMsg ''json: unsupported value''"

text \<open>A failed event that cannot be marshalled is reported, and a message without value is pushed.\<close>

definition ProduceToDeadLetterQueue :: "event_producer_service \<Rightarrow> event \<Rightarrow> 'r result \<Rightarrow> unit io" where
  "ProduceToDeadLetterQueue eps event errorResult =
     io_bind time_Now (\<lambda>now.
     let eventJson = encode_failed_event
           \<lparr>fe_Event = event, fe_InitialErrorMessage = ErrorMsg errorResult, fe_ErrorMessage = ErrorMessage errorResult,
            fe_ErrorCode = ErrorCode errorResult, fe_FailedAt = now\<rparr>
     in io_bind (if eventJson = None then CaptureError (Some marshal_failure) else Return ()) (\<lambda>_.
        io_bind (mp_Produce (ps_deadLetter eps) \<lparr>pm_Key = None, pm_Value = eventJson\<rparr>) (\<lambda>pushed.
          if \<not> pushed then CaptureErrorResultWithExtra errorResult (Some event) else Return ())))"

definition push_error :: "string \<Rightarrow> bool result" where
  "push_error topic = FailedBoolResult (ErrMsg (''failed to push to '' @ topic @ '' topic''))"

definition produceEvent :: "event_producer_service \<Rightarrow> enriched_event \<Rightarrow> string \<Rightarrow> message_producer \<Rightarrow> go_error option io" where
  "produceEvent eps event msgKey P =
     (case encode_enriched_event event of
        None \<Rightarrow> Return (Some marshal_failure)
      | Some eventJson \<Rightarrow>
          io_bind (mp_Produce P \<lparr>pm_Key = Some msgKey, pm_Value = Some eventJson\<rparr>) (\<lambda>pushed.
          io_bind (if \<not> pushed then ProduceToDeadLetterQueue eps (ee_InitialEvent event) (push_error (mp_GetTopic P)) else Return ())
            (\<lambda>_. Return None)))"

definition message_key :: "enriched_event \<Rightarrow> string" where
  "message_key event = ee_OrganizationID event @ ''-'' @ ee_TransactionID event"

definition report :: "go_error option \<Rightarrow> unit io" where
  "report err = (if err \<noteq> None then CaptureError err else Return ())"

definition ProduceEnrichedEvent :: "event_producer_service \<Rightarrow> enriched_event \<Rightarrow> unit io" where
  "ProduceEnrichedEvent eps event = io_bind (produceEvent eps event (message_key event) (ps_enriched eps)) report"

definition ProduceEnrichedExpandedEvent :: "event_producer_service \<Rightarrow> enriched_event \<Rightarrow> unit io" where
  "ProduceEnrichedExpandedEvent eps event = io_bind (produceEvent eps event (message_key event) (ps_expanded eps)) report"

definition ProduceChargedInAdvanceEvent :: "event_producer_service \<Rightarrow> enriched_event \<Rightarrow> unit io" where
  "ProduceChargedInAdvanceEvent eps event = io_bind (produceEvent eps event (message_key event) (ps_inAdvance eps)) report"

section \<open>Pushes\<close>

definition is_push :: "effect \<Rightarrow> bool" where
  "is_push e = (case fst e of ProduceSync _ _ _ \<Rightarrow> True | _ \<Rightarrow> False)"

text \<open>The pushes of a run, in order.\<close>

definition pushes :: "effect list \<Rightarrow> effect list" where
  "pushes es = filter is_push es"

lemma pushes_simps [simp]:
  "pushes [] = []" "pushes (es @ es') = pushes es @ pushes es'"
  "pushes ((ProduceSync tp k v, a) # es) = (ProduceSync tp k v, a) # pushes es"
  "pushes ((CaptureException e x ev, a) # es) = pushes es" "pushes ((Now, a) # es) = pushes es"
  "pushes ((ZAdd n sc m, a) # es) = pushes es" "pushes ((ExpireOp key ttl, a) # es) = pushes es"
  "pushes ((Append r, a) # es) = pushes es"
  by (simp_all add: pushes_def is_push_def)

text \<open>What a run does apart from pushing is reading the clock and reporting.\<close>

definition quiet :: "effect list \<Rightarrow> bool" where
  "quiet es \<longleftrightarrow> list_all (\<lambda>e. case fst e of ProduceSync _ _ _ \<Rightarrow> True | CaptureException _ _ _ \<Rightarrow> True | Now \<Rightarrow> True | _ \<Rightarrow> False) es"

lemma quiet_simps [simp]:
  "quiet []" "quiet (es @ es') \<longleftrightarrow> quiet es \<and> quiet es'"
  "quiet ((ProduceSync tp k v, a) # es) = quiet es" "quiet ((CaptureException e x ev, a) # es) = quiet es"
  "quiet ((Now, a) # es) = quiet es" "\<not> quiet ((ZAdd n sc m, a) # es)" "\<not> quiet ((ExpireOp key ttl, a) # es)"
  "\<not> quiet ((Append r, a) # es)"
  by (simp_all add: quiet_def)

lemma emits_CaptureError [simp]:
  "emits (CaptureError err) es r \<longleftrightarrow> es = [(CaptureException err None None, RErr None)]"
  "emits (CaptureErrorResultWithExtra res extra) es r \<longleftrightarrow>
     es = [(CaptureException (Error res) (Some (ErrorCode res, ErrorMessage res)) extra, RErr None)]"
  by (auto simp: CaptureError_def CaptureErrorResultWithExtra_def emits_Do)

locale producer_contract =
  fixes P :: message_producer
  assumes push_once: "emits (mp_Produce P msg) es pushed \<Longrightarrow>
    \<exists>err. pushes es = [(ProduceSync (mp_GetTopic P) (pm_Key msg) (pm_Value msg), RErr err)] \<and>
      (pushed \<longleftrightarrow> err = None) \<and> quiet es"

text \<open>
  A message was pushed to its topic, or the push failed and something was pushed to the topic of
  dead letters after it.
\<close>

definition delivered :: "string \<Rightarrow> string \<Rightarrow> string option \<Rightarrow> json option \<Rightarrow> effect list \<Rightarrow> bool" where
  "delivered deadLetters topic key v es \<longleftrightarrow>
     pushes es = [(ProduceSync topic key v, RErr None)] \<or>
     (\<exists>e w err. pushes es = [(ProduceSync topic key v, RErr (Some e)), (ProduceSync deadLetters None w, RErr err)])"

text \<open>The service: four producers with that contract.\<close>

locale producer_service =
  enriched: producer_contract "ps_enriched eps" + expanded: producer_contract "ps_expanded eps" +
  inAdvance: producer_contract "ps_inAdvance eps" + deadLetter: producer_contract "ps_deadLetter eps"
  for eps :: event_producer_service
begin

lemma dead_letter_pushes:
  assumes "emits (ProduceToDeadLetterQueue eps event res) es r"
  shows "\<exists>v err. pushes es = [(ProduceSync (mp_GetTopic (ps_deadLetter eps)) None v, RErr err)] \<and> quiet es \<and>
    (v = None \<or> (\<exists>now. v = encode_failed_event
           \<lparr>fe_Event = event, fe_InitialErrorMessage = ErrorMsg res, fe_ErrorMessage = ErrorMessage res,
            fe_ErrorCode = ErrorCode res, fe_FailedAt = now\<rparr>))"
proof -
  obtain t v es1 es2 es3 pushed where run: "es = (Now, RTime t) # es1 @ es2 @ es3"
      "emits (if v = None then CaptureError (Some marshal_failure) else Return ()) es1 ()"
      "emits (mp_Produce (ps_deadLetter eps) \<lparr>pm_Key = None, pm_Value = v\<rparr>) es2 pushed"
      "emits (if \<not> pushed then CaptureErrorResultWithExtra res (Some event) else Return ()) es3 r"
      and v: "v = encode_failed_event
           \<lparr>fe_Event = event, fe_InitialErrorMessage = ErrorMsg res, fe_ErrorMessage = ErrorMessage res,
            fe_ErrorCode = ErrorCode res, fe_FailedAt = t\<rparr>"
    using assms by (auto simp: ProduceToDeadLetterQueue_def time_Now_def emits_bind emits_Do Let_def)
  obtain err where push: "pushes es2 = [(ProduceSync (mp_GetTopic (ps_deadLetter eps)) None v, RErr err)]" "quiet es2"
    using deadLetter.push_once [OF run(3)] by auto
  have "pushes es1 = [] \<and> quiet es1" using run(2) by (cases "v = None") auto
  moreover have "pushes es3 = [] \<and> quiet es3" using run(4) by (cases pushed) auto
  ultimately show ?thesis using push v run(1) by auto
qed

text \<open>One push to the topic; a dead letter after it exactly when it failed.\<close>

lemma produceEvent_pushes:
  assumes "emits (produceEvent eps event key P) es r" and "producer_contract P" and "encode_enriched_event event = Some j"
  shows "r = None \<and> quiet es \<and> delivered (mp_GetTopic (ps_deadLetter eps)) (mp_GetTopic P) (Some key) (Some j) es"
proof -
  obtain es1 es2 pushed where run: "es = es1 @ es2" "emits (mp_Produce P \<lparr>pm_Key = Some key, pm_Value = Some j\<rparr>) es1 pushed"
      "emits (if \<not> pushed then ProduceToDeadLetterQueue eps (ee_InitialEvent event) (push_error (mp_GetTopic P)) else Return ()) es2 ()"
      "r = None"
    using assms(1,3) by (auto simp: produceEvent_def emits_bind)
  obtain err where push: "pushes es1 = [(ProduceSync (mp_GetTopic P) (Some key) (Some j), RErr err)]" "pushed \<longleftrightarrow> err = None" "quiet es1"
    using producer_contract.push_once [OF assms(2) run(2)] by auto
  show ?thesis
  proof (cases pushed)
    case True
    with run push show ?thesis by (auto simp: delivered_def)
  next
    case False
    then have "emits (ProduceToDeadLetterQueue eps (ee_InitialEvent event) (push_error (mp_GetTopic P))) es2 ()" using run(3) by simp
    from dead_letter_pushes [OF this] show ?thesis using run(1,4) push False by (auto simp: delivered_def)
  qed
qed

text \<open>A goroutine that produces one event: the three of the service are of this form.\<close>

lemma produce_task:
  assumes "emits (io_bind (produceEvent eps event key P) report) es r" and "producer_contract P"
  shows "quiet es \<and>
    (case encode_enriched_event event of
       None \<Rightarrow> pushes es = []
     | Some j \<Rightarrow> delivered (mp_GetTopic (ps_deadLetter eps)) (mp_GetTopic P) (Some key) (Some j) es)"
proof -
  obtain es1 es2 err where run: "es = es1 @ es2" "emits (produceEvent eps event key P) es1 err" "emits (report err) es2 r"
    using assms(1) by (auto simp: emits_bind)
  show ?thesis
  proof (cases "encode_enriched_event event")
    case None
    then have "es1 = []" "err = Some marshal_failure" using run(2) by (simp_all add: produceEvent_def)
    with None run(1,3) show ?thesis by (auto simp: report_def)
  next
    case (Some j)
    from produceEvent_pushes [OF run(2) assms(2) Some] run(1,3) Some show ?thesis by (auto simp: report_def)
  qed
qed

lemmas contracts = enriched.producer_contract_axioms expanded.producer_contract_axioms
  inAdvance.producer_contract_axioms deadLetter.producer_contract_axioms

end

lemma Producer_Produce_emits:
  "emits (Producer_Produce topic msg) es pushed \<longleftrightarrow>
     (\<exists>err. es = (ProduceSync topic (pm_Key msg) (pm_Value msg), RErr err) #
        (if err = None then [] else [(CaptureException err None None, RErr None)]) \<and> (pushed \<longleftrightarrow> err = None))"
proof -
  have "emits (case err of Some e \<Rightarrow> io_bind (CaptureError (Some e)) (\<lambda>_. Return False) | None \<Rightarrow> Return True) es' pushed \<longleftrightarrow>
      es' = (if err = None then [] else [(CaptureException err None None, RErr None)]) \<and> (pushed \<longleftrightarrow> err = None)" for err es'
    by (cases err) (auto simp: emits_bind)
  then show ?thesis by (auto simp: Producer_Produce_def perform_def emits_bind emits_Do)
qed

interpretation kafka: producer_contract "kafka_producer topic"
  for topic
  by unfold_locales (auto simp: kafka_producer_def Producer_Produce_emits)

text \<open>The service the program builds.\<close>

definition kafka_service :: "string \<Rightarrow> string \<Rightarrow> string \<Rightarrow> string \<Rightarrow> event_producer_service" where
  "kafka_service enriched expanded inAdvance deadLetter =
     \<lparr>ps_enriched = kafka_producer enriched, ps_expanded = kafka_producer expanded,
      ps_inAdvance = kafka_producer inAdvance, ps_deadLetter = kafka_producer deadLetter\<rparr>"

interpretation kafka_svc: producer_service "kafka_service enriched expanded inAdvance deadLetter"
  for enriched expanded inAdvance deadLetter
  unfolding producer_service_def kafka_service_def by (simp add: kafka.producer_contract_axioms)

end
