(* ===== verification/Processor.thy ===== *)
theory Processor
  imports Enrichment Event_Producer
begin

text \<open>
  processors/events_processor/processor.go, cache_service.go and subscription_refresh_service.go:
  what becomes of each record of a batch.

  \<open>processEvent\<close> gives the goroutines it starts and what the calling goroutine does meanwhile;
  \<open>process_one\<close> is the goroutine of one record, \<open>ProcessEvents\<close> relates a batch to the sequences of
  effects it can go through and to the records it returns. Each record may see another state of the
  cache and of the database. Log lines and tracing spans are left out.
\<close>

section \<open>The services\<close>

fun ExpireCache :: "enriched_event list \<Rightarrow> unit io" where
  "ExpireCache [] = Return ()"
| "ExpireCache (event # events) =
     (case ee_FlatFilter event of
        None \<Rightarrow> ExpireCache events
      | Some ff \<Rightarrow>
          io_bind (ChargeCache_Expire ff (ee_SubscriptionID event)) (\<lambda>cacheResult.
          io_bind (if Failure cacheResult then CaptureError (Error cacheResult) else Return ()) (\<lambda>_.
            ExpireCache events)))"

definition FlagSubscriptionRefresh :: "(string \<Rightarrow> go_error option io) \<Rightarrow> enriched_event \<Rightarrow> bool result io" where
  "FlagSubscriptionRefresh flag event =
     io_bind (flag (ee_OrganizationID event @ '':'' @ ee_SubscriptionID event)) (\<lambda>err.
       Return (case err of Some e \<Rightarrow> FailedBoolResult e | None \<Rightarrow> SuccessResult True))"

record 'db event_processor =
  ep_Enrichment :: "'db enrichment_service"
  ep_Producer :: event_producer_service
  ep_Flag :: "string \<Rightarrow> go_error option io"

section \<open>processEvent\<close>

text \<open>
  The event as the enrichment left it, the goroutines started, and the rest of the function; the
  caller goes on when all of them are done.
\<close>

definition pays_in_advance :: "enriched_event list \<Rightarrow> bool" where
  "pays_in_advance evs \<longleftrightarrow> list_ex (\<lambda>ev. case ee_FlatFilter ev of Some ff \<Rightarrow> ff_PayInAdvance ff | None \<Rightarrow> False) evs"

definition expanded_tasks :: "'db event_processor \<Rightarrow> enriched_event list \<Rightarrow> unit io list" where
  "expanded_tasks P evs = map (ProduceEnrichedExpandedEvent (ep_Producer P)) (filter (\<lambda>ev. ee_ChargeID ev \<noteq> None) evs)"

definition refresh :: "'db event_processor \<Rightarrow> enriched_event \<Rightarrow> enriched_event list \<Rightarrow> enriched_event result io" where
  "refresh P enrichedEvent evs =
     io_bind (FlagSubscriptionRefresh (ep_Flag P) enrichedEvent) (\<lambda>flagResult.
       if Failure flagResult
       then Return (failedResult flagResult ''flag_subscription_refresh'' ''Error flagging subscription refresh'')
       else io_bind (ExpireCache evs) (\<lambda>_. Return (SuccessResult enrichedEvent)))"

definition after_enrichment :: "'db event_processor \<Rightarrow> event \<Rightarrow> enriched_event \<Rightarrow> enriched_event list \<Rightarrow>
    unit io list \<times> enriched_event result io" where
  "after_enrichment P event enrichedEvent evs =
     (if IsReprocess event then (expanded_tasks P evs, Return (SuccessResult enrichedEvent))
      else let tasks = ProduceEnrichedEvent (ep_Producer P) enrichedEvent # expanded_tasks P evs
        in if ee_Subscription enrichedEvent \<noteq> None \<and> NotAPIPostProcessed event
           then (tasks @ (if pays_in_advance evs then [ProduceChargedInAdvanceEvent (ep_Producer P) enrichedEvent] else []),
                 refresh P enrichedEvent evs)
           else (tasks, Return (SuccessResult enrichedEvent)))"

definition processEvent :: "'db event_processor \<Rightarrow> event \<Rightarrow> (event \<times> unit io list \<times> enriched_event result io) go" where
  "processEvent P event =
     go_bind (EnrichEvent (ep_Enrichment P) event) (\<lambda>(event', enrichedEventResult).
       if Failure enrichedEventResult
       then Ret (event', [], Return (failedResult enrichedEventResult (ErrorCode enrichedEventResult) (ErrorMessage enrichedEventResult)))
       else case get_or [] (Value enrichedEventResult) of
              [] \<Rightarrow> Panic ''index out of range [0] with length 0''
            | enrichedEvent # evs \<Rightarrow> Ret (event', after_enrichment P event' enrichedEvent (enrichedEvent # evs)))"

section \<open>One record\<close>

definition Hour :: int where "Hour = 3600 * Second"

definition append_record :: "json option kgo_record \<Rightarrow> unit io" where
  "append_record record = Do (Append record) (\<lambda>_. Return ())"

definition retry_later :: "event \<Rightarrow> 'r result \<Rightarrow> bool io" where
  "retry_later event res =
     (if IsRetryable res then io_bind time_Now (\<lambda>now. Return (now - ct_instant (ev_IngestedAt event) < 12 * Hour))
      else Return False)"

definition finish_record :: "'db event_processor \<Rightarrow> json option kgo_record \<Rightarrow> event \<Rightarrow> enriched_event result \<Rightarrow> unit io" where
  "finish_record P record event res =
     (if Failure res
      then io_bind (if IsCapturable res then CaptureErrorResultWithExtra res (Some event) else Return ()) (\<lambda>_.
           io_bind (retry_later event res) (\<lambda>later.
             if later then Return ()
             else io_bind (ProduceToDeadLetterQueue (ep_Producer P) event res) (\<lambda>_. append_record record)))
      else append_record record)"

datatype goroutine =
    Plain "unit io"
  | Group "unit io list" "enriched_event result io" "enriched_event result \<Rightarrow> unit io"

definition process_one :: "'db event_processor \<Rightarrow> json option kgo_record \<Rightarrow> goroutine go" where
  "process_one P record =
     (case unmarshal_event (rec_Value record) of
        Inl err \<Rightarrow> Ret (Plain (io_bind (CaptureError (Some err)) (\<lambda>_. append_record record)))
      | Inr event \<Rightarrow>
          go_bind (processEvent P event) (\<lambda>(event', tasks, main). Ret (Group tasks main (finish_record P record event'))))"

fun goroutine_emits :: "goroutine \<Rightarrow> effect list \<Rightarrow> bool" where
  "goroutine_emits (Plain m) es \<longleftrightarrow> emits m es ()"
| "goroutine_emits (Group tasks main rest) es \<longleftrightarrow>
     (\<exists>es1 es2 r. es = es1 @ es2 \<and> group_emits tasks main es1 r \<and> emits (rest r) es2 ())"

section \<open>A batch\<close>

text \<open>The records appended in a run, in order.\<close>

fun appended :: "effect list \<Rightarrow> json option kgo_record list" where
  "appended [] = []"
| "appended ((Append r, a) # es) = r # appended es"
| "appended (e # es) = appended es"

definition goroutines :: "(nat \<Rightarrow> 'db event_processor) \<Rightarrow> json option kgo_record list \<Rightarrow> goroutine go list" where
  "goroutines P records = map (\<lambda>(i, r). process_one (P i) r) (enumerate 0 records)"

text \<open>
  The complete runs: \<open>P i\<close> is the processor with the stores as the goroutine of record \<open>i\<close> reads
  them. A panic of one goroutine ends the process, whatever the others have done.
\<close>

definition ProcessEvents :: "(nat \<Rightarrow> 'db event_processor) \<Rightarrow> json option kgo_record list \<Rightarrow> effect list \<Rightarrow>
    json option kgo_record list go \<Rightarrow> bool" where
  "ProcessEvents P records es out \<longleftrightarrow>
     (case out of
        Panic msg \<Rightarrow> Panic msg \<in> set (goroutines P records)
      | Ret processedRecords \<Rightarrow>
          (\<exists>gs ess. goroutines P records = map Ret gs \<and> list_all2 goroutine_emits gs ess \<and>
             es \<in> interleavings ess \<and> processedRecords = appended es))"

section \<open>Appends\<close>

lemma appended_append [simp]: "appended (es @ es') = appended es @ appended es'"
  by (induction es rule: appended.induct) simp_all

lemma appended_cons: "appended ((c, a) # es) = (case c of Append r \<Rightarrow> [r] | _ \<Rightarrow> []) @ appended es"
  by (cases c) simp_all

lemma quiet_appended: "quiet es \<Longrightarrow> appended es = []"
  by (induction es rule: appended.induct) simp_all

lemma mset_appended: "mset (appended es) = image_mset (\<lambda>e. case fst e of Append r \<Rightarrow> r) (filter_mset (\<lambda>e. \<exists>r. fst e = Append r) (mset es))"
  by (induction es rule: appended.induct) simp_all

lemma appended_interleavings:
  "es \<in> interleavings ess \<Longrightarrow> mset (appended es) = mset (concat (map appended ess))"
proof -
  assume "es \<in> interleavings ess"
  then have "mset (appended es) = mset (appended (concat ess))"
    unfolding mset_appended by (simp only: mset_interleavings)
  also have "appended (concat ess) = concat (map appended ess)" by (induction ess) simp_all
  finally show ?thesis .
qed

text \<open>An operation without appends.\<close>

definition no_append :: "'a io \<Rightarrow> bool" where
  "no_append m \<longleftrightarrow> (\<forall>es r. emits m es r \<longrightarrow> appended es = [])"

lemma no_append_bind: "no_append m \<Longrightarrow> (\<And>x. no_append (f x)) \<Longrightarrow> no_append (io_bind m f)"
  by (fastforce simp: no_append_def emits_bind)

lemma no_append_simps [simp]:
  "no_append (Return x)" "no_append (CaptureError e)" "no_append (CaptureErrorResultWithExtra res ex)"
  "no_append time_Now" "no_append (perform (ProduceSync tp k v))" "no_append (perform (ZAdd n sc m))"
  "no_append (perform (ExpireOp key ttl))"
  by (auto simp: no_append_def emits_Do time_Now_def perform_def)

lemma no_append_ExpireCache: "no_append (ExpireCache evs)"
  by (induction evs)
    (auto simp: ChargeCache_Expire_def CacheStore_ExpireKey_def intro!: no_append_bind split: option.split)

section \<open>The goroutine of a record\<close>

lemma processEvent_cases:
  assumes "processEvent P event = Ret (event', tasks, main)"
  obtains (failed) res where "EnrichEvent (ep_Enrichment P) event = Ret (event', res)" "\<not> Success res" "tasks = []"
      "main = Return (failedResult res (ErrorCode res) (ErrorMessage res))"
  | (enriched) res e evs where "EnrichEvent (ep_Enrichment P) event = Ret (event', res)" "Success res"
      "get_or [] (Value res) = e # evs" "(tasks, main) = after_enrichment P event' e (e # evs)"
proof -
  obtain ev res where e: "EnrichEvent (ep_Enrichment P) event = Ret (ev, res)"
      and rest: "(if Failure res then Ret (ev, [], Return (failedResult res (ErrorCode res) (ErrorMessage res)))
        else case get_or [] (Value res) of [] \<Rightarrow> Panic ''index out of range [0] with length 0''
            | x # xs \<Rightarrow> Ret (ev, after_enrichment P ev x (x # xs))) = Ret (event', tasks, main)"
    using assms unfolding processEvent_def go_bind_Ret_iff by auto
  show thesis
  proof (cases "Success res")
    case False
    with e rest failed show thesis by auto
  next
    case True
    with rest obtain x xs where "get_or [] (Value res) = x # xs" "Ret (ev, after_enrichment P ev x (x # xs)) = Ret (event', tasks, main)"
      by (cases "get_or [] (Value res)") auto
    with True e enriched show thesis by auto
  qed
qed

text \<open>How a record ends after its event was processed.\<close>

definition left_for_retry :: "event \<Rightarrow> 'r result \<Rightarrow> effect list \<Rightarrow> bool" where
  "left_for_retry event res es \<longleftrightarrow> \<not> Success res \<and> IsRetryable res \<and> appended es = [] \<and> pushes es = [] \<and>
     (\<exists>now. (Now, RTime now) \<in> set es \<and> now - ct_instant (ev_IngestedAt event) < 12 * Hour)"

definition dead_lettered :: "string \<Rightarrow> json option kgo_record \<Rightarrow> event \<Rightarrow> 'r result \<Rightarrow> effect list \<Rightarrow> bool" where
  "dead_lettered deadLetters record event res es \<longleftrightarrow> \<not> Success res \<and> appended es = [record] \<and>
     (\<not> IsRetryable res \<or> (\<exists>now. (Now, RTime now) \<in> set es \<and> 12 * Hour \<le> now - ct_instant (ev_IngestedAt event))) \<and>
     (\<exists>v err. pushes es = [(ProduceSync deadLetters None v, RErr err)] \<and>
        (v = None \<or> (\<exists>now. v = encode_failed_event
           \<lparr>fe_Event = event, fe_InitialErrorMessage = ErrorMsg res, fe_ErrorMessage = ErrorMessage res,
            fe_ErrorCode = ErrorCode res, fe_FailedAt = now\<rparr>)))"

locale processor_services = producer_service "ep_Producer P" + flagger "ep_Flag P"
  for P :: "'db event_processor"
begin

abbreviation dead_letters :: string where
  "dead_letters \<equiv> mp_GetTopic (ps_deadLetter (ep_Producer P))"

lemma tasks_quiet:
  assumes "t \<in> set (fst (after_enrichment P event e evs))" and "emits t es ()"
  shows "quiet es"
proof -
  have "t = ProduceEnrichedEvent (ep_Producer P) e \<or> t = ProduceChargedInAdvanceEvent (ep_Producer P) e \<or>
      (\<exists>ev \<in> set evs. t = ProduceEnrichedExpandedEvent (ep_Producer P) ev)"
    using assms(1) by (auto simp: after_enrichment_def expanded_tasks_def Let_def split: if_splits)
  then show ?thesis
    using assms(2) produce_task contracts
    by (auto simp: ProduceEnrichedEvent_def ProduceChargedInAdvanceEvent_def ProduceEnrichedExpandedEvent_def)
qed

lemma flag_refresh:
  "emits (FlagSubscriptionRefresh (ep_Flag P) e) es res \<Longrightarrow>
    \<exists>t name score member err. es = [(Now, RTime t), (ZAdd name score member, RErr err)] \<and>
      res = (case err of Some x \<Rightarrow> FailedBoolResult x | None \<Rightarrow> SuccessResult True)"
  unfolding FlagSubscriptionRefresh_def emits_bind using flag_adds by fastforce

lemma refresh_run:
  assumes "emits (refresh P e evs) es res"
  shows "\<exists>t name score member err rest. es = (Now, RTime t) # (ZAdd name score member, RErr err) # rest \<and>
    (case err of
       Some x \<Rightarrow> rest = [] \<and> res = failedResult (FailedBoolResult x) ''flag_subscription_refresh'' ''Error flagging subscription refresh''
     | None \<Rightarrow> emits (ExpireCache evs) rest () \<and> res = SuccessResult e)"
proof -
  obtain es1 es2 fr where run: "es = es1 @ es2" "emits (FlagSubscriptionRefresh (ep_Flag P) e) es1 fr"
      "emits (if Failure fr then Return (failedResult fr ''flag_subscription_refresh'' ''Error flagging subscription refresh'')
        else io_bind (ExpireCache evs) (\<lambda>_. Return (SuccessResult e))) es2 res"
    using assms unfolding refresh_def emits_bind by blast
  obtain t name score member err where f: "es1 = [(Now, RTime t), (ZAdd name score member, RErr err)]"
      "fr = (case err of Some x \<Rightarrow> FailedBoolResult x | None \<Rightarrow> SuccessResult True)"
    using flag_refresh [OF run(2)] by blast
  show ?thesis
  proof (cases err)
    case None
    with run f show ?thesis by (auto simp: emits_bind)
  next
    case (Some x)
    with run f show ?thesis by auto
  qed
qed

lemma main_no_append: "no_append (snd (after_enrichment P event e evs))"
proof -
  have "no_append (refresh P e evs)"
    unfolding no_append_def
  proof (intro allI impI)
    fix es res assume "emits (refresh P e evs) es res"
    from refresh_run [OF this] show "appended es = []"
      using no_append_ExpireCache [of evs] by (auto simp: no_append_def split: option.splits)
  qed
  then show ?thesis by (simp add: after_enrichment_def Let_def)
qed

text \<open>The group of an event appends nothing.\<close>

lemma group_no_append:
  assumes "processEvent P event = Ret (event', tasks, main)" and "group_emits tasks main es res"
  shows "appended es = []"
proof -
  have shape: "(tasks = [] \<and> (\<exists>x. main = Return x)) \<or> (\<exists>e evs. (tasks, main) = after_enrichment P event' e evs)"
    using assms(1) by (cases rule: processEvent_cases) auto
  obtain es0 ess where run: "emits main es0 res" "list_all2 (\<lambda>t e. emits t e ()) tasks ess" "es \<in> interleavings (es0 # ess)"
    using assms(2) unfolding group_emits_def by blast
  have "appended es0 = [] \<and> (\<forall>e \<in> set ess. appended e = [])"
    using shape
  proof
    assume "tasks = [] \<and> (\<exists>x. main = Return x)"
    with run show ?thesis by auto
  next
    assume "\<exists>e evs. (tasks, main) = after_enrichment P event' e evs"
    then obtain e evs where a: "tasks = fst (after_enrichment P event' e evs)" "main = snd (after_enrichment P event' e evs)"
      by (metis fst_conv snd_conv)
    have "appended x = []" if x: "x \<in> set ess" for x
    proof -
      obtain i where "i < length ess" "x = ess ! i" using x by (auto simp: in_set_conv_nth)
      then have "emits (tasks ! i) x ()" "tasks ! i \<in> set tasks"
        using run(2) by (auto simp: list_all2_conv_all_nth)
      then show ?thesis using tasks_quiet quiet_appended a(1) by blast
    qed
    moreover have "appended es0 = []" using main_no_append [of event' e evs] run(1) a(2) unfolding no_append_def by blast
    ultimately show ?thesis by blast
  qed
  then have "concat (map appended (es0 # ess)) = []" by simp
  then have "mset (appended es) = {#}" using appended_interleavings [OF run(3)] by simp
  then show ?thesis by simp
qed

lemma append_record_run [simp]: "emits (append_record r) es x \<longleftrightarrow> es = [(Append r, RErr None)]"
  by (auto simp: append_record_def emits_Do)

lemma retry_later_run:
  assumes "emits (retry_later event res) es later"
  shows "pushes es = [] \<and> appended es = [] \<and>
    (if later then IsRetryable res \<and> (\<exists>now. (Now, RTime now) \<in> set es \<and> now - ct_instant (ev_IngestedAt event) < 12 * Hour)
     else \<not> IsRetryable res \<or> (\<exists>now. (Now, RTime now) \<in> set es \<and> 12 * Hour \<le> now - ct_instant (ev_IngestedAt event)))"
  using assms by (auto simp: retry_later_def time_Now_def emits_bind emits_Do split: if_splits)

lemma finish_record_run:
  assumes "emits (finish_record P record event res) es ()"
  shows "if Success res then es = [(Append record, RErr None)]
    else left_for_retry event res es \<or> dead_lettered dead_letters record event res es"
proof (cases "Success res")
  case True
  with assms show ?thesis by (simp add: finish_record_def)
next
  case False
  obtain es1 es2 es3 later where run: "es = es1 @ es2 @ es3"
      "emits (if IsCapturable res then CaptureErrorResultWithExtra res (Some event) else Return ()) es1 ()"
      "emits (retry_later event res) es2 later"
      "emits (if later then Return () else io_bind (ProduceToDeadLetterQueue (ep_Producer P) event res) (\<lambda>_. append_record record)) es3 ()"
    using assms False by (auto simp: finish_record_def emits_bind)
  have c: "pushes es1 = [] \<and> appended es1 = []" using run(2) by (auto split: if_splits)
  note r = retry_later_run [OF run(3)]
  show ?thesis
  proof (cases later)
    case True
    with run c r False show ?thesis by (auto simp: left_for_retry_def)
  next
    case later: False
    then obtain es4 where d: "es3 = es4 @ [(Append record, RErr None)]" "emits (ProduceToDeadLetterQueue (ep_Producer P) event res) es4 ()"
      using run(4) by (auto simp: emits_bind)
    from dead_letter_pushes [OF d(2)] obtain v err where "pushes es4 = [(ProduceSync dead_letters None v, RErr err)]" "quiet es4"
        "v = None \<or> (\<exists>now. v = encode_failed_event
           \<lparr>fe_Event = event, fe_InitialErrorMessage = ErrorMsg res, fe_ErrorMessage = ErrorMessage res,
            fe_ErrorCode = ErrorCode res, fe_FailedAt = now\<rparr>)" by blast
    with run(1) d(1) c r later False have "dead_lettered dead_letters record event res es"
      unfolding dead_lettered_def by (auto dest: quiet_appended)
    with False show ?thesis by simp
  qed
qed

text \<open>The whole goroutine of a record.\<close>

lemma process_one_run:
  assumes "process_one P record = Ret g" and "goroutine_emits g es"
  shows "case unmarshal_event (rec_Value record) of
      Inl err \<Rightarrow> es = [(CaptureException (Some err) None None, RErr None), (Append record, RErr None)]
    | Inr event \<Rightarrow> \<exists>event' tasks main es1 es2 res. processEvent P event = Ret (event', tasks, main) \<and>
        es = es1 @ es2 \<and> group_emits tasks main es1 res \<and> appended es1 = [] \<and>
        (if Success res then es2 = [(Append record, RErr None)]
         else left_for_retry event' res es2 \<or> dead_lettered dead_letters record event' res es2)"
proof (cases "unmarshal_event (rec_Value record)")
  case (Inl err)
  then have "g = Plain (io_bind (CaptureError (Some err)) (\<lambda>_. append_record record))"
    using assms(1) by (simp add: process_one_def)
  with assms(2) Inl show ?thesis by (auto simp: emits_bind)
next
  case (Inr event)
  obtain event' tasks main where p: "processEvent P event = Ret (event', tasks, main)" "g = Group tasks main (finish_record P record event')"
    using assms(1) Inr unfolding process_one_def by (auto simp: go_bind_Ret_iff)
  obtain es1 es2 res where run: "es = es1 @ es2" "group_emits tasks main es1 res" "emits (finish_record P record event' res) es2 ()"
    using assms(2) p(2) by auto
  show ?thesis using p(1) run(1,2) finish_record_run [OF run(3)] group_no_append [OF p(1) run(2)] Inr
    by (simp only: sum.case) blast
qed

lemma process_one_appends:
  assumes "process_one P record = Ret g" and "goroutine_emits g es"
  shows "appended es = [] \<or> appended es = [record]"
  using process_one_run [OF assms]
  by (cases "unmarshal_event (rec_Value record)")
    (auto simp: left_for_retry_def dead_lettered_def split: if_splits)

end

section \<open>Batches\<close>

lemma goroutines_nth:
  assumes "goroutines P records = map Ret gs"
  shows "length gs = length records \<and> (\<forall>i < length records. process_one (P i) (records ! i) = Ret (gs ! i))"
proof -
  have len: "length gs = length records" using arg_cong [OF assms, of length] by (simp add: goroutines_def)
  have "process_one (P i) (records ! i) = Ret (gs ! i)" if "i < length records" for i
    using arg_cong [OF assms, of "\<lambda>xs. xs ! i"] that len by (simp add: goroutines_def nth_enumerate_eq)
  with len show ?thesis by blast
qed

text \<open>What can become of one record, in the effects of its goroutine.\<close>

definition record_outcome :: "'db event_processor \<Rightarrow> json option kgo_record \<Rightarrow> effect list \<Rightarrow> bool" where
  "record_outcome P record es \<longleftrightarrow>
     (case unmarshal_event (rec_Value record) of
        Inl err \<Rightarrow> es = [(CaptureException (Some err) None None, RErr None), (Append record, RErr None)]
      | Inr event \<Rightarrow> \<exists>event' tasks main es1 es2 res. processEvent P event = Ret (event', tasks, main) \<and>
          es = es1 @ es2 \<and> group_emits tasks main es1 res \<and> appended es1 = [] \<and>
          (if Success res then es2 = [(Append record, RErr None)]
           else left_for_retry event' res es2 \<or>
             dead_lettered (mp_GetTopic (ps_deadLetter (ep_Producer P))) record event' res es2))"

lemma record_outcome_appends: "record_outcome P record es \<Longrightarrow> appended es = [] \<or> appended es = [record]"
  by (auto simp: record_outcome_def left_for_retry_def dead_lettered_def split: sum.splits if_splits)

lemma record_outcome_left:
  assumes "record_outcome P record es" and "appended es = []"
  shows "\<exists>event event' tasks main es1 es2 res. unmarshal_event (rec_Value record) = Inr event \<and>
    processEvent P event = Ret (event', tasks, main) \<and> es = es1 @ es2 \<and> group_emits tasks main es1 res \<and> left_for_retry event' res es2"
proof (cases "unmarshal_event (rec_Value record)")
  case (Inl e)
  with assms show ?thesis by (simp add: record_outcome_def)
next
  case (Inr event)
  then obtain event' tasks main es1 es2 res where o: "processEvent P event = Ret (event', tasks, main)"
      "es = es1 @ es2" "group_emits tasks main es1 res"
      "if Success res then es2 = [(Append record, RErr None)]
       else left_for_retry event' res es2 \<or> dead_lettered (mp_GetTopic (ps_deadLetter (ep_Producer P))) record event' res es2"
    using assms(1) by (auto simp: record_outcome_def simp del: if_split)
  have "left_for_retry event' res es2"
    using o(2,4) assms(2) by (auto simp: dead_lettered_def split: if_splits)
  with Inr o(1-3) show ?thesis by blast
qed

lemma ProcessEvents_records:
  assumes "\<And>i. processor_services (P i)" and "ProcessEvents P records es (Ret processed)"
  shows "processed = appended es \<and>
    (\<exists>ess. es \<in> interleavings ess \<and> length ess = length records \<and>
      (\<forall>i < length records. record_outcome (P i) (records ! i) (ess ! i)))"
proof -
  obtain gs ess where run: "goroutines P records = map Ret gs" "list_all2 goroutine_emits gs ess"
      "es \<in> interleavings ess" "processed = appended es"
    using assms(2) by (auto simp: ProcessEvents_def)
  have "record_outcome (P i) (records ! i) (ess ! i)" if i: "i < length records" for i
  proof -
    have "process_one (P i) (records ! i) = Ret (gs ! i)" "goroutine_emits (gs ! i) (ess ! i)"
      using goroutines_nth [OF run(1)] run(2) i by (auto simp: list_all2_conv_all_nth)
    from processor_services.process_one_run [OF assms(1) this] show ?thesis
      unfolding record_outcome_def .
  qed
  moreover have "length ess = length records"
    using goroutines_nth [OF run(1)] run(2) by (simp add: list_all2_lengthD [symmetric])
  ultimately show ?thesis using run(3,4) by blast
qed

lemma appended_sub:
  assumes "list_all2 (\<lambda>r e. appended e = [] \<or> appended e = [r]) records ess"
  shows "mset (concat (map appended ess)) \<subseteq># mset records"
  using assms
proof (induction rule: list_all2_induct)
  case (Cons r rs e ess)
  then show ?case by (elim disjE) (auto intro: subset_mset.trans)
qed simp

lemma ProcessEvents_sub:
  assumes "\<And>i. processor_services (P i)" and "ProcessEvents P records es (Ret processed)"
  shows "mset processed \<subseteq># mset records"
proof -
  obtain ess where ess: "es \<in> interleavings ess" "length ess = length records" "processed = appended es"
      "\<forall>i < length records. record_outcome (P i) (records ! i) (ess ! i)"
    using ProcessEvents_records [OF assms] by blast
  have "list_all2 (\<lambda>r e. appended e = [] \<or> appended e = [r]) records ess"
    using ess(2,4) record_outcome_appends by (auto simp: list_all2_conv_all_nth)
  from appended_sub [OF this] show ?thesis using appended_interleavings [OF ess(1)] ess(3) by simp
qed

text \<open>A record that is missing from the returned ones was left for a retry.\<close>

lemma ProcessEvents_left:
  assumes "\<And>i. processor_services (P i)" and "ProcessEvents P records es (Ret processed)"
    and "u \<in> set records" and "u \<notin> set processed"
  shows "\<exists>i event event' tasks main es1 es2 res. i < length records \<and> records ! i = u \<and>
    unmarshal_event (rec_Value u) = Inr event \<and> processEvent (P i) event = Ret (event', tasks, main) \<and>
    group_emits tasks main es1 res \<and> left_for_retry event' res es2 \<and> set es2 \<subseteq> set es"
proof -
  obtain ess where ess: "es \<in> interleavings ess" "length ess = length records" "processed = appended es"
      "\<forall>i < length records. record_outcome (P i) (records ! i) (ess ! i)"
    using ProcessEvents_records [OF assms(1,2)] by blast
  obtain i where i: "i < length records" "records ! i = u" using assms(3) by (auto simp: in_set_conv_nth)
  have "set (appended es) = set (concat (map appended ess))"
    using appended_interleavings [OF ess(1)] by (rule mset_eq_setD)
  then have "u \<notin> set (appended (ess ! i))" using assms(4) ess(2,3) i(1) nth_mem [of i ess] by auto
  then have "appended (ess ! i) = []" using ess(4) i record_outcome_appends by fastforce
  moreover have "record_outcome (P i) u (ess ! i)" using ess(4) i by auto
  ultimately obtain event event' tasks main es1 es2 res where o: "unmarshal_event (rec_Value u) = Inr event"
      "processEvent (P i) event = Ret (event', tasks, main)" "ess ! i = es1 @ es2" "group_emits tasks main es1 res" "left_for_retry event' res es2"
    using record_outcome_left by blast
  have "set es2 \<subseteq> set es" using set_interleavings [OF ess(1)] o(3) ess(2) i(1) nth_mem [of i ess] by fastforce
  then show ?thesis using o i by blast
qed

section \<open>Committing a batch of events\<close>

text \<open>A handler that answers one batch; the consumer's laws hold of it.\<close>

lemma one_batch_handler:
  assumes "mset processed \<subseteq># mset records" and "kafka_commit commit capture pos"
  shows "partition_consumer (\<lambda>rs w. (if rs = records then processed else [], w)) commit capture pos"
  using assms by (simp add: partition_consumer_def record_processor_def partition_consumer_axioms_def)

text \<open>
  C1: End to end, an event that failed for a passing reason is not lost with its batch. After any
  complete run of \<open>ProcessEvents\<close> and the commit that follows, the group's position is at or before
  every record that is not among the returned ones; and such a record is one whose processing failed
  with a retryable error within twelve hours of its ingestion, for which no dead letter was pushed
  then.
\<close>
theorem failed_records_stay:
  assumes "\<And>i. processor_services (P i)" and "kafka_commit commit capture pos" and "wf_batch records"
    and "ProcessEvents P records es (Ret processed)"
    and "case commitable_records processed records of None \<Rightarrow> w' = w
      | Some cs \<Rightarrow> commit_records commit capture records cs w = Ret w'"
    and "u \<in> set records" and "u \<notin> set processed" and "pos w \<le> rec_Offset u"
  shows "pos w' \<le> rec_Offset u \<and>
    (\<exists>i event event' tasks main es1 es2 res. i < length records \<and> records ! i = u \<and>
      unmarshal_event (rec_Value u) = Inr event \<and> processEvent (P i) event = Ret (event', tasks, main) \<and>
      group_emits tasks main es1 res \<and> left_for_retry event' res es2 \<and> set es2 \<subseteq> set es)"
proof -
  let ?h = "\<lambda>rs w. (if rs = records then processed else [], w)"
  have h: "partition_consumer ?h commit capture pos"
    by (rule one_batch_handler [OF ProcessEvents_sub [OF assms(1,4)] assms(2)])
  have run: "processRecordsAndCommit ?h commit capture records w = Ret w'"
    using assms(5) by (auto simp: processRecordsAndCommit_def split: option.splits)
  have "pos w' \<le> rec_Offset u"
    by (rule partition_consumer.batch_keeps_unprocessed [OF h assms(3) run assms(6) _ assms(8)]) (simp add: assms(7))
  with ProcessEvents_left [OF assms(1,4,6,7)] show ?thesis by blast
qed

text \<open>
  C2: Nothing is dropped silently. In a complete run every record has effects of its own, within
  which it is either reported as unreadable and returned; or processed and returned; or, when its
  processing fails, left for a retry, or returned after a push of the failed event with its error to
  the topic of dead letters. The run returns exactly the records so appended.
\<close>
theorem ProcessEvents_outcomes:
  assumes "\<And>i. processor_services (P i)" and "ProcessEvents P records es (Ret processed)"
  shows "mset processed \<subseteq># mset records \<and> processed = appended es \<and>
    (\<exists>ess. es \<in> interleavings ess \<and> length ess = length records \<and>
      (\<forall>i < length records. record_outcome (P i) (records ! i) (ess ! i)))"
  using ProcessEvents_sub [OF assms] ProcessEvents_records [OF assms] by blast

section \<open>The processor of the program\<close>

definition wired_processor :: "'db enrichment_service \<Rightarrow> string \<Rightarrow> string \<Rightarrow> string \<Rightarrow> string \<Rightarrow> string \<Rightarrow> 'db event_processor" where
  "wired_processor enrichment enriched expanded inAdvance deadLetter flags =
     \<lparr>ep_Enrichment = enrichment, ep_Producer = kafka_service enriched expanded inAdvance deadLetter,
      ep_Flag = FlagStore_Flag flags\<rparr>"

interpretation wired: processor_services "wired_processor enrichment enriched expanded inAdvance deadLetter flags"
  for enrichment enriched expanded inAdvance deadLetter flags
  unfolding processor_services_def wired_processor_def
  by (simp add: kafka_svc.producer_service_axioms flag_store.flagger_axioms)

definition sample_processor :: "api_store \<Rightarrow> ref_db event_processor" where
  "sample_processor store = wired_processor (sample_service store) ''enriched'' ''expanded'' ''in_advance'' ''dead_letters'' ''flags''"

definition down :: api_store where
  "down = sample_api_store\<lparr>as_err := Some (ErrMsg ''connection refused'')\<rparr>"

definition sample_json :: "json option" where
  "sample_json = Some (JObj [(''organization_id'', JStr ''org''), (''external_subscription_id'', JStr ''acme''),
     (''transaction_id'', JStr ''t1''), (''code'', JStr ''api''), (''timestamp'', JNum ''5''),
     (''properties'', JObj [(''region'', JStr ''us'')]), (''ingested_at'', JStr ''2025-03-03T15:03:29'')])"

definition raw_record :: "json option \<Rightarrow> int \<Rightarrow> json option kgo_record" where
  "raw_record v n = \<lparr>rec_Topic = ''events_raw'', rec_Partition = 0, rec_Key = ''k'', rec_Value = v, rec_Offset = n\<rparr>"

text \<open>The run of a record whose enrichment fails.\<close>

lemma failed_enrichment_run:
  assumes "unmarshal_event (rec_Value r) = Inr event" and "EnrichEvent (ep_Enrichment P) event = Ret (event', res)" and "\<not> Success res"
    and "emits (finish_record P r event' (failedResult res (ErrorCode res) (ErrorMessage res))) es ()"
  shows "\<exists>g. process_one P r = Ret g \<and> goroutine_emits g es"
proof -
  let ?res = "failedResult res (ErrorCode res) (ErrorMessage res)"
  have "process_one P r = Ret (Group [] (Return ?res) (finish_record P r event'))"
    using assms(1-3) by (simp add: process_one_def processEvent_def)
  moreover have "group_emits [] (Return ?res) [] ?res" by (auto simp: group_emits_def)
  ultimately show ?thesis using assms(4) by fastforce
qed

definition sample_event_in :: event where
  "sample_event_in = get_or zero_event (case unmarshal_event sample_json of Inl _ \<Rightarrow> None | Inr e \<Rightarrow> Some e)"

lemma sample_event_in: "unmarshal_event sample_json = Inr sample_event_in"
proof -
  have "\<not> isl (unmarshal_event sample_json)" by code_simp
  then show ?thesis by (auto simp: sample_event_in_def split: sum.splits)
qed

definition down_result :: "enriched_event list result" where
  "down_result = failedMultiEventsResult (FailedResult (ErrMsg ''connection refused'') :: billable_metric result) ''fetch_billable_metric'' ''Error fetching billable metric''"

lemma down_enrich: "EnrichEvent (ep_Enrichment (sample_processor down)) sample_event_in = Ret (sample_event_in, down_result)"
proof -
  have "Success (ToEnrichedEvent sample_event_in)" by code_simp
  moreover have "find_metric (ep_Enrichment (sample_processor down)) o1 c1 = FailedResult (ErrMsg ''connection refused'')" for o1 c1
    by (simp add: find_metric_def sample_processor_def wired_processor_def sample_service_def down_def FetchBillableMetric_def failedBillableMetricResult_def Let_def)
  ultimately show ?thesis by (simp add: EnrichEvent_def Let_def down_result_def)
qed

lemma one_record_run:
  assumes "process_one P r = Ret g" and "goroutine_emits g es"
  shows "ProcessEvents (\<lambda>_. P) [r] es (Ret (appended es))"
proof -
  have "goroutines (\<lambda>_. P) [r] = map Ret [g]" using assms(1) by (simp add: goroutines_def)
  moreover have "list_all2 goroutine_emits [g] [es]" using assms(2) by simp
  moreover have "es \<in> interleavings [es]" by simp
  ultimately show ?thesis unfolding ProcessEvents_def go.case by blast
qed

definition down_effects :: "effect list" where
  "down_effects = [(CaptureException (Some (ErrMsg ''connection refused''))
       (Some (''fetch_billable_metric'', ''Error fetching billable metric'')) (Some sample_event_in), RErr None),
     (Now, RTime (ct_instant (ev_IngestedAt sample_event_in) + 5 * Hour))]"

lemma sample_services: "processor_services (sample_processor store)"
  unfolding sample_processor_def by (rule wired.processor_services_axioms)

lemma down_finish:
  "emits (finish_record (sample_processor down) r sample_event_in (failedResult down_result (ErrorCode down_result) (ErrorMessage down_result))) down_effects ()"
  by (simp add: finish_record_def retry_later_def down_result_def down_effects_def failed_results emits_bind emits_Do time_Now_def Hour_def Second_def)

lemma down_batch: "ProcessEvents (\<lambda>_. sample_processor down) [raw_record sample_json 7] down_effects (Ret [])"
proof -
  have "\<not> Success down_result" by (simp add: down_result_def)
  then obtain g where "process_one (sample_processor down) (raw_record sample_json 7) = Ret g" "goroutine_emits g down_effects"
    using failed_enrichment_run [OF _ down_enrich _ down_finish, of "raw_record sample_json 7"] sample_event_in
    by (auto simp: raw_record_def)
  from one_record_run [OF this] show ?thesis by (simp add: down_effects_def)
qed

lemma failed_records_stay_witness:
  "fst (0::int, [] :: go_error list) \<le> 7 \<and>
   (\<exists>event res es2. unmarshal_event sample_json = Inr event \<and> left_for_retry event (res :: enriched_event result) es2 \<and> set es2 \<subseteq> set down_effects)"
proof -
  let ?r = "raw_record sample_json 7"
  have wf: "wf_batch [?r]" by (simp add: wf_batch_def raw_record_def MaxInt64_def)
  have none: "commitable_records [] [?r] = None" by (simp add: commitable_records_def findMax_unfold)
  have "fst (0::int, [] :: go_error list) \<le> rec_Offset ?r \<and>
    (\<exists>i event event' tasks main es1 es2 res. i < length [?r] \<and> [?r] ! i = ?r \<and>
      unmarshal_event (rec_Value ?r) = Inr event \<and> processEvent (sample_processor down) event = Ret (event', tasks, main) \<and>
      group_emits tasks main es1 res \<and> left_for_retry event' res es2 \<and> set es2 \<subseteq> set down_effects)"
    by (rule failed_records_stay [OF sample_services broker.kafka_commit_axioms wf down_batch, where w = "(0, [])"])
      (simp_all add: none, simp add: raw_record_def)
  then obtain event event' tasks main es1 es2 res where o: "unmarshal_event (rec_Value ?r) = Inr event"
      "processEvent (sample_processor down) event = Ret (event', tasks, main)" "group_emits tasks main es1 res"
      "left_for_retry event' res es2" "set es2 \<subseteq> set down_effects"
    by (elim conjE exE) (rule that; assumption)
  have "event = sample_event_in" using o(1) sample_event_in by (simp add: raw_record_def)
  then have "event' = sample_event_in" using o(2) down_enrich unfolding processEvent_def by (auto simp: down_result_def)
  with o sample_event_in show ?thesis by (intro conjI exI [of _ event] exI [of _ res] exI [of _ es2]) (simp_all add: raw_record_def)
qed

lemma ProcessEvents_outcomes_witness:
  "\<exists>es. ProcessEvents (\<lambda>_. sample_processor down) [raw_record None 8] es (Ret [raw_record None 8]) \<and>
     mset [raw_record None 8] \<subseteq># mset [raw_record None 8] \<and> appended es = [raw_record None 8]"
proof -
  let ?r = "raw_record None 8"
  let ?g = "Plain (io_bind (CaptureError (Some (ErrMsg ''invalid character''))) (\<lambda>_. append_record ?r))"
  let ?es = "[(CaptureException (Some (ErrMsg ''invalid character'')) None None, RErr None), (Append ?r, RErr None)]"
  have one: "process_one (sample_processor down) ?r = Ret ?g"
    by (simp add: process_one_def raw_record_def unmarshal_event_def)
  have run: "goroutine_emits ?g ?es" by (auto simp: emits_bind)
  have "appended ?es = [?r]" by simp
  then have run: "ProcessEvents (\<lambda>_. sample_processor down) [?r] ?es (Ret [?r])"
    using one_record_run [OF one run] by (simp only:)
  from ProcessEvents_outcomes [OF sample_services run] run show ?thesis by (intro exI [of _ ?es]) simp
qed

section \<open>What an event sends\<close>

text \<open>The producers and events of the goroutines that an enriched event starts.\<close>

definition deliveries :: "'db event_processor \<Rightarrow> event \<Rightarrow> enriched_event list \<Rightarrow> (message_producer \<times> enriched_event) list" where
  "deliveries P event evs =
     (let eps = ep_Producer P; expanded = map (Pair (ps_expanded eps)) (filter (\<lambda>ev. ee_ChargeID ev \<noteq> None) evs) in
      if IsReprocess event then expanded
      else (ps_enriched eps, hd evs) # expanded @
        (if ee_Subscription (hd evs) \<noteq> None \<and> NotAPIPostProcessed event \<and> pays_in_advance evs
         then [(ps_inAdvance eps, hd evs)] else []))"

lemma after_enrichment_tasks:
  "fst (after_enrichment P event e (e # evs)) =
     map (\<lambda>(Q, ev). io_bind (produceEvent (ep_Producer P) ev (message_key ev) Q) report) (deliveries P event (e # evs))"
  by (simp add: after_enrichment_def deliveries_def expanded_tasks_def Let_def ProduceEnrichedEvent_def
      ProduceEnrichedExpandedEvent_def [abs_def] ProduceChargedInAdvanceEvent_def)

lemma pushes_interleavings: "es \<in> interleavings ess \<Longrightarrow> mset (pushes es) = mset (concat (map pushes ess))"
proof -
  assume "es \<in> interleavings ess"
  then have "mset (pushes es) = mset (pushes (concat ess))"
    unfolding pushes_def mset_filter by (simp only: mset_interleavings)
  also have "pushes (concat ess) = concat (map pushes ess)" by (induction ess) simp_all
  finally show ?thesis .
qed

definition is_redis :: "effect \<Rightarrow> bool" where
  "is_redis e = (case fst e of ZAdd _ _ _ \<Rightarrow> True | ExpireOp _ _ \<Rightarrow> True | _ \<Rightarrow> False)"

lemma is_redis_simps [simp]:
  "is_redis (ZAdd n sc m, a)" "is_redis (ExpireOp key ttl, a)" "\<not> is_redis (Now, a)"
  "\<not> is_redis (CaptureException er x ev, a)" "\<not> is_redis (ProduceSync tp k v, a)" "\<not> is_redis (Append r, a)"
  by (simp_all add: is_redis_def)

lemma quiet_no_redis: "quiet es \<Longrightarrow> filter is_redis es = []"
  by (auto simp: quiet_def filter_empty_conv list_all_iff is_redis_def split: op.splits)

lemma ExpireCache_run:
  "emits (ExpireCache evs) es () \<Longrightarrow> pushes es = [] \<and>
     map fst (filter is_redis es) = map (\<lambda>(ff, sub). ExpireOp (join_with ''/'' (charge_cache_parts ff sub)) EXPIRATION_TIME)
       (List.map_filter (\<lambda>ev. map_option (\<lambda>ff. (ff, ee_SubscriptionID ev)) (ee_FlatFilter ev)) evs)"
proof (induction evs arbitrary: es)
  case Nil
  then show ?case by simp
next
  case (Cons ev evs)
  show ?case
  proof (cases "ee_FlatFilter ev")
    case None
    with Cons show ?thesis by (simp add: List.map_filter_simps)
  next
    case (Some ff)
    obtain es1 es2 es3 r where run: "es = es1 @ es2 @ es3" "emits (ChargeCache_Expire ff (ee_SubscriptionID ev)) es1 r"
        "emits (if Failure r then CaptureError (Error r) else Return ()) es2 ()" "emits (ExpireCache evs) es3 ()"
      using Cons.prems Some by (auto simp: emits_bind)
    have "pushes es2 = [] \<and> filter is_redis es2 = []" using run(3) by (auto split: if_splits)
    moreover obtain err where "es1 = [(ExpireOp (join_with ''/'' (charge_cache_parts ff (ee_SubscriptionID ev))) EXPIRATION_TIME, RErr err)]"
      using run(2) by (auto simp: ChargeCache_Expire_emits)
    ultimately show ?thesis using Cons.IH [OF run(4)] run(1) Some by (simp add: List.map_filter_simps)
  qed
qed

context processor_services
begin

lemma main_pushes:
  assumes "emits (snd (after_enrichment P event e evs)) es res"
  shows "pushes es = []"
proof -
  have "pushes es = []" if "emits (refresh P e evs) es res"
    using refresh_run [OF that] ExpireCache_run by (auto split: option.splits)
  then show ?thesis using assms by (auto simp: after_enrichment_def Let_def split: if_splits)
qed

lemma group_deliveries:
  assumes "(tasks, main) = after_enrichment P event e (e # evs)" and "group_emits tasks main es res"
  shows "\<exists>ess. mset (pushes es) = mset (concat (map pushes ess)) \<and>
    list_all2 (\<lambda>(Q, ev) t. case encode_enriched_event ev of
        None \<Rightarrow> pushes t = []
      | Some j \<Rightarrow> delivered dead_letters (mp_GetTopic Q) (Some (message_key ev)) (Some j) t) (deliveries P event (e # evs)) ess"
proof -
  obtain es0 ess where run: "emits main es0 res" "list_all2 (\<lambda>t e. emits t e ()) tasks ess" "es \<in> interleavings (es0 # ess)"
    using assms(2) unfolding group_emits_def by blast
  have tasks: "tasks = map (\<lambda>(Q, ev). io_bind (produceEvent (ep_Producer P) ev (message_key ev) Q) report) (deliveries P event (e # evs))"
    using assms(1) after_enrichment_tasks [of P event e evs] by (metis fst_conv)
  have "pushes es0 = []" using main_pushes [of event e "e # evs"] run(1) assms(1) by (metis snd_conv)
  then have "mset (pushes es) = mset (concat (map pushes ess))" using pushes_interleavings [OF run(3)] by simp
  moreover have contract: "producer_contract (fst d)" if "d \<in> set (deliveries P event (e # evs))" for d
    using that contracts by (auto simp: deliveries_def Let_def split: if_splits)
  let ?R = "\<lambda>(Q, ev) t. case encode_enriched_event ev of
        None \<Rightarrow> pushes t = []
      | Some j \<Rightarrow> delivered dead_letters (mp_GetTopic Q) (Some (message_key ev)) (Some j) t"
  have "list_all2 ?R (deliveries P event (e # evs)) ess"
    using run(2) [unfolded tasks list_all2_map1]
  proof (rule list.rel_mono_strong)
    fix d t assume d: "d \<in> set (deliveries P event (e # evs))"
      and t: "emits (case d of (Q, ev) \<Rightarrow> io_bind (produceEvent (ep_Producer P) ev (message_key ev) Q) report) t ()"
    obtain Q ev where dq: "d = (Q, ev)" by fastforce
    have "producer_contract Q" using contract [OF d] dq by simp
    from produce_task [OF t [unfolded dq prod.case] this] show "?R d t" unfolding dq by simp
  qed
  ultimately show ?thesis by blast
qed

lemma group_redis:
  assumes "(tasks, main) = after_enrichment P event e evs" and "group_emits tasks main es res"
  shows "\<exists>es0. emits main es0 res \<and> filter is_redis es = filter is_redis es0"
proof -
  obtain es0 ess where run: "emits main es0 res" "list_all2 (\<lambda>t e. emits t e ()) tasks ess" "es \<in> interleavings (es0 # ess)"
    using assms(2) unfolding group_emits_def by blast
  have t: "tasks = fst (after_enrichment P event e evs)" using assms(1) by (metis fst_conv)
  have none: "filter is_redis x = []" if x: "x \<in> set ess" for x
  proof -
    obtain i where "i < length ess" "x = ess ! i" using x by (auto simp: in_set_conv_nth)
    then have "emits (tasks ! i) x ()" "tasks ! i \<in> set tasks"
      using run(2) by (auto simp: list_all2_conv_all_nth)
    then show ?thesis using tasks_quiet quiet_no_redis t by blast
  qed
  then have "interleavings (map (filter is_redis) ess) = {[]}" by (intro interleavings_empty) auto
  moreover have "filter is_redis es \<in> interleavings (map (filter is_redis) (es0 # ess))"
    using filter_interleavings [OF run(3)] .
  ultimately have "filter is_redis es = filter is_redis es0" by simp
  with run(1) show ?thesis by blast
qed

end

text \<open>
  C4: What a successfully enriched event sends, in whatever order its goroutines run: the first of
  its enriched events to the topic of enriched events, each one with a charge to the expanded topic,
  and the first again to the charged in advance topic when a charge pays in advance and the event is
  to be refreshed; of a reprocessed event only the expanded ones. Each message is pushed once; one
  whose push fails is followed by a dead letter, and one that has no JSON is not pushed.
\<close>
theorem processEvent_deliveries:
  assumes "processor_services P" and "processEvent P event = Ret (event', tasks, main)" and "group_emits tasks main es res"
    and "EnrichEvent (ep_Enrichment P) event = Ret (event', SuccessResult (e # evs))"
  shows "\<exists>ess. mset (pushes es) = mset (concat (map pushes ess)) \<and>
    list_all2 (\<lambda>(Q, ev) t. case encode_enriched_event ev of
        None \<Rightarrow> pushes t = []
      | Some j \<Rightarrow> delivered (mp_GetTopic (ps_deadLetter (ep_Producer P))) (mp_GetTopic Q) (Some (message_key ev)) (Some j) t)
      (deliveries P event' (e # evs)) ess"
proof -
  have "(tasks, main) = after_enrichment P event' e (e # evs)"
    using assms(2,4) by (cases rule: processEvent_cases) auto
  from processor_services.group_deliveries [OF assms(1) this assms(3)] show ?thesis .
qed


text \<open>A run of the sample processor on an event with two charges, one paid in advance.\<close>

definition sample_topics :: "(message_producer \<times> enriched_event) list \<Rightarrow> string list" where
  "sample_topics ds = map (\<lambda>(Q, _). mp_GetTopic Q) ds"

lemma sample_run:
  obtains event' e evs tasks main es res where
    "EnrichEvent (ep_Enrichment (sample_processor sample_api_store)) (raw_event (Some [(''region'', AStr ''us'')])) = Ret (event', SuccessResult (e # evs))"
    "processEvent (sample_processor sample_api_store) (raw_event (Some [(''region'', AStr ''us'')])) = Ret (event', tasks, main)"
    "group_emits tasks main es res"
    "sample_topics (deliveries (sample_processor sample_api_store) event' (e # evs)) = [''enriched'', ''expanded'', ''expanded'', ''in_advance'']"
    "\<not> IsReprocess event' \<and> ee_Subscription e \<noteq> None \<and> NotAPIPostProcessed event'"
proof -
  let ?P = "sample_processor sample_api_store" and ?ev = "raw_event (Some [(''region'', AStr ''us'')])"
  have run: "case EnrichEvent (ep_Enrichment ?P) ?ev of Panic _ \<Rightarrow> False
    | Ret (event', r) \<Rightarrow> Success r \<and> (case get_or [] (Value r) of [] \<Rightarrow> False
      | e # evs \<Rightarrow> sample_topics (deliveries ?P event' (e # evs)) = [''enriched'', ''expanded'', ''expanded'', ''in_advance''] \<and>
          \<not> IsReprocess event' \<and> ee_Subscription e \<noteq> None \<and> NotAPIPostProcessed event')"
    by code_simp
  then obtain event' r where r: "EnrichEvent (ep_Enrichment ?P) ?ev = Ret (event', r)" "Success r"
      "case get_or [] (Value r) of [] \<Rightarrow> False
      | e # evs \<Rightarrow> sample_topics (deliveries ?P event' (e # evs)) = [''enriched'', ''expanded'', ''expanded'', ''in_advance''] \<and>
          \<not> IsReprocess event' \<and> ee_Subscription e \<noteq> None \<and> NotAPIPostProcessed event'"
    by (auto split: go.splits)
  have order: "mset (es_range (ep_Enrichment ?P) m) = mset m" for m
    by (simp add: sample_processor_def wired_processor_def sample_range)
  obtain evs0 where evs0: "r = SuccessResult evs0" "evs0 \<noteq> []"
    using EnrichEvent_shape [OF order r(1,2)] by blast
  obtain e evs where evs: "evs0 = e # evs" using evs0(2) by (cases evs0) auto
  have rs: "r = SuccessResult (e # evs)" using evs0(1) evs by simp
  obtain tasks main where a: "after_enrichment ?P event' e (e # evs) = (tasks, main)" by fastforce
  have p: "processEvent ?P ?ev = Ret (event', tasks, main)"
    unfolding processEvent_def r(1) rs by (simp add: a)
  obtain es res where g: "group_emits tasks main es res" using group_completes [of tasks main] by blast
  have d: "sample_topics (deliveries ?P event' (e # evs)) = [''enriched'', ''expanded'', ''expanded'', ''in_advance'']"
      "\<not> IsReprocess event' \<and> ee_Subscription e \<noteq> None \<and> NotAPIPostProcessed event'"
    using r(3) unfolding rs by simp_all
  show thesis by (rule that [OF r(1) [unfolded rs] p g d])
qed

lemma processEvent_deliveries_witness:
  "\<exists>es ess. mset (pushes es) = mset (concat (map pushes ess)) \<and> length ess = 4"
proof (rule sample_run)
  fix event' e evs tasks main es res
  assume run: "EnrichEvent (ep_Enrichment (sample_processor sample_api_store)) (raw_event (Some [(''region'', AStr ''us'')])) = Ret (event', SuccessResult (e # evs))"
    "processEvent (sample_processor sample_api_store) (raw_event (Some [(''region'', AStr ''us'')])) = Ret (event', tasks, main)"
    "group_emits tasks main es res"
    and topics: "sample_topics (deliveries (sample_processor sample_api_store) event' (e # evs)) = [''enriched'', ''expanded'', ''expanded'', ''in_advance'']"
  have "length (deliveries (sample_processor sample_api_store) event' (e # evs)) = 4"
    using arg_cong [OF topics, of length] by (simp add: sample_topics_def)
  moreover obtain ess where ess: "mset (pushes es) = mset (concat (map pushes ess))"
      "length (deliveries (sample_processor sample_api_store) event' (e # evs)) = length ess"
    using processEvent_deliveries [OF sample_services run(2,3,1)] by (elim exE conjE) (rule that; (assumption | erule list_all2_lengthD))
  ultimately show ?thesis by (intro exI [of _ es] exI [of _ ess]) simp
qed


end
