(* ===== verification/Typed_Events.thy ===== *)
theory Typed_Events
  imports Enrichment
begin

text \<open>
  The dynamic types of events. The properties and the timestamp of an event are of Go's open type
  \<open>any\<close>, and marshalling an \<open>any\<close> can fail. A value that comes from JSON text has the types of JSON
  and only finite numbers (\<open>json_typed\<close>); the lemmas show that reading an event gives such values,
  that every step of the enrichment keeps them, and that they can be written again. What is left to
  fail when an event is written are its computed timestamp and the dates of its charge.
\<close>

section \<open>Values from JSON text\<close>

text \<open>A number literal of JSON starts with a digit, or with a minus sign and a digit.\<close>

definition number_literal :: "string \<Rightarrow> bool" where
  "number_literal l \<longleftrightarrow> (case l of
     [] \<Rightarrow> False
   | c # cs \<Rightarrow> is_digit c \<or> (c = CHR ''-'' \<and> (case cs of [] \<Rightarrow> False | d # _ \<Rightarrow> is_digit d)))"

fun json_text_value :: "json \<Rightarrow> bool" where
  "json_text_value (JNum l) = number_literal l"
| "json_text_value (JArr js) = list_all json_text_value js"
| "json_text_value (JObj kvs) = list_all (\<lambda>(k, j). json_text_value j) kvs"
| "json_text_value _ = True"

fun json_typed :: "any \<Rightarrow> bool" where
  "json_typed (AInt i) = False"
| "json_typed (AInt64 i) = False"
| "json_typed (AFloat x) = is_finite_f64 x"
| "json_typed (AArr xs) = list_all json_typed xs"
| "json_typed (AMap kvs) = list_all (\<lambda>(k, x). json_typed x) kvs"
| "json_typed _ = True"

definition typed_properties :: "properties \<Rightarrow> bool" where
  "typed_properties p \<longleftrightarrow> (case p of None \<Rightarrow> True | Some m \<Rightarrow> json_typed (AMap m))"

text \<open>A literal is not one of the spellings of infinity and NaN, so its float is finite.\<close>

lemma lower_digit: "is_digit c \<Longrightarrow> lower c = c"
  by (simp add: lower_def is_digit_def)

lemma digit_not: "is_digit c \<Longrightarrow> c \<notin> {CHR ''i'', CHR ''n'', CHR ''+'', CHR ''-''}"
  by (auto simp: is_digit_def)

lemma number_literal_not_special:
  assumes "number_literal l"
  shows "special_float l = None"
proof -
  have minus: "lower (CHR ''-'') = CHR ''-''" by (simp add: lower_def)
  from assms consider d cs where "l = d # cs" "is_digit d" | d cs where "l = CHR ''-'' # d # cs" "is_digit d"
    by (auto simp: number_literal_def split: list.splits)
  then show ?thesis
  proof cases
    case 1
    then show ?thesis using digit_not [of d] by (simp add: special_float_def Let_def drop_sign_def lower_digit)
  next
    case 2
    then show ?thesis using digit_not [of d] by (simp add: special_float_def Let_def drop_sign_def lower_digit minus)
  qed
qed

lemma round_frac_number: "round_frac neg p q \<noteq> NaN"
  by (auto simp: round_frac_def signed_zero_def signed_inf_def Let_def split_beta)

lemma finish_float_number: "finish_float s neg base m k e rest = Some f \<Longrightarrow> f \<noteq> NaN \<and> f \<noteq> PosInf \<and> f \<noteq> NegInf"
  by (auto simp: finish_float_def scaled_float_def Let_def round_frac_number split: if_splits)

lemma parse_float_finite:
  assumes "number_literal l" and "parse_float l = Some f"
  shows "is_finite_f64 f"
proof -
  have "f \<noteq> NaN \<and> f \<noteq> PosInf \<and> f \<noteq> NegInf"
    using assms(2) finish_float_number
    by (fastforce simp: parse_float_def number_literal_not_special [OF assms(1)] Let_def
      split: if_splits list.splits option.splits prod.splits)
  then show ?thesis by (cases f) (simp_all add: is_finite_f64_def)
qed

lemma map_sum_list_all:
  "map_sum_list f xs = Inr ys \<Longrightarrow> (\<And>x y. x \<in> set xs \<Longrightarrow> f x = Inr y \<Longrightarrow> P y) \<Longrightarrow> list_all P ys"
proof (induction xs arbitrary: ys)
  case (Cons x xs)
  from Cons.prems(1) obtain y ys' where y: "f x = Inr y" "map_sum_list f xs = Inr ys'" "ys = y # ys'"
    by (cases "f x"; cases "map_sum_list f xs") auto
  have "list_all P ys'" by (rule Cons.IH [OF y(2)]) (auto intro: Cons.prems(2))
  moreover have "P y" using Cons.prems(2) [OF _ y(1)] by simp
  ultimately show ?case by (simp add: y(3))
qed simp

lemma typed_update: "list_all (\<lambda>(k, x). P x) m \<Longrightarrow> P v \<Longrightarrow> list_all (\<lambda>(k, x). P x) (AList.update k v m)"
  by (induction m) auto

lemma typed_updates:
  "list_all (\<lambda>(k, x). P x) es \<Longrightarrow> list_all (\<lambda>(k, x). P x) m \<Longrightarrow>
     list_all (\<lambda>(k, x). P x) (fold (\<lambda>(k, x) m. AList.update k x m) es m)"
proof (induction es arbitrary: m)
  case (Cons e es)
  then show ?case by (cases e) (simp add: typed_update)
qed simp

text \<open>The entries of an object, decoded one by one.\<close>

lemma decoded_entries:
  assumes "map_sum_list (\<lambda>(k, j). sum_bind (decode_any j) (\<lambda>x. Inr (k, x))) kvs = Inr es"
    and "\<And>k j x. (k, j) \<in> set kvs \<Longrightarrow> decode_any j = Inr x \<Longrightarrow> P x"
  shows "list_all (\<lambda>(k, x). P x) es"
  by (rule map_sum_list_all [OF assms(1)]) (auto elim!: sum_bind.elims dest: assms(2))

lemma decode_any_typed: "decode_any j = Inr x \<Longrightarrow> json_text_value j \<Longrightarrow> json_typed x"
proof (induction j arbitrary: x rule: decode_any.induct)
  case (3 l)
  then show ?case by (auto simp: parse_float_finite split: option.splits)
next
  case (5 js)
  from 5(2) obtain xs where xs: "map_sum_list decode_any js = Inr xs" "x = AArr xs"
    by (cases "map_sum_list decode_any js") auto
  have "list_all json_typed xs"
    by (rule map_sum_list_all [OF xs(1)]) (use 5(1,3) in \<open>auto simp: list_all_iff\<close>)
  with xs(2) show ?case by simp
next
  case (6 kvs)
  let ?entry = "\<lambda>(k, j). sum_bind (decode_any j) (\<lambda>x. Inr (k, x))"
  from 6(2) obtain es where es: "map_sum_list ?entry kvs = Inr es" "x = AMap (fold (\<lambda>(k, x) m. AList.update k x m) es [])"
    by (cases "map_sum_list ?entry kvs") auto
  have "list_all (\<lambda>(k, x). json_typed x) es"
    by (rule decoded_entries [OF es(1)]) (use 6(1,3) in \<open>fastforce simp: list_all_iff\<close>)
  then show ?case by (simp add: es(2) typed_updates)
qed auto

lemma decode_properties_typed:
  assumes "decode_properties j old = Inr p" and "json_text_value j" and "typed_properties old"
  shows "typed_properties p"
proof (cases j)
  case (JObj kvs)
  let ?entry = "\<lambda>(k, j). sum_bind (decode_any j) (\<lambda>x. Inr (k, x))"
  from assms(1) JObj obtain es where es: "map_sum_list ?entry kvs = Inr es"
    "p = Some (fold (\<lambda>(k, x) m. AList.update k x m) es (case old of None \<Rightarrow> [] | Some m \<Rightarrow> m))"
    by (cases "map_sum_list ?entry kvs") auto
  have "list_all (\<lambda>(k, x). json_typed x) es"
    by (rule decoded_entries [OF es(1)]) (use assms(2) JObj decode_any_typed in \<open>fastforce simp: list_all_iff\<close>)
  then show ?thesis using assms(3) by (simp add: es(2) typed_properties_def typed_updates split: option.splits)
qed (use assms in \<open>auto simp: typed_properties_def\<close>)

section \<open>Reading an event\<close>

definition typed_event :: "event \<Rightarrow> bool" where
  "typed_event ev \<longleftrightarrow> typed_properties (ev_Properties ev) \<and> json_typed (ev_Timestamp ev)"

text \<open>Each field keeps the types: two of them are open, the others do not touch those.\<close>

lemma typed_frame:
  "ev_Properties ev' = ev_Properties ev \<Longrightarrow> ev_Timestamp ev' = ev_Timestamp ev \<Longrightarrow> typed_event ev \<Longrightarrow> typed_event ev'"
  by (simp add: typed_event_def)

lemma map_sum_id_Inr: "map_sum id g s = Inr y \<longleftrightarrow> (\<exists>x. s = Inr x \<and> y = g x)"
  by (cases s) auto

lemma event_fields_typed:
  assumes "f \<in> set event_fields" and "jf_dec f j ev = Inr ev'" and "json_text_value j" and "typed_event ev"
  shows "typed_event ev'"
proof -
  from assms(1,2) have "(ev_Properties ev' = ev_Properties ev \<or> decode_properties j (ev_Properties ev) = Inr (ev_Properties ev')) \<and>
      (ev_Timestamp ev' = ev_Timestamp ev \<or> decode_any j = Inr (ev_Timestamp ev'))"
    unfolding event_fields_def str_field_def by (auto simp: map_sum_id_Inr)
  then show ?thesis using assms(3,4) decode_properties_typed decode_any_typed
    by (auto simp: typed_event_def)
qed

lemma find_field_in: "find_field fs k = Some f \<Longrightarrow> f \<in> set fs"
  by (auto simp: find_field_def find_Some_iff split: option.splits)

lemma unmarshal_entries_typed:
  "unmarshal_entries event_fields kvs ev = Inr ev' \<Longrightarrow> list_all (\<lambda>(k, j). json_text_value j) kvs \<Longrightarrow> typed_event ev \<Longrightarrow>
     typed_event ev'"
proof (induction kvs arbitrary: ev)
  case (Cons e kvs)
  obtain k j where e: "e = (k, j)" by (cases e)
  show ?case
  proof (cases "find_field event_fields k")
    case None
    with Cons e show ?thesis by simp
  next
    case (Some f)
    with Cons.prems(1) e obtain ev1 where ev1: "jf_dec f j ev = Inr ev1" "unmarshal_entries event_fields kvs ev1 = Inr ev'"
      by (cases "jf_dec f j ev") auto
    have "typed_event ev1"
      by (rule event_fields_typed [OF find_field_in [OF Some] ev1(1)]) (use Cons.prems e in auto)
    with Cons.IH [OF ev1(2)] Cons.prems(2) show ?thesis by simp
  qed
qed simp

lemma unmarshal_event_typed:
  assumes "unmarshal_event (Some j) = Inr ev" and "json_text_value j"
  shows "typed_event ev"
proof -
  have zero: "typed_event zero_event" by (simp add: typed_event_def zero_event_def typed_properties_def)
  show ?thesis
  proof (cases j)
    case (JObj kvs)
    then show ?thesis using assms zero unmarshal_entries_typed [of kvs zero_event ev] by (simp add: unmarshal_event_def)
  qed (use assms zero in \<open>auto simp: unmarshal_event_def\<close>)
qed

section \<open>Writing typed values\<close>

lemma those_iff: "those xs \<noteq> None \<longleftrightarrow> None \<notin> set xs"
  by (induction xs) (auto split: option.splits)

lemma json_float_finite: "json_float x \<noteq> None \<longleftrightarrow> is_finite_f64 x"
  by (simp add: json_float_def split_beta)

lemma encode_any_typed: "json_typed x \<Longrightarrow> encode_any x \<noteq> None"
proof (induction x rule: encode_any.induct)
  case (5 f)
  then show ?case using json_float_finite [of f] by simp
next
  case (7 xs)
  then have "encode_any x \<noteq> None" if "x \<in> set xs" for x using that by (simp add: list_all_iff)
  then have "None \<notin> set (map encode_any xs)" by (force simp del: not_None_eq)
  then show ?case using those_iff [of "map encode_any xs"] by simp
next
  case (8 kvs)
  let ?es = "sort_key fst (map (\<lambda>(k, x). (k, encode_any x)) kvs)"
  have "encode_any (snd e) \<noteq> None" if "e \<in> set kvs" for e
  proof -
    have "json_typed (snd e)" using that 8(2) by (simp add: list_all_iff split_beta)
    then show ?thesis by (rule 8(1) [OF that prod.collapse])
  qed
  then have "None \<notin> set (map (\<lambda>(k, m). map_option (Pair k) m) ?es)"
    by (simp add: split_beta image_iff eq_commute [of None])
  then show ?case using those_iff [of "map (\<lambda>(k, m). map_option (Pair k) m) ?es"] by simp
qed auto

lemma encode_properties_typed: "typed_properties p \<Longrightarrow> encode_properties p \<noteq> None"
  using encode_any_typed [of "AMap (the p)"]
  by (cases p) (simp_all add: typed_properties_def encode_properties_def del: encode_any.simps json_typed.simps)

lemma encode_object_iff: "encode_object kvs \<noteq> None \<longleftrightarrow> (\<forall>(k, m) \<in> set kvs. m \<noteq> None)"
proof -
  have "encode_object kvs \<noteq> None \<longleftrightarrow> None \<notin> set (map (\<lambda>(k, m). map_option (Pair k) m) kvs)"
    using those_iff [of "map (\<lambda>(k, m). map_option (Pair k) m) kvs"] by simp
  also have "\<dots> \<longleftrightarrow> (\<forall>e \<in> set kvs. snd e \<noteq> None)"
    by (auto simp: split_beta image_iff eq_commute [of None] simp del: not_None_eq)
  finally show ?thesis by (simp add: split_beta)
qed

declare encode_object.simps [simp del]

lemma omit_empty_some: "(k, m) \<in> set (omit_empty k' s) \<Longrightarrow> m \<noteq> None"
  by (auto simp: omit_empty_def split: if_splits)

lemma encode_event_typed:
  assumes "typed_event ev"
  shows "encode_event ev \<noteq> None"
  using encode_properties_typed [of "ev_Properties ev"] encode_any_typed [of "ev_Timestamp ev"] assms
  unfolding encode_event_def encode_object_iff typed_event_def by (auto dest: omit_empty_some)

lemma encode_time_iff: "encode_time t \<noteq> None \<longleftrightarrow> printable_time t"
  by (simp add: encode_time_def Let_def)

lemma encode_time_ptr_iff: "encode_time_ptr t \<noteq> None \<longleftrightarrow> (\<forall>x. t = Some x \<longrightarrow> printable_time x)"
  by (simp add: encode_time_ptr_def encode_time_iff del: not_None_eq split: option.split)

lemma encode_enriched_typed:
  assumes "typed_properties (ee_Properties ee)"
  shows "encode_enriched_event ee \<noteq> None \<longleftrightarrow> is_finite_f64 (ee_Timestamp ee) \<and>
    encode_time_ptr (ee_ChargeUpdatedAt ee) \<noteq> None \<and> encode_time_ptr (ee_ChargeFilterUpdatedAt ee) \<noteq> None"
  using encode_properties_typed [OF assms] json_float_finite [of "ee_Timestamp ee"]
  unfolding encode_enriched_event_def encode_object_iff by (auto dest: omit_empty_some)

section \<open>The enrichment keeps the types\<close>

definition typed_enriched :: "enriched_event \<Rightarrow> bool" where
  "typed_enriched ee \<longleftrightarrow> typed_properties (ee_Properties ee) \<and> typed_event (ee_InitialEvent ee)"

lemma ToEnrichedEvent_typed: "typed_event ev \<Longrightarrow> Value (ToEnrichedEvent ev) = Some ee \<Longrightarrow> typed_enriched ee"
  by (auto simp: ToEnrichedEvent_def Let_def typed_enriched_def typed_event_def new_enriched_event_def go_simps split: if_splits)

text \<open>The result of an expression is written as text.\<close>

lemma set_property_typed:
  assumes "set_property key (AStr s) ee = Ret ee'" and "typed_enriched ee"
  shows "typed_enriched ee'"
proof (cases "ee_Properties ee")
  case (Some m)
  then have "list_all (\<lambda>(k, x). json_typed x) (AList.update key (AStr s) m)"
    using assms(2) by (intro typed_update) (simp_all add: typed_enriched_def typed_properties_def)
  with Some assms show ?thesis by (auto simp: set_property_def typed_enriched_def typed_event_def typed_properties_def)
qed (use assms in \<open>simp add: set_property_def\<close>)

lemma evaluateExpression_typed:
  "evaluateExpression s ee bm = Ret (ee', r) \<Longrightarrow> typed_enriched ee \<Longrightarrow> typed_enriched ee'"
  by (auto simp: evaluateExpression_def Let_def go_bind_Ret_iff split: if_splits option.splits dest: set_property_typed)

lemma enrichWithBillableMetric_typed:
  assumes "enrichWithBillableMetric s ee bm = Ret (ee', r)" and "typed_enriched ee"
  shows "typed_enriched ee'"
proof -
  let ?e = "ee\<lparr>ee_BillableMetric := Some bm, ee_AggregationType := AggregationType_String (bm_AggregationType bm)\<rparr>"
  have start: "typed_enriched ?e" using assms(2) by (simp add: typed_enriched_def)
  from assms(1) obtain ee1 r1 where
    step: "(if ee_Source ?e \<noteq> HTTP_RUBY then evaluateExpression s ?e bm else Ret (?e, SuccessResult False)) = Ret (ee1, r1)"
    and rest: "ee' = ee1 \<or> ee' = ee1\<lparr>ee_Value := Some (metric_value ee1 bm)\<rparr>"
    unfolding enrichWithBillableMetric_def Let_def go_bind_Ret_iff by (auto split: if_splits)
  have "typed_enriched ee1"
    using step start evaluateExpression_typed by (auto split: if_splits)
  with rest show ?thesis by (auto simp: typed_enriched_def)
qed

lemma charge_events_typed:
  "charge_events ee charges = Ret evs \<Longrightarrow> typed_enriched ee \<Longrightarrow> x \<in> set evs \<Longrightarrow> typed_enriched x"
proof (induction ee charges arbitrary: evs rule: charge_events.induct)
  case (2 ee k filters charges)
  from 2(2) obtain ff evs' where "MatchingFilter filters ee = Ret ff" and evs': "charge_events ee charges = Ret evs'"
    "evs = charge_event ee ff # evs'"
    by (auto simp: go_bind_Ret_iff)
  then show ?case using 2 by (auto simp: typed_enriched_def)
qed simp

lemma enrichWithChargeInfo_typed:
  assumes "enrichWithChargeInfo s ee = Ret r" and "typed_enriched ee" and "x \<in> set (get_or [] (Value r))"
  shows "typed_enriched x"
  using assms charge_events_typed
  by (auto simp: enrichWithChargeInfo_def Let_def go_bind_Ret_iff go_simps split: if_splits)

lemma enrich_customer_typed:
  assumes "enrich_customer s ev ee = Ret (ev', r)" and "typed_enriched ee"
  shows "typed_event ev' \<and> (\<forall>x \<in> set (get_or [] (Value r)). typed_enriched x)"
proof -
  have failed: "Value (failedMultiEventsResult r' c m) = None" for r' :: "subscription result" and c m
    by (simp add: failedMultiEventsResult_def go_simps)
  let ?sub = "find_subscription s (ev_OrganizationID ev) (ev_ExternalSubscriptionID ev) (ee_Time ee)"
  have sub: "typed_enriched (case sub of None \<Rightarrow> ee | Some x \<Rightarrow> enrichWithSubscription ee x)" for sub
    using assms(2) by (auto simp: typed_enriched_def enrichWithSubscription_def split: option.split)
  have "ev' = ee_InitialEvent ee \<and> (Value r = None \<or>
      enrichWithChargeInfo s (case (if Failure ?sub then None else Value ?sub) of None \<Rightarrow> ee | Some x \<Rightarrow> enrichWithSubscription ee x) = Ret r)"
    using assms(1) unfolding enrich_customer_def Let_def by (auto simp: go_bind_Ret_iff failed split: if_splits)
  then show ?thesis using assms(2) enrichWithChargeInfo_typed [OF _ sub] by (auto simp: typed_enriched_def)
qed

lemma failed_values:
  "Value (failedMultiEventsResult r c m) = None" "Value (toMultiEventsResult r') = None \<or> Value (toMultiEventsResult r') = Some []"
  by (auto simp: failedMultiEventsResult_def toMultiEventsResult_def go_simps)

lemma EnrichEvent_typed:
  assumes "EnrichEvent s ev = Ret (ev', r)" and "typed_event ev"
  shows "typed_event ev' \<and> (\<forall>x \<in> set (get_or [] (Value r)). typed_enriched x)"
proof -
  let ?ee = "get_or (new_enriched_event ev) (Value (ToEnrichedEvent ev))"
  let ?bm = "find_metric s (ev_OrganizationID ev) (ev_Code ev)"
  show ?thesis
  proof (cases "Success (ToEnrichedEvent ev) \<and> Success ?bm")
    case False
    then show ?thesis using assms by (auto simp: EnrichEvent_def Let_def failed_values split: if_splits)
  next
    case True
    have start: "typed_enriched ?ee"
      using assms(2) ToEnrichedEvent_typed [OF assms(2)]
      by (cases "Value (ToEnrichedEvent ev)") (auto simp: typed_enriched_def new_enriched_event_def typed_event_def)
    show ?thesis
    proof (cases "Value ?bm")
      case None
      with True assms(1) have "enrich_customer s ev ?ee = Ret (ev', r)" by (simp add: EnrichEvent_def Let_def)
      then show ?thesis using start by (rule enrich_customer_typed)
    next
      case (Some bm)
      with True assms(1) obtain ee1 r1 where metric: "enrichWithBillableMetric s ?ee bm = Ret (ee1, r1)"
        and rest: "(if Failure r1 then Ret (ee_InitialEvent ee1, toMultiEventsResult r1) else enrich_customer s ev ee1) = Ret (ev', r)"
        by (auto simp: EnrichEvent_def Let_def go_bind_Ret_iff)
      have "typed_enriched ee1" using metric start by (rule enrichWithBillableMetric_typed)
      then show ?thesis using rest enrich_customer_typed [of s ev ee1 ev' r] failed_values(2) [of r1]
        by (auto simp: typed_enriched_def split: if_splits)
    qed
  qed
qed

text \<open>
  C37: what becomes of an event that was read from JSON has the types of JSON. After the enrichment,
  whatever its result, the event can be written into a dead letter; and an enriched event can be
  written exactly when its computed timestamp is a finite number and the dates of its charge and
  filter have four-digit years, never failing on its properties. (A timestamp given as text can be
  \<open>NaN\<close>, \<open>Inf\<close> or too large once multiplied: such an event is not produced.)
\<close>
theorem enriched_event_encodes:
  assumes "unmarshal_event (Some j) = Inr ev" and "json_text_value j" and "EnrichEvent s ev = Ret (ev', r)"
  shows "(\<forall>letter. fe_Event letter = ev' \<and> printable_time (fe_FailedAt letter) \<longrightarrow> encode_failed_event letter \<noteq> None) \<and>
    (\<forall>ee \<in> set (get_or [] (Value r)). typed_properties (ee_Properties ee) \<and>
       (encode_enriched_event ee \<noteq> None \<longleftrightarrow> is_finite_f64 (ee_Timestamp ee) \<and>
          (\<forall>t. ee_ChargeUpdatedAt ee = Some t \<longrightarrow> printable_time t) \<and>
          (\<forall>t. ee_ChargeFilterUpdatedAt ee = Some t \<longrightarrow> printable_time t)))"
proof -
  have "typed_event ev" by (rule unmarshal_event_typed [OF assms(1,2)])
  note typed = EnrichEvent_typed [OF assms(3) this]
  have "encode_failed_event letter \<noteq> None" if "fe_Event letter = ev'" "printable_time (fe_FailedAt letter)" for letter
    using encode_event_typed [OF typed [THEN conjunct1]] that encode_time_iff [of "fe_FailedAt letter"]
    unfolding encode_failed_event_def encode_object_iff by simp
  then show ?thesis
    using typed [THEN conjunct2] encode_enriched_typed
    unfolding typed_enriched_def encode_time_ptr_iff by blast
qed

text \<open>An event whose timestamp is the text \<open>NaN\<close> is accepted and enriched, and cannot be written.\<close>

definition nan_event :: json where
  "nan_event = JObj [(''organization_id'', JStr ''org''), (''code'', JStr ''seats''), (''transaction_id'', JStr ''t1''),
     (''properties'', JObj [(''count'', JNum ''3'')]), (''timestamp'', JStr ''NaN'')]"

definition plain_service :: "ref_db enrichment_service" where
  "plain_service = sample_service (sample_api_store\<lparr>as_billable_metrics := [sample_metric ''bm'' ''seats'' 4000000], as_subscriptions := []\<rparr>)"

theorem enriched_event_encodes_witness:
  "\<exists>ev ev' r ee. unmarshal_event (Some nan_event) = Inr ev \<and> EnrichEvent plain_service ev = Ret (ev', r) \<and>
     Value r = Some [ee] \<and> encode_enriched_event ee = None"
proof -
  have run: "case unmarshal_event (Some nan_event) of Inl e \<Rightarrow> False
      | Inr ev \<Rightarrow> (case EnrichEvent plain_service ev of Panic msg \<Rightarrow> False
          | Ret (ev', r) \<Rightarrow> (case Value r of Some [ee] \<Rightarrow> \<not> is_finite_f64 (ee_Timestamp ee) | _ \<Rightarrow> False))"
    by code_simp
  then obtain ev where ev: "unmarshal_event (Some nan_event) = Inr ev" by (cases "unmarshal_event (Some nan_event)") auto
  obtain ev' r where enrich: "EnrichEvent plain_service ev = Ret (ev', r)"
    using run unfolding ev by (cases "EnrichEvent plain_service ev") auto
  have "case Value r of Some [ee] \<Rightarrow> \<not> is_finite_f64 (ee_Timestamp ee) | _ \<Rightarrow> False" using run by (simp add: ev enrich)
  then obtain ee where ee: "Value r = Some [ee]" "\<not> is_finite_f64 (ee_Timestamp ee)"
    by (auto split: option.splits list.splits)
  have "json_text_value nan_event" by code_simp
  from enriched_event_encodes [OF ev this enrich] ee ev enrich show ?thesis by auto
qed

end
