(* ===== verification/Snapshot.thy ===== *)
theory Snapshot
  imports Stores Cache_Sync
begin

text \<open>
  cache/cache.go: \<open>LoadInitialSnapshot\<close>. Six goroutines read one table each and write its rows into
  the cache, one transaction per row; they run side by side, and their results are dropped.

  The rows of a goroutine are modelled as the list of its writes, so that a run of the group is a
  run of an interleaving of six lists; \<open>load_items_writes\<close> shows that one list alone is the loop of
  \<open>LoadSnapshot\<close>. The lemmas show that the cache does not depend on the interleaving, because keys
  of different tables start differently.
\<close>

section \<open>Writes\<close>

text \<open>A row that gets a key, with its marshalled form or the error that marshalling gives.\<close>

type_synonym row_write = "string \<times> (go_error + json)"

definition row_writes :: "'t codec \<Rightarrow> ('t \<Rightarrow> string) \<Rightarrow> 't list result \<Rightarrow> row_write list" where
  "row_writes cd keyFn res =
     (case Error res of
        Some e \<Rightarrow> []
      | None \<Rightarrow> map (\<lambda>item. (keyFn item, cd_Marshal cd item))
                  (filter (\<lambda>item. keyFn item \<noteq> []) (get_or [] (Value res))))"

text \<open>\<open>setJSON\<close> of a row, with the error that is captured.\<close>

fun write_row :: "'db badger \<Rightarrow> row_write \<Rightarrow> 'db \<Rightarrow> go_error list \<times> 'db" where
  "write_row B (key, Inl e) db = ([e], db)"
| "write_row B (key, Inr data) db =
     (case bg_Set B key data db of (Some e, db') \<Rightarrow> ([e], db') | (None, db') \<Rightarrow> ([], db'))"

fun write_rows :: "'db badger \<Rightarrow> row_write list \<Rightarrow> 'db \<Rightarrow> go_error list \<times> 'db" where
  "write_rows B [] db = ([], db)"
| "write_rows B (w # ws) db =
     (let (errs, db') = write_row B w db; (errs', db'') = write_rows B ws db' in (errs @ errs', db''))"

lemma write_row_setJSON:
  "write_row B (key, cd_Marshal cd item) db = (let (res, db') = setJSON B cd key item db in (captured res, db'))"
  by (auto simp: setJSON_def captured_def go_simps split: sum.splits option.splits prod.splits)

lemma load_items_writes:
  "snd (load_items B cd keyFn items db) =
     write_rows B (map (\<lambda>item. (keyFn item, cd_Marshal cd item)) (filter (\<lambda>item. keyFn item \<noteq> []) items)) db"
proof (induction items arbitrary: db)
  case (Cons item items)
  show ?case
  proof (cases "keyFn item = []")
    case False
    obtain res db' where set: "setJSON B cd (keyFn item) item db = (res, db')" by (cases "setJSON B cd (keyFn item) item db")
    obtain count errs db'' where rest: "load_items B cd keyFn items db' = (count, errs, db'')"
      by (cases "load_items B cd keyFn items db'")
    show ?thesis using Cons.IH [of db'] False set rest
      by (auto simp: write_row_setJSON captured_def go_simps split: option.splits prod.splits)
  qed (use Cons.IH in simp)
qed simp

text \<open>A loader alone does the writes of its rows, in order.\<close>

lemma LoadSnapshot_writes:
  "snd (LoadSnapshot B cd (case Error res of Some e \<Rightarrow> Inl e | None \<Rightarrow> Inr (get_or [] (Value res))) keyFn db) =
     write_rows B (row_writes cd keyFn res) db"
  using load_items_writes [of B cd keyFn "get_or [] (Value res)" db]
  by (auto simp: LoadSnapshot_def row_writes_def split: option.splits prod.splits)

section \<open>The initial snapshot\<close>

record database_rows =
  db_billable_metrics :: "billable_metric connection"
  db_subscriptions :: "subscription connection"
  db_charges :: "charge connection"
  db_billable_metric_filters :: "billable_metric_filter connection"
  db_charge_filters :: "charge_filter connection"
  db_charge_filter_values :: "charge_filter_value connection"

definition snapshot_goroutines :: "database_rows \<Rightarrow> instant \<Rightarrow> row_write list list" where
  "snapshot_goroutines conn now =
     [row_writes billable_metric_codec (\<lambda>bm. buildBillableMetricKey (bm_OrganizationID bm) (bm_Code bm))
        (GetAllBillableMetrics (db_billable_metrics conn)),
      row_writes subscription_codec (\<lambda>sub. case subscriptionKey sub of Inl _ \<Rightarrow> [] | Inr key \<Rightarrow> key)
        (GetAllSubscriptions now (db_subscriptions conn)),
      row_writes charge_codec (\<lambda>ch. buildChargeKey (ch_OrganizationID ch) (ch_PlanID ch) (ch_BillableMetricID ch) (ch_ID ch))
        (GetAllCharges (db_charges conn)),
      row_writes billable_metric_filter_codec
        (\<lambda>bmf. buildBillableMetricFilterKey (bmf_OrganizationID bmf) (bmf_BillableMetricID bmf) (bmf_ID bmf))
        (GetAllBillableMetricFilters (db_billable_metric_filters conn)),
      row_writes charge_filter_codec (\<lambda>cf. buildChargeFilterKey (cf_OrganizationID cf) (cf_ChargeID cf) (cf_ID cf))
        (GetAllChargeFilters (db_charge_filters conn)),
      row_writes charge_filter_value_codec
        (\<lambda>cfv. buildChargeFilterValueKey (cfv_OrganizationID cfv) (cfv_ChargeFilterID cfv) (cfv_BillableMetricFilterID cfv) (cfv_ID cfv))
        (GetAllChargeFilterValues (db_charge_filter_values conn))]"

text \<open>
  The loaders of Cache_Models are these goroutines, one by one: \<open>LoadBillableMetricsSnapshot\<close> and so
  on with the result of the query.
\<close>

lemma loaders_are_goroutines:
  "snapshot_goroutines conn now = wss \<Longrightarrow>
     snd (LoadBillableMetricsSnapshot B (GetAllBillableMetrics (db_billable_metrics conn)) db) = write_rows B (wss ! 0) db \<and>
     snd (LoadSubscriptionsSnapshot B (GetAllSubscriptions now (db_subscriptions conn)) db) = write_rows B (wss ! 1) db \<and>
     snd (LoadChargesSnapshot B (GetAllCharges (db_charges conn)) db) = write_rows B (wss ! 2) db \<and>
     snd (LoadBillableMetricFiltersSnapshot B (GetAllBillableMetricFilters (db_billable_metric_filters conn)) db) = write_rows B (wss ! 3) db \<and>
     snd (LoadChargeFiltersSnapshot B (GetAllChargeFilters (db_charge_filters conn)) db) = write_rows B (wss ! 4) db \<and>
     snd (LoadChargeFilterValuesSnapshot B (GetAllChargeFilterValues (db_charge_filter_values conn)) db) = write_rows B (wss ! 5) db"
  unfolding LoadBillableMetricsSnapshot_def LoadSubscriptionsSnapshot_def LoadChargesSnapshot_def
    LoadBillableMetricFiltersSnapshot_def LoadChargeFiltersSnapshot_def LoadChargeFilterValuesSnapshot_def
    LoadSnapshot_writes
  by (auto simp: snapshot_goroutines_def)

text \<open>
  The whole: a failed connection ends the process; otherwise the six goroutines run in some
  interleaving, the errors of single rows are captured, and the function returns after all of them.
\<close>

definition LoadInitialSnapshot ::
    "go_error + database_rows \<Rightarrow> instant \<Rightarrow> 'db badger \<Rightarrow> 'db \<Rightarrow> (go_error list \<times> 'db) go \<Rightarrow> bool" where
  "LoadInitialSnapshot connection now B db outcome \<longleftrightarrow>
     (case connection of
        Inl err \<Rightarrow> outcome = Panic (error_msg err)
      | Inr conn \<Rightarrow> (\<exists>ws \<in> interleavings (snapshot_goroutines conn now). outcome = Ret (write_rows B ws db)))"

section \<open>The interleaving does not matter\<close>

text \<open>Lists whose elements can be told apart by a class interleave without mixing within a class.\<close>

fun classes_apart :: "('a \<Rightarrow> 'b) \<Rightarrow> 'a list list \<Rightarrow> bool" where
  "classes_apart f [] \<longleftrightarrow> True"
| "classes_apart f (xs # xss) \<longleftrightarrow> f ` set xs \<inter> f ` set (concat xss) = {} \<and> classes_apart f xss"

lemma filter_apart:
  "classes_apart f xss \<Longrightarrow> ws \<in> interleavings xss \<Longrightarrow>
     filter (\<lambda>w. f w = c) ws = filter (\<lambda>w. f w = c) (concat xss)"
proof (induction xss arbitrary: ws)
  case (Cons xs xss)
  let ?P = "\<lambda>w. f w = c"
  from Cons.prems(2) obtain ys where ys: "ys \<in> interleavings xss" "ws \<in> shuffles xs ys" by auto
  have IH: "filter ?P ys = filter ?P (concat xss)" using Cons.IH Cons.prems(1) ys(1) by simp
  have sh: "filter ?P ws \<in> shuffles (filter ?P xs) (filter ?P ys)" using ys(2) filter_shuffles [of ?P xs ys] by blast
  show ?case
  proof (cases "filter ?P xs = []")
    case True
    with sh IH show ?thesis by simp
  next
    case False
    then obtain x where "x \<in> set xs" "f x = c" by (auto simp: filter_empty_conv)
    then have "filter ?P (concat xss) = []" using Cons.prems(1) by (auto simp: filter_empty_conv disjoint_iff image_iff)
    with sh IH show ?thesis by simp
  qed
qed simp

text \<open>What a list of writes leaves under a key: the last write of it.\<close>

definition last_write :: "row_write list \<Rightarrow> string \<Rightarrow> json option" where
  "last_write ws k = (case map_of (rev ws) k of Some (Inr j) \<Rightarrow> Some j | _ \<Rightarrow> None)"

lemma map_of_filter_key: "map_of (filter (\<lambda>w. fst w = k) ws) k = map_of ws k"
  by (induction ws) auto

lemma last_write_filter: "last_write (filter (\<lambda>w. fst w = k) ws) k = last_write ws k"
  by (simp add: last_write_def rev_filter map_of_filter_key)

lemma write_rows_view:
  assumes "badger_store B view" and "write_rows B ws db = ([], db')"
  shows "view db' = (\<lambda>k. case last_write ws k of Some j \<Rightarrow> Some j | None \<Rightarrow> view db k) \<and>
         (\<forall>w \<in> set ws. \<exists>j. snd w = Inr j)"
  using assms(2)
proof (induction ws arbitrary: db)
  case Nil
  then show ?case by (simp add: last_write_def)
next
  case (Cons w ws)
  obtain k s where w: "w = (k, s)" by (cases w)
  from Cons.prems obtain db1 where one: "write_row B w db = ([], db1)" and rest: "write_rows B ws db1 = ([], db')"
    by (auto split: prod.splits)
  from one obtain j where s: "s = Inr j" and set: "bg_Set B k j db = (None, db1)"
    by (cases s) (auto simp: w split: prod.splits option.splits)
  have v1: "view db1 = (view db)(k \<mapsto> j)" by (rule badger_store.set_ok [OF assms(1) set])
  from Cons.IH [OF rest] have v: "view db' = (\<lambda>k. case last_write ws k of Some j \<Rightarrow> Some j | None \<Rightarrow> view db1 k)"
    and all: "\<forall>w \<in> set ws. \<exists>j. snd w = Inr j" by simp_all
  have "last_write (w # ws) k' = (case last_write ws k' of Some j' \<Rightarrow> Some j' | None \<Rightarrow> if k' = k then Some j else None)" for k'
  proof (cases "map_of (rev ws) k'")
    case (Some x)
    then obtain j' where "x = Inr j'" using all by (force dest: map_of_SomeD)
    with Some show ?thesis by (simp add: last_write_def w map_add_def)
  qed (auto simp: last_write_def w s map_add_def)
  then show ?case using v v1 all by (auto simp: w s fun_eq_iff split: option.splits)
qed

text \<open>The tables have different key prefixes.\<close>

definition key_model :: "string \<Rightarrow> string" where
  "key_model k = takeWhile (\<lambda>c. c \<noteq> CHR '':'') k"

lemma key_model_colon_key: "CHR '':'' \<notin> set p \<Longrightarrow> rest \<noteq> [] \<Longrightarrow> key_model (colon_key (p # rest)) = p"
  proof -
  assume p: "CHR '':'' \<notin> set p" and "rest \<noteq> []"
  then have "colon_key (p # rest) = p @ CHR '':'' # join_with '':'' rest" by (cases rest) (simp_all add: colon_key_def)
  moreover have "takeWhile (\<lambda>c. c \<noteq> CHR '':'') (p @ CHR '':'' # s) = p" for s
    using p by (induction p) auto
  ultimately show ?thesis by (simp add: key_model_def)
qed

lemma row_writes_model:
  assumes "\<And>x. keyFn x \<noteq> [] \<Longrightarrow> key_model (keyFn x) = p"
  shows "(key_model \<circ> fst) ` set (row_writes cd keyFn res) \<subseteq> {p}"
  using assms by (auto simp: row_writes_def split: option.splits)

definition snapshot_models :: "string list" where
  "snapshot_models = [''bm'', ''sub'', ''ch'', ''bmf'', ''cf'', ''cfv'']"

lemma goroutine_models:
  "list_all2 (\<lambda>ws p. (key_model \<circ> fst) ` set ws \<subseteq> {p}) (snapshot_goroutines conn now) snapshot_models"
proof -
  have models: "key_model (buildBillableMetricKey a b) = ''bm''" "key_model (buildChargeKey a b c d) = ''ch''"
    "key_model (buildBillableMetricFilterKey a b c) = ''bmf''" "key_model (buildChargeFilterKey a b c) = ''cf''"
    "key_model (buildChargeFilterValueKey a b c d) = ''cfv''" "key_model (buildSubscriptionKey a b c) = ''sub''" for a b c d
    by (simp_all add: buildBillableMetricKey_def buildChargeKey_def buildBillableMetricFilterKey_def
      buildChargeFilterKey_def buildChargeFilterValueKey_def buildSubscriptionKey_def key_model_colon_key)
  have sub: "key_model (case subscriptionKey s of Inl _ \<Rightarrow> [] | Inr key \<Rightarrow> key) = ''sub''"
    if "(case subscriptionKey s of Inl _ \<Rightarrow> [] | Inr key \<Rightarrow> key) \<noteq> []" for s
    using that by (auto simp: subscriptionKey_def models split: option.splits sum.splits)
  show ?thesis
    unfolding snapshot_goroutines_def snapshot_models_def list_all2_Cons list_all2_Nil
    by (intro conjI TrueI row_writes_model) (auto simp: models sub)
qed

lemma goroutines_apart: "classes_apart (key_model \<circ> fst) (snapshot_goroutines conn now)"
proof -
  have "classes_apart f wss" if "list_all2 (\<lambda>ws p. f ` set ws \<subseteq> {p}) wss ps" "distinct ps"
    for f :: "row_write \<Rightarrow> string" and wss ps
    using that
  proof (induction rule: list_all2_induct)
    case (Cons ws wss p ps)
    have "f ` set (concat wss) \<subseteq> set ps"
      using Cons.hyps(2) by (induction rule: list_all2_induct) (simp_all add: image_Un, blast)
    with Cons.hyps(1) have "f ` set ws \<inter> f ` set (concat wss) \<subseteq> {p} \<inter> set ps" by (rule Int_mono)
    moreover have "{p} \<inter> set ps = {}" using Cons.prems by simp
    ultimately have "f ` set ws \<inter> f ` set (concat wss) = {}" by (simp only: subset_empty)
    then show ?case using Cons.IH Cons.prems by simp
  qed simp
  from this [OF goroutine_models] show ?thesis by (simp add: snapshot_models_def)
qed

lemma last_write_interleaved:
  assumes "ws \<in> interleavings (snapshot_goroutines conn now)"
  shows "last_write ws k = last_write (concat (snapshot_goroutines conn now)) k"
proof -
  let ?all = "concat (snapshot_goroutines conn now)"
  let ?same = "\<lambda>w. (key_model \<circ> fst) w = key_model k"
  have "filter ?same ws = filter ?same ?all" by (rule filter_apart [OF goroutines_apart assms])
  moreover have "filter (\<lambda>w. fst w = k) xs = filter (\<lambda>w. fst w = k) (filter ?same xs)" for xs :: "row_write list"
    by (induction xs) auto
  ultimately have "filter (\<lambda>w. fst w = k) ws = filter (\<lambda>w. fst w = k) ?all" by metis
  then show ?thesis by (metis last_write_filter)
qed

lemma no_charge_written:
  assumes "\<not> Success (GetAllCharges (db_charges conn))" and "key_model k = ''ch''"
  shows "last_write (concat (snapshot_goroutines conn now)) k = None"
proof -
  obtain e where e: "Error (GetAllCharges (db_charges conn)) = Some e" using assms(1) Failure_Error by blast
  have "k \<notin> fst ` set (concat (snapshot_goroutines conn now))"
  proof
    assume "k \<in> fst ` set (concat (snapshot_goroutines conn now))"
    then obtain xs w where "xs \<in> set (snapshot_goroutines conn now)" "w \<in> set xs" "fst w = k" by auto
    moreover have six: "length (snapshot_goroutines conn now) = 6" by (simp add: snapshot_goroutines_def)
    ultimately obtain i where i: "i < 6" and w: "w \<in> set (snapshot_goroutines conn now ! i)" "fst w = k"
      by (metis in_set_conv_nth)
    have empty: "snapshot_goroutines conn now ! 2 = []" by (simp add: snapshot_goroutines_def row_writes_def e)
    have "list_all2 (\<lambda>ws p. (key_model \<circ> fst) ` set ws \<subseteq> {p}) (snapshot_goroutines conn now) snapshot_models"
      by (rule goroutine_models)
    then have "(key_model \<circ> fst) ` set (snapshot_goroutines conn now ! i) \<subseteq> {snapshot_models ! i}"
      using i six by (simp add: list_all2_conv_all_nth)
    then have "snapshot_models ! i = ''ch''" using w assms(2) by auto
    then have "i = 2" using i by (auto simp: snapshot_models_def less_Suc_eq numeral_eq_Suc)
    with w empty show False by simp
  qed
  then have "map_of (rev (concat (snapshot_goroutines conn now))) k = None" by (simp add: map_of_eq_None_iff)
  then show ?thesis by (simp add: last_write_def)
qed


text \<open>A database that answers two rows of metrics and fails on the charges.\<close>

definition sample_rows :: database_rows where
  "sample_rows =
     \<lparr>db_billable_metrics = (\<lambda>_ _ _. Inr ([Inr (sample_metric ''m1'' ''api_calls'' 5000000), Inr (sample_metric ''m2'' ''seats'' 5000000)], None)),
      db_subscriptions = (\<lambda>_ _ _. Inr ([], None)),
      db_charges = (\<lambda>_ _ _. Inl (ErrMsg ''too many connections'')),
      db_billable_metric_filters = (\<lambda>_ _ _. Inr ([], None)),
      db_charge_filters = (\<lambda>_ _ _. Inr ([], None)),
      db_charge_filter_values = (\<lambda>_ _ _. Inr ([], None))\<rparr>"


end
