(* ===== verification/Tracing.thy ===== *)
theory Tracing
  imports Utils Go_Time "HOL-Library.AList" "HOL-Library.Multiset"
begin

text \<open>
  config/tracing: the choice of a tracing provider from the environment, its options, the spans of
  the three implementations (OpenTelemetry, Datadog, none) and the Kafka hooks of Datadog.

  What the tracing libraries do with a span is not in the repository: a span is the list of calls
  made on it, in order. Contexts, the creation of exporters and the constants of the libraries are
  parameters. \<open>SpanConfig.Parent\<close> is set and read nowhere and is left out; log lines are left out.

  The locale \<open>tracer_contract\<close> states what a started span carries; both real tracers satisfy it.
  The lemmas about the start-up show that a provider that could not be created is not taken for a
  missing one.
\<close>

section \<open>Options from the environment\<close>

datatype TracingProvider = OTelProvider | DatadogProvider | EmptyProvider

record TracerProviderOptions =
  tpo_Env :: string
  tpo_ServiceName :: string
  tpo_ProviderURL :: string
  tpo_SecureMode :: bool
  tpo_KafkaTracing :: bool
  tpo_TracingProvider :: "TracingProvider option"

text \<open>The zero value, which the empty provider holds: no provider, empty strings, false.\<close>

definition zero_options :: TracerProviderOptions where
  "zero_options = \<lparr>tpo_Env = '''', tpo_ServiceName = '''', tpo_ProviderURL = '''', tpo_SecureMode = False,
     tpo_KafkaTracing = False, tpo_TracingProvider = None\<rparr>"

text \<open>The names of the environment variables.\<close>

definition envEnv :: string where "envEnv = ''ENV''"
definition envTracingProvider :: string where "envTracingProvider = ''TRACING_PROVIDER''"
definition envKafkaTracingEnabled :: string where "envKafkaTracingEnabled = ''KAFKA_TRACING_ENABLED''"
definition envOtelExporterOtlpEndpoint :: string where "envOtelExporterOtlpEndpoint = ''OTEL_EXPORTER_OTLP_ENDPOINT''"
definition envOtelInsecure :: string where "envOtelInsecure = ''OTEL_INSECURE''"
definition envOtelServiceName :: string where "envOtelServiceName = ''OTEL_SERVICE_NAME''"
definition envDatadogEnabled :: string where "envDatadogEnabled = ''DD_TRACE_ENABLED''"
definition envDatadogAgentHost :: string where "envDatadogAgentHost = ''DD_AGENT_HOST''"
definition envDatadogAgentPort :: string where "envDatadogAgentPort = ''DD_TRACE_AGENT_PORT''"
definition envDatadogService :: string where "envDatadogService = ''DD_SERVICE_NAME''"

definition findTracingProvider :: "environment \<Rightarrow> string \<Rightarrow> TracingProvider" where
  "findTracingProvider env provider =
     (if provider = ''datadog'' then DatadogProvider
      else if provider = ''opentelemetry'' then OTelProvider
      else if GetEnvAsBool env envDatadogEnabled False then DatadogProvider
      else if env envOtelExporterOtlpEndpoint \<noteq> [] then OTelProvider
      else EmptyProvider)"

definition initTracerProviderOpts :: "environment \<Rightarrow> TracingProvider \<Rightarrow> TracerProviderOptions" where
  "initTracerProviderOpts env tracingProvider =
     (let opts = \<lparr>tpo_Env = (if env envEnv = [] then ''development'' else env envEnv),
                  tpo_ServiceName = ''lago-events-processor'', tpo_ProviderURL = '''', tpo_SecureMode = False,
                  tpo_KafkaTracing = GetEnvAsBool env envKafkaTracingEnabled False,
                  tpo_TracingProvider = Some tracingProvider\<rparr>
      in case tracingProvider of
           OTelProvider \<Rightarrow>
             opts\<lparr>tpo_ServiceName := (if env envOtelServiceName \<noteq> [] then env envOtelServiceName else tpo_ServiceName opts),
                  tpo_ProviderURL := env envOtelExporterOtlpEndpoint,
                  tpo_SecureMode := \<not> GetEnvAsBool env envOtelInsecure False\<rparr>
         | DatadogProvider \<Rightarrow>
             opts\<lparr>tpo_ServiceName := (if env envDatadogService \<noteq> [] then env envDatadogService else tpo_ServiceName opts),
                  tpo_ProviderURL := env envDatadogAgentHost @ '':'' @ GetEnvOrDefault env envDatadogAgentPort ''8126''\<rparr>
         | EmptyProvider \<Rightarrow> opts)"

section \<open>Spans\<close>

text \<open>OpenTelemetry attributes; the default case of the type switch prints the value.\<close>

datatype otel_value = OString string | OInt int | OInt64 int | OFloat64 f64 | OBool bool

definition convertToOTelAttribute :: "string \<Rightarrow> any \<Rightarrow> string \<times> otel_value" where
  "convertToOTelAttribute key v =
     (key, case v of
             AStr s \<Rightarrow> OString s
           | AInt i \<Rightarrow> OInt i
           | AInt64 i \<Rightarrow> OInt64 i
           | AFloat x \<Rightarrow> OFloat64 x
           | ABool b \<Rightarrow> OBool b
           | _ \<Rightarrow> OString (sprintf_v v))"

text \<open>The calls on a library span, and the span as its name, its service and its calls.\<close>

datatype span_call =
    SetTagCall string any
  | SetAttributesCall "(string \<times> otel_value) list"
  | RecordErrorCall go_error
  | SetStatusErrorCall string
  | FinishCall

record span_log =
  sl_name :: string
  sl_service :: string
  sl_calls :: "span_call list"

definition call_span :: "span_call list \<Rightarrow> span_log \<Rightarrow> span_log" where
  "call_span cs s = s\<lparr>sl_calls := sl_calls s @ cs\<rparr>"

text \<open>
  The interface \<open>Span\<close> and its three implementations, each with its context. A Go map given to
  \<open>SetAttributes\<close> is the list of its entries in the order of the iteration.
\<close>

record 'c datadog_span =
  dds_span :: span_log
  dds_ctx :: 'c

record 'c otel_span =
  os_span :: span_log
  os_ctx :: 'c

record 'c empty_span =
  es_ctx :: 'c

datatype 'c span = DatadogSpan "'c datadog_span" | OTelSpan "'c otel_span" | EmptySpan "'c empty_span"

text \<open>A method that only calls the library span; the methods of the empty span do nothing.\<close>

fun on_span :: "(span_log \<Rightarrow> span_log) \<Rightarrow> (span_log \<Rightarrow> span_log) \<Rightarrow> 'c span \<Rightarrow> 'c span" where
  "on_span dd ot (DatadogSpan s) = DatadogSpan (s\<lparr>dds_span := dd (dds_span s)\<rparr>)"
| "on_span dd ot (OTelSpan s) = OTelSpan (s\<lparr>os_span := ot (os_span s)\<rparr>)"
| "on_span dd ot (EmptySpan s) = EmptySpan s"

definition DatadogSpan_SetAttribute :: "string \<Rightarrow> any \<Rightarrow> span_log \<Rightarrow> span_log" where
  "DatadogSpan_SetAttribute key v = call_span [SetTagCall key v]"

definition DatadogSpan_SetAttributes :: "(string \<times> any) list \<Rightarrow> span_log \<Rightarrow> span_log" where
  "DatadogSpan_SetAttributes attributes = call_span (map (\<lambda>(k, v). SetTagCall k v) attributes)"

definition DatadogSpan_SetError :: "go_error \<Rightarrow> span_log \<Rightarrow> span_log" where
  "DatadogSpan_SetError err =
     call_span [SetTagCall ''error'' (ABool True), SetTagCall ''error.msg'' (AStr (error_msg err)),
                SetTagCall ''error.type'' (AStr ''error'')]"

definition DatadogSpan_End :: "span_log \<Rightarrow> span_log" where
  "DatadogSpan_End = call_span [FinishCall]"

definition OTelSpan_SetAttribute :: "string \<Rightarrow> any \<Rightarrow> span_log \<Rightarrow> span_log" where
  "OTelSpan_SetAttribute key v = call_span [SetAttributesCall [convertToOTelAttribute key v]]"

definition OTelSpan_SetAttributes :: "(string \<times> any) list \<Rightarrow> span_log \<Rightarrow> span_log" where
  "OTelSpan_SetAttributes attributes =
     call_span [SetAttributesCall (map (\<lambda>(k, v). convertToOTelAttribute k v) attributes)]"

definition OTelSpan_SetTag :: "string \<Rightarrow> any \<Rightarrow> span_log \<Rightarrow> span_log" where
  "OTelSpan_SetTag key v = OTelSpan_SetAttribute key v"

definition OTelSpan_SetError :: "go_error \<Rightarrow> span_log \<Rightarrow> span_log" where
  "OTelSpan_SetError err = call_span [RecordErrorCall err, SetStatusErrorCall (error_msg err)]"

definition OTelSpan_End :: "span_log \<Rightarrow> span_log" where
  "OTelSpan_End = call_span [FinishCall]"

definition SetAttribute :: "string \<Rightarrow> any \<Rightarrow> 'c span \<Rightarrow> 'c span" where
  "SetAttribute key v = on_span (DatadogSpan_SetAttribute key v) (OTelSpan_SetAttribute key v)"

definition SetAttributes :: "(string \<times> any) list \<Rightarrow> 'c span \<Rightarrow> 'c span" where
  "SetAttributes attributes = on_span (DatadogSpan_SetAttributes attributes) (OTelSpan_SetAttributes attributes)"

definition SetError :: "go_error \<Rightarrow> 'c span \<Rightarrow> 'c span" where
  "SetError err = on_span (DatadogSpan_SetError err) (OTelSpan_SetError err)"

definition EndSpan :: "'c span \<Rightarrow> 'c span" where
  "EndSpan = on_span DatadogSpan_End OTelSpan_End"

definition DatadogSpan_GetContext :: "'c datadog_span \<Rightarrow> 'c" where
  "DatadogSpan_GetContext s = dds_ctx s"

definition OTelSpan_GetContext :: "'c otel_span \<Rightarrow> 'c" where
  "OTelSpan_GetContext s = os_ctx s"

definition EmptySpan_GetContext :: "'c empty_span \<Rightarrow> 'c" where
  "EmptySpan_GetContext s = es_ctx s"

fun GetContext :: "'c span \<Rightarrow> 'c" where
  "GetContext (DatadogSpan s) = DatadogSpan_GetContext s"
| "GetContext (OTelSpan s) = OTelSpan_GetContext s"
| "GetContext (EmptySpan s) = EmptySpan_GetContext s"

section \<open>Tracers\<close>

record span_config =
  Tags :: "(string \<times> any) list option"
  Attributes :: "(string \<times> any) list option"

type_synonym span_option = "span_config \<Rightarrow> span_config"

definition WithTag :: "string \<Rightarrow> any \<Rightarrow> span_option" where
  "WithTag key v cfg =
     cfg\<lparr>Tags := Some (AList.update key v (case Tags cfg of None \<Rightarrow> [] | Some m \<Rightarrow> m))\<rparr>"

definition span_config_of :: "span_option list \<Rightarrow> span_config" where
  "span_config_of opts = fold (\<lambda>opt. opt) opts \<lparr>Tags = None, Attributes = None\<rparr>"

text \<open>
  Starting a span: \<open>child\<close> is the context the library derives, \<open>order\<close> the order in which the
  entries of a map come. Datadog sets one tag per entry; OpenTelemetry sets the attributes in one
  call and each tag in its own.
\<close>

record datadog_tracer =
  dt_serviceName :: string

definition NewDatadogTracer :: "string \<Rightarrow> datadog_tracer" where
  "NewDatadogTracer serviceName = \<lparr>dt_serviceName = serviceName\<rparr>"

record 'e otel_tracer =
  ot_tracerName :: string
  ot_Exporter :: "'e option"

definition NewOTelTracer :: "string \<Rightarrow> 'e otel_tracer" where
  "NewOTelTracer tracerName = \<lparr>ot_tracerName = tracerName, ot_Exporter = None\<rparr>"

definition entries :: "((string \<times> any) list \<Rightarrow> (string \<times> any) list) \<Rightarrow> (string \<times> any) list option \<Rightarrow> (string \<times> any) list" where
  "entries order m = (case m of None \<Rightarrow> [] | Some es \<Rightarrow> order es)"

definition DatadogTracer_StartSpan ::
    "('c \<Rightarrow> string \<Rightarrow> 'c) \<Rightarrow> ((string \<times> any) list \<Rightarrow> (string \<times> any) list) \<Rightarrow> datadog_tracer \<Rightarrow> 'c \<Rightarrow> string
     \<Rightarrow> span_option list \<Rightarrow> 'c datadog_span" where
  "DatadogTracer_StartSpan child order t ctx operationName opts =
     (let config = span_config_of opts in
      \<lparr>dds_span = call_span (map (\<lambda>(k, v). SetTagCall k v) (entries order (Tags config)) @
                             map (\<lambda>(k, v). SetTagCall k v) (entries order (Attributes config)))
                    \<lparr>sl_name = operationName, sl_service = dt_serviceName t, sl_calls = []\<rparr>,
       dds_ctx = child ctx operationName\<rparr>)"

definition OTelTracer_StartSpan ::
    "('c \<Rightarrow> string \<Rightarrow> 'c) \<Rightarrow> ((string \<times> any) list \<Rightarrow> (string \<times> any) list) \<Rightarrow> 'e otel_tracer \<Rightarrow> 'c \<Rightarrow> string
     \<Rightarrow> span_option list \<Rightarrow> 'c otel_span" where
  "OTelTracer_StartSpan child order t ctx operationName opts =
     (let config = span_config_of opts in
      \<lparr>os_span = call_span ((case Attributes config of None \<Rightarrow> []
                              | Some m \<Rightarrow> [SetAttributesCall (map (\<lambda>(k, v). convertToOTelAttribute k v) (order m))]) @
                            map (\<lambda>(k, v). SetAttributesCall [convertToOTelAttribute k v]) (entries order (Tags config)))
                   \<lparr>sl_name = operationName, sl_service = ot_tracerName t, sl_calls = []\<rparr>,
       os_ctx = child ctx operationName\<rparr>)"

definition EmptyTracer_StartSpan :: "'c \<Rightarrow> string \<Rightarrow> span_option list \<Rightarrow> 'c empty_span" where
  "EmptyTracer_StartSpan ctx operationName opts = \<lparr>es_ctx = ctx\<rparr>"

text \<open>The interface \<open>Tracer\<close>; the empty tracer has no fields.\<close>

datatype 'e tracer = OTelTracer "'e otel_tracer" | DatadogTracer datadog_tracer | EmptyTracer

definition NewEmptyTracer :: "'e tracer" where
  "NewEmptyTracer = EmptyTracer"

fun Tracer_StartSpan ::
    "('c \<Rightarrow> string \<Rightarrow> 'c) \<Rightarrow> ((string \<times> any) list \<Rightarrow> (string \<times> any) list) \<Rightarrow> 'e tracer \<Rightarrow> 'c \<Rightarrow> string
     \<Rightarrow> span_option list \<Rightarrow> 'c span" where
  "Tracer_StartSpan child order (OTelTracer t) ctx op opts = OTelSpan (OTelTracer_StartSpan child order t ctx op opts)"
| "Tracer_StartSpan child order (DatadogTracer t) ctx op opts = DatadogSpan (DatadogTracer_StartSpan child order t ctx op opts)"
| "Tracer_StartSpan child order EmptyTracer ctx op opts = EmptySpan (EmptyTracer_StartSpan ctx op opts)"

lemma entries_None [simp]: "entries order None = []"
  by (simp add: entries_def)

section \<open>What a started span carries\<close>

text \<open>The value a span ends up with for a key: the last call that sets it.\<close>

fun dd_tag :: "span_call list \<Rightarrow> string \<Rightarrow> any option" where
  "dd_tag [] k = None"
| "dd_tag (c # cs) k =
     (case dd_tag cs k of
        Some v \<Rightarrow> Some v
      | None \<Rightarrow> (case c of SetTagCall k' v \<Rightarrow> if k' = k then Some v else None | _ \<Rightarrow> None))"

fun otel_tag :: "span_call list \<Rightarrow> string \<Rightarrow> otel_value option" where
  "otel_tag [] k = None"
| "otel_tag (c # cs) k =
     (case otel_tag cs k of
        Some v \<Rightarrow> Some v
      | None \<Rightarrow> (case c of SetAttributesCall kvs \<Rightarrow> map_of (rev kvs) k | _ \<Rightarrow> None))"

fun span_calls :: "'c span \<Rightarrow> span_call list" where
  "span_calls (DatadogSpan s) = sl_calls (dds_span s)"
| "span_calls (OTelSpan s) = sl_calls (os_span s)"
| "span_calls (EmptySpan s) = []"

definition reorders :: "((string \<times> any) list \<Rightarrow> (string \<times> any) list) \<Rightarrow> bool" where
  "reorders order \<longleftrightarrow> (\<forall>m. mset (order m) = mset m)"

definition with_tags :: "(string \<times> any) list \<Rightarrow> span_option list" where
  "with_tags kvs = map (\<lambda>(k, v). WithTag k v) kvs"

text \<open>
  The contract: a span started with tags carries, under each key, the value of the last tag given
  for it, as the implementation writes it; other keys are not set.
\<close>

locale tracer_contract =
  fixes start :: "((string \<times> any) list \<Rightarrow> (string \<times> any) list) \<Rightarrow> span_option list \<Rightarrow> 's"
    and tag :: "'s \<Rightarrow> string \<Rightarrow> 'v option"
    and written :: "any \<Rightarrow> 'v"
  assumes tag_start: "reorders order \<Longrightarrow>
    tag (start order (with_tags kvs)) k = map_option written (map_of (rev kvs) k)"
begin

lemma last_tag_wins: "reorders order \<Longrightarrow> tag (start order (with_tags (kvs @ [(k, v)]))) k = Some (written v)"
  by (simp add: tag_start)

lemma untagged: "reorders order \<Longrightarrow> k \<notin> fst ` set kvs \<Longrightarrow> tag (start order (with_tags kvs)) k = None"
  by (auto simp: tag_start map_of_eq_None_iff)

lemma order_does_not_matter:
  "reorders order \<Longrightarrow> reorders order' \<Longrightarrow>
     tag (start order (with_tags kvs)) k = tag (start order' (with_tags kvs)) k"
  by (simp add: tag_start)

end

lemma span_config_with_tags:
  "\<exists>m. entries order (Tags (span_config_of (with_tags kvs))) = (if kvs = [] then [] else order m) \<and>
       Attributes (span_config_of (with_tags kvs)) = None \<and> distinct (map fst m) \<and>
       map_of m = map_of (rev kvs)"
proof -
  let ?c = "span_config_of (with_tags kvs)"
  have "Attributes ?c = None \<and> (kvs = [] \<longrightarrow> Tags ?c = None) \<and>
        (kvs \<noteq> [] \<longrightarrow> (\<exists>m. Tags ?c = Some m \<and> distinct (map fst m) \<and> map_of m = map_of (rev kvs)))"
  proof (induction kvs rule: rev_induct)
    case Nil
    show ?case by (simp add: span_config_of_def with_tags_def)
  next
    case (snoc kv kvs)
    obtain k v where kv: "kv = (k, v)" by (cases kv)
    have step: "span_config_of (with_tags (kvs @ [kv])) = WithTag k v (span_config_of (with_tags kvs))"
      by (simp add: span_config_of_def with_tags_def kv)
    show ?case
    proof (cases "kvs = []")
      case True
      then show ?thesis using step snoc.IH by (simp add: WithTag_def kv fun_eq_iff)
    next
      case False
      with snoc.IH obtain m where "Tags (span_config_of (with_tags kvs)) = Some m" "distinct (map fst m)"
        "map_of m = map_of (rev kvs)" by blast
      then show ?thesis using step snoc.IH
        by (auto simp: WithTag_def kv distinct_update update_conv')
    qed
  qed
  then show ?thesis
    by (cases "kvs = []") (auto simp: entries_def intro: exI [of _ "[]"])
qed

lemma dd_tag_map: "distinct (map fst es) \<Longrightarrow> dd_tag (map (\<lambda>(k, v). SetTagCall k v) es) k = map_of es k"
proof (induction es)
  case (Cons e es)
  obtain k' v where e: "e = (k', v)" by (cases e)
  have "k' = k \<Longrightarrow> map_of es k = None" using Cons.prems by (auto simp: e map_of_eq_None_iff)
  with Cons show ?case by (cases "map_of es k"; cases "k' = k") (simp_all add: e)
qed simp

text \<open>An attribute keeps its key; the value it gets does not depend on the key.\<close>

definition otel_written :: "any \<Rightarrow> otel_value" where
  "otel_written v = snd (convertToOTelAttribute '''' v)"

lemma convertToOTelAttribute_eq: "convertToOTelAttribute k v = (k, otel_written v)"
  by (simp add: otel_written_def convertToOTelAttribute_def)

lemma otel_tag_map:
  "distinct (map fst es) \<Longrightarrow>
     otel_tag (map (\<lambda>(k, v). SetAttributesCall [convertToOTelAttribute k v]) es) k = map_option otel_written (map_of es k)"
proof (induction es)
  case (Cons e es)
  obtain k' v where e: "e = (k', v)" by (cases e)
  have "k' = k \<Longrightarrow> map_of es k = None" using Cons.prems by (auto simp: e map_of_eq_None_iff)
  with Cons show ?case by (cases "map_of es k"; cases "k' = k") (simp_all add: e convertToOTelAttribute_eq)
qed simp

lemma reorders_map_of:
  assumes "reorders order" "distinct (map fst m)"
  shows "distinct (map fst (order m)) \<and> map_of (order m) = map_of m"
proof -
  have perm: "mset (order m) = mset m" using assms(1) by (simp add: reorders_def)
  then have "mset (map fst (order m)) = mset (map fst m)" by simp
  then have dist: "distinct (map fst (order m))" using assms(2) mset_eq_imp_distinct_iff by blast
  moreover have "set (order m) = set m" using perm by (rule mset_eq_setD)
  ultimately show ?thesis using map_of_inject_set assms(2) by blast
qed

interpretation datadog: tracer_contract
  "\<lambda>order opts. Tracer_StartSpan child order (DatadogTracer t) ctx name opts" "\<lambda>s. dd_tag (span_calls s)" "\<lambda>v. v"
  for child :: "'c \<Rightarrow> string \<Rightarrow> 'c" and t ctx name
proof
  fix order :: "(string \<times> any) list \<Rightarrow> (string \<times> any) list" and kvs k
  assume "reorders order"
  from span_config_with_tags [of order kvs] obtain m where
    tags: "entries order (Tags (span_config_of (with_tags kvs))) = (if kvs = [] then [] else order m)"
    and none: "Attributes (span_config_of (with_tags kvs)) = None"
    and m: "distinct (map fst m)" "map_of m = map_of (rev kvs)" by blast
  note order = reorders_map_of [OF \<open>reorders order\<close> m(1)]
  show "dd_tag (span_calls (Tracer_StartSpan child order (DatadogTracer t) ctx name (with_tags kvs))) k =
        map_option (\<lambda>v. v) (map_of (rev kvs) k)"
    using tags none order m(2) by (cases "kvs = []")
      (simp_all add: DatadogTracer_StartSpan_def Let_def call_span_def dd_tag_map option.map_ident)
qed

interpretation otel: tracer_contract
  "\<lambda>order opts. Tracer_StartSpan child order (OTelTracer t) ctx name opts" "\<lambda>s. otel_tag (span_calls s)" otel_written
  for child :: "'c \<Rightarrow> string \<Rightarrow> 'c" and t ctx name
proof
  fix order :: "(string \<times> any) list \<Rightarrow> (string \<times> any) list" and kvs k
  assume "reorders order"
  from span_config_with_tags [of order kvs] obtain m where
    tags: "entries order (Tags (span_config_of (with_tags kvs))) = (if kvs = [] then [] else order m)"
    and none: "Attributes (span_config_of (with_tags kvs)) = None"
    and m: "distinct (map fst m)" "map_of m = map_of (rev kvs)" by blast
  note order = reorders_map_of [OF \<open>reorders order\<close> m(1)]
  show "otel_tag (span_calls (Tracer_StartSpan child order (OTelTracer t) ctx name (with_tags kvs))) k =
        map_option otel_written (map_of (rev kvs) k)"
    using tags none order m(2) by (cases "kvs = []")
      (simp_all add: OTelTracer_StartSpan_def Let_def call_span_def otel_tag_map)
qed

section \<open>Providers\<close>

text \<open>
  The calls a provider makes on the tracing libraries: starting and stopping the Datadog tracer,
  registering the global OpenTelemetry providers, shutting the exporters down.
\<close>

datatype dd_start_option = WithService string | WithEnv string | WithAgentAddr string

datatype 'e sdktrace_option = AlwaysSample | WithBatcher 'e | TraceResource "(string \<times> string) list"

datatype 'm metric_option = PeriodicReader 'm int | MetricResource "(string \<times> string) list"

datatype ('e, 'm) tracing_call =
    Datadog_Start "dd_start_option list"
  | Datadog_Stop
  | SetTracerProvider "'e sdktrace_option list"
  | SetMeterProvider "'m metric_option list"
  | ExporterShutdown 'e
  | MeterShutdown 'm

text \<open>
  The OpenTelemetry library: creation of the trace and metric exporters from their options, of the
  resource from its attributes, and their shutdown.
\<close>

datatype grpc_option = WithTLSCredentials | WithInsecure | WithEndpoint string

record ('e, 'm) otel_library =
  otlptrace_New :: "grpc_option list \<Rightarrow> go_error + 'e"
  otlpmetric_New :: "grpc_option list \<Rightarrow> go_error + 'm"
  resource_New :: "(string \<times> string) list \<Rightarrow> go_error option"
  exporter_Shutdown :: "'e \<Rightarrow> go_error option"
  meter_Shutdown :: "'m \<Rightarrow> go_error option"

definition initTracerExporter :: "('e, 'm) otel_library \<Rightarrow> TracerProviderOptions \<Rightarrow> go_error + 'e" where
  "initTracerExporter lib opts =
     (let secureOpt = (if tpo_SecureMode opts then WithTLSCredentials else WithInsecure)
      in otlptrace_New lib [secureOpt, WithEndpoint (tpo_ProviderURL opts)])"

definition initMeterExporter :: "('e, 'm) otel_library \<Rightarrow> TracerProviderOptions \<Rightarrow> go_error + 'm" where
  "initMeterExporter lib opts =
     (let secureOpt = (if tpo_SecureMode opts then WithTLSCredentials else WithInsecure)
      in otlpmetric_New lib [secureOpt, WithEndpoint (tpo_ProviderURL opts)])"

record ('e, 'm) otel_provider =
  op_exporter :: 'e
  op_meter :: 'm
  op_options :: TracerProviderOptions

definition resource_attributes :: "TracerProviderOptions \<Rightarrow> (string \<times> string) list" where
  "resource_attributes opts =
     [(''service.name'', tpo_ServiceName opts), (''library.language'', ''go''),
      (''deployment.environment'', tpo_Env opts)]"

definition otel_registrations :: "'e \<Rightarrow> 'm \<Rightarrow> (string \<times> string) list \<Rightarrow> ('e, 'm) tracing_call list" where
  "otel_registrations exporter meter resources =
     [SetTracerProvider [AlwaysSample, WithBatcher exporter, TraceResource resources],
      SetMeterProvider [PeriodicReader meter (60 * Second), MetricResource resources]]"

text \<open>\<open>NewOTelTracerProvider\<close> returns a pointer: nil (\<open>None\<close>) when one of the three fails.\<close>

definition NewOTelTracerProvider ::
    "('e, 'm) otel_library \<Rightarrow> TracerProviderOptions \<Rightarrow> ('e, 'm) otel_provider option \<times> ('e, 'm) tracing_call list" where
  "NewOTelTracerProvider lib opts =
     (case initTracerExporter lib opts of
        Inl err \<Rightarrow> (None, [])
      | Inr exporter \<Rightarrow>
          (case initMeterExporter lib opts of
             Inl err \<Rightarrow> (None, [])
           | Inr meter \<Rightarrow>
               (case resource_New lib (resource_attributes opts) of
                  Some err \<Rightarrow> (None, [])
                | None \<Rightarrow>
                    (Some \<lparr>op_exporter = exporter, op_meter = meter, op_options = opts\<rparr>,
                     otel_registrations exporter meter (resource_attributes opts)))))"

record datadog_provider =
  dp_options :: TracerProviderOptions

definition NewDatadogTracerProvider :: "TracerProviderOptions \<Rightarrow> datadog_provider \<times> ('e, 'm) tracing_call list" where
  "NewDatadogTracerProvider opts =
     (let options = [WithService (tpo_ServiceName opts), WithEnv (tpo_Env opts)];
          options = options @ [WithAgentAddr (tpo_ProviderURL opts)]
      in (\<lparr>dp_options = opts\<rparr>, [Datadog_Start options]))"

record empty_provider =
  ep_options :: TracerProviderOptions

text \<open>The interface \<open>TracerProvider\<close> over its three implementations; the first holds a pointer.\<close>

datatype ('e, 'm) tracer_provider =
    OTelTracerProvider "('e, 'm) otel_provider option"
  | DatadogTracerProvider datadog_provider
  | EmptyTracerProvider empty_provider

definition nil_dereference :: string where
  "nil_dereference = ''invalid memory address or nil pointer dereference''"

definition OTelTracerProvider_GetOptions :: "('e, 'm) otel_provider option \<Rightarrow> TracerProviderOptions go" where
  "OTelTracerProvider_GetOptions p = (case p of None \<Rightarrow> Panic nil_dereference | Some q \<Rightarrow> Ret (op_options q))"

definition DatadogTracerProvider_GetOptions :: "datadog_provider \<Rightarrow> TracerProviderOptions go" where
  "DatadogTracerProvider_GetOptions p = Ret (dp_options p)"

definition EmptyTracerProvider_GetOptions :: "empty_provider \<Rightarrow> TracerProviderOptions go" where
  "EmptyTracerProvider_GetOptions p = Ret (ep_options p)"

text \<open>\<open>Stop\<close>, as the calls it makes and the errors it logs; a failed shutdown does not skip the other.\<close>

definition OTelTracerProvider_Stop ::
    "('e, 'm) otel_library \<Rightarrow> ('e, 'm) otel_provider option \<Rightarrow> (('e, 'm) tracing_call list \<times> go_error list) go" where
  "OTelTracerProvider_Stop lib p =
     (case p of
        None \<Rightarrow> Panic nil_dereference
      | Some q \<Rightarrow>
          Ret ([ExporterShutdown (op_exporter q), MeterShutdown (op_meter q)],
               (case exporter_Shutdown lib (op_exporter q) of None \<Rightarrow> [] | Some e \<Rightarrow> [e]) @
               (case meter_Shutdown lib (op_meter q) of None \<Rightarrow> [] | Some e \<Rightarrow> [e])))"

definition DatadogTracerProvider_Stop :: "datadog_provider \<Rightarrow> (('e, 'm) tracing_call list \<times> go_error list) go" where
  "DatadogTracerProvider_Stop p = Ret ([Datadog_Stop], [])"

definition EmptyTracerProvider_Stop :: "empty_provider \<Rightarrow> (('e, 'm) tracing_call list \<times> go_error list) go" where
  "EmptyTracerProvider_Stop p = Ret ([], [])"

definition OTelTracerProvider_InitTracer :: "string \<Rightarrow> 'e tracer" where
  "OTelTracerProvider_InitTracer serviceName = OTelTracer (NewOTelTracer serviceName)"

definition DatadogTracerProvider_InitTracer :: "string \<Rightarrow> 'e tracer" where
  "DatadogTracerProvider_InitTracer serviceName = DatadogTracer (NewDatadogTracer serviceName)"

definition EmptyTracerProvider_InitTracer :: "string \<Rightarrow> 'e tracer" where
  "EmptyTracerProvider_InitTracer serviceName = NewEmptyTracer"

text \<open>
  The hooks: Datadog has its own two, OpenTelemetry takes those that the kotel plugin (\<open>kotel\<close>, from
  its options) builds for the global providers.
\<close>

datatype kotel_tracer_option = GlobalTracerProvider | TraceContextPropagator

datatype kotel_meter_option = GlobalMeterProvider

datatype kotel_option = WithTracer "kotel_tracer_option list" | WithMeter "kotel_meter_option list"

record datadog_hook =
  dh_serviceName :: string

datatype 'h kafka_hook = DatadogProduceHook datadog_hook | DatadogConsumeHook datadog_hook | LibraryHook 'h

definition OTel_GetKafkaHooks :: "(kotel_option list \<Rightarrow> 'h list) \<Rightarrow> 'h kafka_hook list" where
  "OTel_GetKafkaHooks kotel =
     (let tracerOpts = [GlobalTracerProvider, TraceContextPropagator];
          meterOpts = [GlobalMeterProvider];
          kotelOpts = [WithTracer tracerOpts, WithMeter meterOpts]
      in map LibraryHook (kotel kotelOpts))"

definition Datadog_GetKafkaHooks :: "datadog_provider \<Rightarrow> 'h kafka_hook list" where
  "Datadog_GetKafkaHooks p =
     [DatadogProduceHook \<lparr>dh_serviceName = tpo_ServiceName (dp_options p)\<rparr>,
      DatadogConsumeHook \<lparr>dh_serviceName = tpo_ServiceName (dp_options p)\<rparr>]"

definition Empty_GetKafkaHooks :: "empty_provider \<Rightarrow> 'h kafka_hook list" where
  "Empty_GetKafkaHooks p = []"

text \<open>The methods of the interface, by the type of the value; only \<open>GetOptions\<close> and \<open>Stop\<close> read the pointer.\<close>

fun GetOptions :: "('e, 'm) tracer_provider \<Rightarrow> TracerProviderOptions go" where
  "GetOptions (OTelTracerProvider p) = OTelTracerProvider_GetOptions p"
| "GetOptions (DatadogTracerProvider p) = DatadogTracerProvider_GetOptions p"
| "GetOptions (EmptyTracerProvider p) = EmptyTracerProvider_GetOptions p"

fun StopProvider ::
    "('e, 'm) otel_library \<Rightarrow> ('e, 'm) tracer_provider \<Rightarrow> (('e, 'm) tracing_call list \<times> go_error list) go" where
  "StopProvider lib (OTelTracerProvider p) = OTelTracerProvider_Stop lib p"
| "StopProvider lib (DatadogTracerProvider p) = DatadogTracerProvider_Stop p"
| "StopProvider lib (EmptyTracerProvider p) = EmptyTracerProvider_Stop p"

fun provider_InitTracer :: "('e, 'm) tracer_provider \<Rightarrow> string \<Rightarrow> 'e tracer" where
  "provider_InitTracer (OTelTracerProvider p) serviceName = OTelTracerProvider_InitTracer serviceName"
| "provider_InitTracer (DatadogTracerProvider p) serviceName = DatadogTracerProvider_InitTracer serviceName"
| "provider_InitTracer (EmptyTracerProvider p) serviceName = EmptyTracerProvider_InitTracer serviceName"

fun GetKafkaHooks :: "(kotel_option list \<Rightarrow> 'h list) \<Rightarrow> ('e, 'm) tracer_provider \<Rightarrow> 'h kafka_hook list" where
  "GetKafkaHooks kotel (OTelTracerProvider p) = OTel_GetKafkaHooks kotel"
| "GetKafkaHooks kotel (DatadogTracerProvider p) = Datadog_GetKafkaHooks p"
| "GetKafkaHooks kotel (EmptyTracerProvider p) = Empty_GetKafkaHooks p"

lemmas provider_defs =
  OTelTracerProvider_GetOptions_def DatadogTracerProvider_GetOptions_def EmptyTracerProvider_GetOptions_def
  OTelTracerProvider_Stop_def DatadogTracerProvider_Stop_def EmptyTracerProvider_Stop_def
  OTelTracerProvider_InitTracer_def DatadogTracerProvider_InitTracer_def EmptyTracerProvider_InitTracer_def
  NewOTelTracer_def NewDatadogTracer_def NewEmptyTracer_def NewDatadogTracerProvider_def

text \<open>
  The value of the interface type, with the calls made: \<open>None\<close> is the nil interface, a nil pointer in
  it is not.
\<close>

definition InitTracerProvider ::
    "('e, 'm) otel_library \<Rightarrow> environment \<Rightarrow> ('e, 'm) tracer_provider option \<times> ('e, 'm) tracing_call list" where
  "InitTracerProvider lib env =
     (let tracingProvider = findTracingProvider env (env envTracingProvider);
          opts = initTracerProviderOpts env tracingProvider
      in case tracingProvider of
           OTelProvider \<Rightarrow> (case NewOTelTracerProvider lib opts of (p, calls) \<Rightarrow> (Some (OTelTracerProvider p), calls))
         | DatadogProvider \<Rightarrow> (case NewDatadogTracerProvider opts of (p, calls) \<Rightarrow> (Some (DatadogTracerProvider p), calls))
         | EmptyProvider \<Rightarrow> (Some (EmptyTracerProvider \<lparr>ep_options = zero_options\<rparr>), []))"

section \<open>The global tracer\<close>

record 'e tracing_state =
  globalTracer :: "'e tracer option"
  once_done :: bool

definition no_tracer :: "'e tracing_state" where
  "no_tracer = \<lparr>globalTracer = None, once_done = False\<rparr>"

definition InitTracer :: "('e, 'm) tracer_provider \<Rightarrow> 'e tracing_state \<Rightarrow> 'e tracing_state go" where
  "InitTracer provider st =
     (if once_done st then Ret st
      else go_bind (GetOptions provider) (\<lambda>opts.
        Ret \<lparr>globalTracer = Some (provider_InitTracer provider (tpo_ServiceName opts)), once_done = True\<rparr>))"

definition GetTracer :: "'e tracing_state \<Rightarrow> 'e tracer \<times> 'e tracing_state" where
  "GetTracer st =
     (case globalTracer st of
        Some t \<Rightarrow> (t, st)
      | None \<Rightarrow> (NewEmptyTracer, st\<lparr>globalTracer := Some NewEmptyTracer\<rparr>))"

definition StartSpan ::
    "('c \<Rightarrow> string \<Rightarrow> 'c) \<Rightarrow> ((string \<times> any) list \<Rightarrow> (string \<times> any) list) \<Rightarrow> 'c \<Rightarrow> string \<Rightarrow> span_option list
     \<Rightarrow> 'e tracing_state \<Rightarrow> 'c span \<times> 'e tracing_state" where
  "StartSpan child order ctx operationName opts st =
     (case GetTracer st of (t, st') \<Rightarrow> (Tracer_StartSpan child order t ctx operationName opts, st'))"

text \<open>main.go: the tracer is set up unless the provider is the nil interface.\<close>

definition setup_tracing :: "('e, 'm) otel_library \<Rightarrow> environment \<Rightarrow> 'e tracing_state \<Rightarrow> 'e tracing_state go" where
  "setup_tracing lib env st =
     (case fst (InitTracerProvider lib env) of
        None \<Rightarrow> Ret st
      | Some tracerProvider \<Rightarrow> InitTracer tracerProvider st)"

lemma initTracer_once: "InitTracer p st = Ret st' \<Longrightarrow> InitTracer p' st' = Ret st'"
  by (auto simp: InitTracer_def go_bind_Ret_iff split: if_splits)

definition otel_creation_fails :: "('e, 'm) otel_library \<Rightarrow> TracerProviderOptions \<Rightarrow> bool" where
  "otel_creation_fails lib opts \<longleftrightarrow>
     (\<exists>e. initTracerExporter lib opts = Inl e) \<or> (\<exists>e. initMeterExporter lib opts = Inl e) \<or>
     resource_New lib (resource_attributes opts) \<noteq> None"

lemma NewOTelTracerProvider_None: "fst (NewOTelTracerProvider lib opts) = None \<longleftrightarrow> otel_creation_fails lib opts"
  by (auto simp: NewOTelTracerProvider_def otel_creation_fails_def
    split: sum.splits option.splits)

text \<open>
  C34: the start-up of tracing. A Datadog or empty provider always gives a working tracer; the
  OpenTelemetry provider ends the process with a nil dereference exactly when its exporter, meter
  or resource cannot be created, because the nil pointer is wrapped in an interface value that is
  not nil, so the branch of main.go that goes on without tracing is never taken.
\<close>
theorem setup_tracing_outcomes:
  "fst (InitTracerProvider lib env) \<noteq> None \<and>
   (let tracingProvider = findTracingProvider env (env envTracingProvider);
        opts = initTracerProviderOpts env tracingProvider;
        started = (\<lambda>t. setup_tracing lib env no_tracer = Ret \<lparr>globalTracer = Some t, once_done = True\<rparr>)
    in case tracingProvider of
         DatadogProvider \<Rightarrow> started (DatadogTracer \<lparr>dt_serviceName = tpo_ServiceName opts\<rparr>)
       | EmptyProvider \<Rightarrow> started EmptyTracer
       | OTelProvider \<Rightarrow>
           (if otel_creation_fails lib opts
            then setup_tracing lib env no_tracer = Panic nil_dereference
            else started (OTelTracer \<lparr>ot_tracerName = tpo_ServiceName opts, ot_Exporter = None\<rparr>)))"
proof (cases "findTracingProvider env (env envTracingProvider)")
  case OTelProvider
  let ?opts = "initTracerProviderOpts env OTelProvider"
  show ?thesis
  proof (cases "fst (NewOTelTracerProvider lib ?opts)")
    case None
    then have "otel_creation_fails lib ?opts" by (simp add: NewOTelTracerProvider_None)
    then show ?thesis using None
      by (simp add: OTelProvider InitTracerProvider_def setup_tracing_def InitTracer_def no_tracer_def provider_defs split_beta)
  next
    case (Some p)
    then have "op_options p = ?opts"
      by (auto simp: NewOTelTracerProvider_def split: sum.splits option.splits)
    moreover have "\<not> otel_creation_fails lib ?opts" using Some NewOTelTracerProvider_None [of lib ?opts] by simp
    ultimately show ?thesis using Some
      by (simp add: OTelProvider InitTracerProvider_def setup_tracing_def InitTracer_def no_tracer_def provider_defs split_beta)
  qed
qed (simp_all add: InitTracerProvider_def setup_tracing_def InitTracer_def no_tracer_def Let_def provider_defs split_beta)

section \<open>The Kafka hooks of Datadog\<close>

text \<open>
  The spans of the process are a list, a span is its index. \<open>with_span\<close> and \<open>span_of\<close> are the
  library's ways to put a span into a context and to find it there, \<open>background\<close> is the empty
  context; the tag names that are constants of the library are parameters as well. The partition, an
  int32, is tagged as the integer it holds.
\<close>

record 'c dd_library =
  dd_background :: 'c
  dd_with_span :: "'c \<Rightarrow> nat \<Rightarrow> 'c"
  dd_span_of :: "'c option \<Rightarrow> nat option"
  dd_Component :: string
  dd_SpanType :: string

record 'c hooked_record =
  hr_Topic :: string
  hr_Partition :: int
  hr_Key :: string
  hr_Offset :: int
  hr_Context :: "'c option"

definition hook_start :: "'c dd_library \<Rightarrow> string \<Rightarrow> span_call list \<Rightarrow> 'c hooked_record \<Rightarrow> span_log list
    \<Rightarrow> 'c hooked_record \<times> span_log list" where
  "hook_start dd name calls r spans =
     (let span = length spans in
      (r\<lparr>hr_Context := Some (dd_with_span dd (case hr_Context r of None \<Rightarrow> dd_background dd | Some c \<Rightarrow> c) span)\<rparr>,
       spans @ [\<lparr>sl_name = name, sl_service = '''', sl_calls = calls\<rparr>]))"

definition key_tag :: "'c hooked_record \<Rightarrow> span_call list" where
  "key_tag r = (if 0 < length (hr_Key r) then [SetTagCall ''kafka.key'' (AStr (hr_Key r))] else [])"

definition OnProduceRecordBuffered :: "'c dd_library \<Rightarrow> 'c hooked_record \<Rightarrow> span_log list \<Rightarrow> 'c hooked_record \<times> span_log list" where
  "OnProduceRecordBuffered dd r spans =
     hook_start dd ''kafka.produce''
       ([SetTagCall (dd_Component dd) (AStr ''kafka''), SetTagCall (dd_SpanType dd) (AStr ''producer''),
         SetTagCall ''kafka.topic'' (AStr (hr_Topic r)), SetTagCall ''kafka.partition'' (AInt (hr_Partition r))] @ key_tag r)
       r spans"

definition OnProduceRecordUnbuffered :: "'c dd_library \<Rightarrow> 'c hooked_record \<Rightarrow> go_error option \<Rightarrow> span_log list \<Rightarrow> span_log list" where
  "OnProduceRecordUnbuffered dd r err spans =
     (case dd_span_of dd (hr_Context r) of
        None \<Rightarrow> spans
      | Some i \<Rightarrow>
          spans[i := call_span ((case err of
             Some e \<Rightarrow> [SetTagCall ''error'' (ABool True), SetTagCall ''error.msg'' (AStr (error_msg e))]
           | None \<Rightarrow> [SetTagCall ''kafka.offset'' (AInt64 (hr_Offset r))]) @ [FinishCall]) (spans ! i)])"

definition OnFetchRecordBuffered :: "'c dd_library \<Rightarrow> 'c hooked_record \<Rightarrow> span_log list \<Rightarrow> 'c hooked_record \<times> span_log list" where
  "OnFetchRecordBuffered dd r spans =
     hook_start dd ''kafka.consume''
       ([SetTagCall (dd_Component dd) (AStr ''kafka''), SetTagCall (dd_SpanType dd) (AStr ''consumer''),
         SetTagCall ''kafka.topic'' (AStr (hr_Topic r)), SetTagCall ''kafka.partition'' (AInt (hr_Partition r)),
         SetTagCall ''kafka.offset'' (AInt64 (hr_Offset r))] @ key_tag r)
       r spans"

definition OnFetchRecordUnbuffered :: "'c dd_library \<Rightarrow> 'c hooked_record \<Rightarrow> span_log list \<Rightarrow> span_log list" where
  "OnFetchRecordUnbuffered dd r spans =
     (case dd_span_of dd (hr_Context r) of
        None \<Rightarrow> spans
      | Some i \<Rightarrow> spans[i := call_span [FinishCall] (spans ! i)])"

text \<open>A record's second hook finishes the span of its first one, and touches no other span.\<close>

lemma produce_hooks_pair:
  assumes "\<And>c i. dd_span_of dd (Some (dd_with_span dd c i)) = Some i"
    and "OnProduceRecordBuffered dd r spans = (r', spans')" and "OnProduceRecordUnbuffered dd r' err spans' = spans''"
  shows "take (length spans) spans'' = spans \<and> length spans'' = length spans + 1 \<and>
         last (sl_calls (last spans'')) = FinishCall \<and> FinishCall \<notin> set (butlast (sl_calls (last spans'')))"
  using assms
  by (auto simp: OnProduceRecordBuffered_def OnProduceRecordUnbuffered_def hook_start_def Let_def call_span_def
    key_tag_def butlast_append split: option.splits)

lemma fetch_hooks_pair:
  assumes "\<And>c i. dd_span_of dd (Some (dd_with_span dd c i)) = Some i"
    and "OnFetchRecordBuffered dd r spans = (r', spans')" and "OnFetchRecordUnbuffered dd r' spans' = spans''"
  shows "take (length spans) spans'' = spans \<and> length spans'' = length spans + 1 \<and>
         last (sl_calls (last spans'')) = FinishCall \<and> FinishCall \<notin> set (butlast (sl_calls (last spans'')))"
  using assms
  by (auto simp: OnFetchRecordBuffered_def OnFetchRecordUnbuffered_def hook_start_def Let_def call_span_def
    key_tag_def butlast_append)

end
