(* ===== verification/Lifecycle.thy ===== *)
theory Lifecycle
  imports Go_Result "HOL-Library.Multiset"
begin

text \<open>
  Go functions that open and close resources. A \<open>script\<close> is a call of such a function: what it has
  done to resources so far, what it has deferred, and its outcome. \<open>run_defers\<close> ends the function:
  the deferred calls run in reverse order, also when it panics.

  \<open>settled\<close> says that what a script opens it closes or has deferred to close; the rule
  \<open>settled_bind\<close> carries it through a function body, whatever panics on the way.
\<close>

section \<open>Scripts\<close>

datatype 'r act = Acquire 'r | Use 'r | Release 'r

record ('r, 'a) script =
  scr_acts :: "'r act list"
  scr_defers :: "'r act list"
  scr_outcome :: "'a go"

definition scr_lift :: "'a go \<Rightarrow> ('r, 'a) script" where
  "scr_lift m = \<lparr>scr_acts = [], scr_defers = [], scr_outcome = m\<rparr>"

definition scr_return :: "'a \<Rightarrow> ('r, 'a) script" where
  "scr_return x = scr_lift (Ret x)"

definition scr_act :: "'r act \<Rightarrow> ('r, unit) script" where
  "scr_act a = \<lparr>scr_acts = [a], scr_defers = [], scr_outcome = Ret ()\<rparr>"

definition scr_defer :: "'r act \<Rightarrow> ('r, unit) script" where
  "scr_defer a = \<lparr>scr_acts = [], scr_defers = [a], scr_outcome = Ret ()\<rparr>"

definition scr_bind :: "('r, 'a) script \<Rightarrow> ('a \<Rightarrow> ('r, 'b) script) \<Rightarrow> ('r, 'b) script" where
  "scr_bind m f =
     (case scr_outcome m of
        Panic msg \<Rightarrow> \<lparr>scr_acts = scr_acts m, scr_defers = scr_defers m, scr_outcome = Panic msg\<rparr>
      | Ret x \<Rightarrow> \<lparr>scr_acts = scr_acts m @ scr_acts (f x), scr_defers = scr_defers m @ scr_defers (f x), scr_outcome = scr_outcome (f x)\<rparr>)"

definition run_defers :: "('r, 'a) script \<Rightarrow> ('r, 'a) script" where
  "run_defers m = \<lparr>scr_acts = scr_acts m @ rev (scr_defers m), scr_defers = [], scr_outcome = scr_outcome m\<rparr>"

text \<open>A constructor of the library: what it creates is open.\<close>

definition scr_open :: "('a \<Rightarrow> 'r) \<Rightarrow> 'e + 'a \<Rightarrow> ('r, 'e + 'a) script" where
  "scr_open res made =
     (case made of
        Inl err \<Rightarrow> scr_return (Inl err)
      | Inr x \<Rightarrow> scr_bind (scr_act (Acquire (res x))) (\<lambda>_. scr_return (Inr x)))"

lemma outcome_simps [simp]:
  "scr_outcome (scr_lift m) = m" "scr_outcome (scr_return x) = Ret x" "scr_outcome (scr_act a) = Ret ()"
  "scr_outcome (scr_defer a) = Ret ()" "scr_outcome (run_defers s) = scr_outcome s"
  "scr_outcome (scr_bind s f) = go_bind (scr_outcome s) (\<lambda>x. scr_outcome (f x))"
  "scr_outcome (scr_open res made) = Ret made"
  by (simp_all add: scr_lift_def scr_return_def scr_act_def scr_defer_def run_defers_def scr_bind_def scr_open_def
    split: go.split sum.split)

lemma acts_simps [simp]:
  "scr_acts (scr_lift m) = []" "scr_acts (scr_return x) = []" "scr_acts (scr_act a) = [a]" "scr_acts (scr_defer a) = []"
  "scr_acts (run_defers s) = scr_acts s @ rev (scr_defers s)"
  "scr_acts (scr_open res made) = (case made of Inl err \<Rightarrow> [] | Inr x \<Rightarrow> [Acquire (res x)])"
  by (simp_all add: scr_lift_def scr_return_def scr_act_def scr_defer_def run_defers_def scr_bind_def scr_open_def
    split: sum.split)

lemma defers_simps [simp]:
  "scr_defers (scr_lift m) = []" "scr_defers (scr_return x) = []" "scr_defers (scr_act a) = []" "scr_defers (scr_defer a) = [a]"
  "scr_defers (run_defers s) = []" "scr_defers (scr_open res made) = []"
  by (simp_all add: scr_lift_def scr_return_def scr_act_def scr_defer_def run_defers_def scr_bind_def scr_open_def
    split: sum.split)

lemma acts_bind [simp]:
  "scr_acts (scr_bind s f) = scr_acts s @ (case scr_outcome s of Panic msg \<Rightarrow> [] | Ret x \<Rightarrow> scr_acts (f x))"
  "scr_defers (scr_bind s f) = scr_defers s @ (case scr_outcome s of Panic msg \<Rightarrow> [] | Ret x \<Rightarrow> scr_defers (f x))"
  by (simp_all add: scr_bind_def split: go.split)

lemma scr_bind_cong [fundef_cong]:
  "s = s' \<Longrightarrow> (\<And>x. scr_outcome s' = Ret x \<Longrightarrow> f x = f' x) \<Longrightarrow> scr_bind s f = scr_bind s' f'"
  by (simp add: scr_bind_def split: go.split)

section \<open>What stays open\<close>

definition acquired :: "'r act list \<Rightarrow> 'r multiset" where
  "acquired as = mset (concat (map (\<lambda>a. case a of Acquire r \<Rightarrow> [r] | _ \<Rightarrow> []) as))"

definition released :: "'r act list \<Rightarrow> 'r multiset" where
  "released as = mset (concat (map (\<lambda>a. case a of Release r \<Rightarrow> [r] | _ \<Rightarrow> []) as))"

definition left_open :: "'r act list \<Rightarrow> 'r multiset" where
  "left_open as = acquired as - released as"

lemma acquired_released_simps [simp]:
  "acquired [] = {#}" "released [] = {#}"
  "acquired (Acquire r # as) = add_mset r (acquired as)" "released (Acquire r # as) = released as"
  "acquired (Use r # as) = acquired as" "released (Use r # as) = released as"
  "acquired (Release r # as) = acquired as" "released (Release r # as) = add_mset r (released as)"
  "acquired (as @ bs) = acquired as + acquired bs" "released (as @ bs) = released as + released bs"
  by (simp_all add: acquired_def released_def)

lemma acquired_released_rev [simp]: "acquired (rev as) = acquired as" "released (rev as) = released as"
proof (induction as)
  case (Cons a as)
  {
    case 1
    show ?case using Cons by (cases a) simp_all
  next
    case 2
    show ?case using Cons by (cases a) simp_all
  }
qed simp_all

lemma acquired_map [simp]:
  "acquired (map (Acquire \<circ> f) xs) = image_mset f (mset xs)" "released (map (Acquire \<circ> f) xs) = {#}"
  "acquired (map Acquire rs) = mset rs" "released (map Acquire rs) = {#}"
  "acquired (map Release rs) = {#}" "released (map Release rs) = mset rs"
  by (induction xs) (simp_all, (induction rs; simp)+)

text \<open>The resources a function body takes care of: opened as often as closed, now or at its end.\<close>

definition settled :: "('r \<Rightarrow> bool) \<Rightarrow> ('r, 'a) script \<Rightarrow> bool" where
  "settled P s \<longleftrightarrow>
     filter_mset P (acquired (scr_acts s) + acquired (scr_defers s)) = filter_mset P (released (scr_acts s) + released (scr_defers s))"

lemma settled_bind:
  "settled P s \<Longrightarrow> (\<And>x. scr_outcome s = Ret x \<Longrightarrow> settled P (f x)) \<Longrightarrow> settled P (scr_bind s f)"
  by (auto simp: settled_def ac_simps split: go.split)

lemma settled_basic [simp]:
  "settled P (scr_lift m)" "settled P (scr_return x)" "settled P (run_defers s) = settled P s"
  by (auto simp: settled_def ac_simps)

lemma settled_left_open: "settled P s \<Longrightarrow> P r \<Longrightarrow> r \<notin># left_open (scr_acts (run_defers s))"
proof -
  assume "settled P s" "P r"
  then have "count (acquired (scr_acts s) + acquired (scr_defers s)) r = count (released (scr_acts s) + released (scr_defers s)) r"
    by (metis (mono_tags, lifting) count_filter_mset settled_def)
  moreover have "acquired (scr_acts (run_defers s)) = acquired (scr_acts s) + acquired (scr_defers s)"
    "released (scr_acts (run_defers s)) = released (scr_acts s) + released (scr_defers s)" by simp_all
  ultimately show ?thesis by (simp add: left_open_def not_in_iff)
qed

end
