(* ===== verification/Connections.thy ===== *)
theory Connections
  imports Tracing Consumer_Group Lifecycle "HOL-Library.Sublist"
begin

text \<open>
  config/kafka/kafka.go, the constructors of config/kafka/producer.go and consumer.go,
  config/redis/redis.go and config/database/database.go: how the connections of the program are
  configured and opened.

  The libraries are parameters: creating a client from its options, a ping, instrumentation, a
  connection pool. What is modelled is what the code hands them, in which order it calls them, and
  which error it returns, and what it leaves open: the constructors are scripts (Lifecycle) over the
  resources below. The lemmas say which options a client gets, that nothing is returned from a
  connection whose ping failed, and that a pool is closed when no connection comes of it.
\<close>

section \<open>Resources\<close>

text \<open>The options of a Redis client, which stand for the client.\<close>

record redis_options =
  ro_Addr :: string
  ro_Password :: string
  ro_DB :: int
  ro_DialTimeout :: int
  ro_ReadTimeout :: int
  ro_WriteTimeout :: int
  ro_PoolSize :: int
  ro_PoolTimeout :: int
  ro_InsecureTLS :: bool

text \<open>
  What the program opens and closes; the last four are the in-memory cache, tracing, Sentry and the
  context of \<open>main\<close>, whose release is \<open>Stop\<close>, \<open>Flush\<close> and \<open>cancel\<close>.
\<close>

datatype ('p, 'k) resource =
    KafkaClient 'k | RedisClient redis_options | PgPool 'p
  | MemCache | TracingLibrary | SentryClient | RootContext

section \<open>The Kafka client\<close>

datatype scram_mechanism = Sha256Mechanism | Sha512Mechanism

text \<open>The options of the client; \<open>NilOpt\<close> is the nil value of the interface type \<open>kgo.Opt\<close>.\<close>

datatype 'h kgo_opt =
    SeedBrokers "string list"
  | WithLogger
  | GroupOpt string
  | ConsumeTopics "string list"
  | OnPartitionsAssigned | OnPartitionsLost | OnPartitionsRevoked
  | DisableAutoCommit
  | BlockRebalanceOnPoll
  | WithHooks "'h kafka_hook list"
  | SASL scram_mechanism string string
  | DialTLS
  | NilOpt

record ('e, 'm) server_config =
  ScramAlgorithm :: string
  TLS :: bool
  Servers :: "string list"
  TracerProvider :: "('e, 'm) tracer_provider option"
  UserName :: string
  Password :: string

definition Scram256 :: string where "Scram256 = ''SCRAM-SHA-256''"
definition Scram512 :: string where "Scram512 = ''SCRAM-SHA-512''"

definition hook_opts :: "(kotel_option list \<Rightarrow> 'h list) \<Rightarrow> ('e, 'm) tracer_provider option \<Rightarrow> 'h kgo_opt list go" where
  "hook_opts kotelHooks provider =
     (case provider of
        None \<Rightarrow> Ret []
      | Some p \<Rightarrow>
          let hooks = GetKafkaHooks kotelHooks p
          in go_bind (GetOptions p) (\<lambda>opts.
               Ret (if tpo_KafkaTracing opts \<and> 0 < length hooks then [WithHooks hooks] else [])))"

definition scram_opts :: "('e, 'm) server_config \<Rightarrow> 'h kgo_opt list" where
  "scram_opts sc =
     (if ScramAlgorithm sc = [] then []
      else [if ScramAlgorithm sc = Scram256 then SASL Sha256Mechanism (UserName sc) (Password sc)
            else if ScramAlgorithm sc = Scram512 then SASL Sha512Mechanism (UserName sc) (Password sc)
            else NilOpt])"

definition client_opts :: "(kotel_option list \<Rightarrow> 'h list) \<Rightarrow> ('e, 'm) server_config \<Rightarrow> 'h kgo_opt list \<Rightarrow> 'h kgo_opt list go" where
  "client_opts kotelHooks sc config =
     go_bind (hook_opts kotelHooks (TracerProvider sc)) (\<lambda>hooks.
       Ret ([SeedBrokers (Servers sc), WithLogger] @ config @ hooks @ scram_opts sc @
            (if TLS sc then [DialTLS] else [])))"

record ('h, 'k) kafka_library =
  kgo_NewClient :: "'h kgo_opt list \<Rightarrow> go_error + 'k"
  kgo_Ping :: "'k \<Rightarrow> go_error option"
  kotel_Hooks :: "kotel_option list \<Rightarrow> 'h list"

definition NewKafkaClient ::
    "('h, 'k) kafka_library \<Rightarrow> ('e, 'm) server_config \<Rightarrow> 'h kgo_opt list \<Rightarrow> (('p, 'k) resource, go_error + 'k) script" where
  "NewKafkaClient lib sc config =
     scr_bind (scr_lift (client_opts (kotel_Hooks lib) sc config)) (\<lambda>opts.
       scr_open KafkaClient (kgo_NewClient lib opts))"

section \<open>Producers and consumer groups\<close>

record 'k producer =
  pr_client :: 'k
  pr_Topic :: string

definition NewProducer ::
    "('h, 'k) kafka_library \<Rightarrow> ('e, 'm) server_config \<Rightarrow> string \<Rightarrow> (('p, 'k) resource, go_error + 'k producer) script" where
  "NewProducer lib sc topic =
     scr_bind (NewKafkaClient lib sc []) (\<lambda>res.
       scr_return (case res of Inl err \<Rightarrow> Inl err | Inr kcl \<Rightarrow> Inr \<lparr>pr_client = kcl, pr_Topic = topic\<rparr>))"

definition Producer_Ping :: "('h, 'k) kafka_library \<Rightarrow> 'k producer \<Rightarrow> go_error option" where
  "Producer_Ping lib p = kgo_Ping lib (pr_client p)"

definition group_name :: "string \<Rightarrow> string \<Rightarrow> string" where
  "group_name consumerGroup topic = consumerGroup @ ''_'' @ topic"

definition group_opts :: "string \<Rightarrow> string \<Rightarrow> 'h kgo_opt list" where
  "group_opts consumerGroup topic =
     [GroupOpt (group_name consumerGroup topic), ConsumeTopics [topic], OnPartitionsAssigned, OnPartitionsLost,
      OnPartitionsRevoked, DisableAutoCommit, BlockRebalanceOnPoll]"

text \<open>The group starts empty; a client that cannot be pinged is not returned (and not closed).\<close>

definition NewConsumerGroup ::
    "('h, 'k) kafka_library \<Rightarrow> ('e, 'm) server_config \<Rightarrow> string \<Rightarrow> string
     \<Rightarrow> (('p, 'k) resource, go_error + ('k \<times> 'v ConsumerGroup)) script" where
  "NewConsumerGroup lib sc topic consumerGroup =
     scr_bind (NewKafkaClient lib sc (group_opts consumerGroup topic)) (\<lambda>res.
       scr_return (case res of
         Inl err \<Rightarrow> Inl err
       | Inr kcl \<Rightarrow> (case kgo_Ping lib kcl of Some err \<Rightarrow> Inl err | None \<Rightarrow> Inr (kcl, new_group))))"

text \<open>
  \<open>Start\<close> serves until the context is done and the graceful shutdown is over, whose last act closes
  the client (the steps are in Consumer_Group).
\<close>

definition ConsumerGroup_Start :: "'k \<times> 'v ConsumerGroup \<Rightarrow> (('p, 'k) resource, unit) script" where
  "ConsumerGroup_Start cg =
     scr_bind (scr_act (Use (KafkaClient (fst cg)))) (\<lambda>_. scr_act (Release (KafkaClient (fst cg))))"

lemma NilOpt_scram:
  "NilOpt \<in> set (scram_opts sc) \<longleftrightarrow> ScramAlgorithm sc \<noteq> [] \<and> ScramAlgorithm sc \<noteq> Scram256 \<and> ScramAlgorithm sc \<noteq> Scram512"
  by (simp add: scram_opts_def)

lemma hook_opts_no_nil: "hook_opts kotelHooks p = Ret opts \<Longrightarrow> NilOpt \<notin> set opts"
  by (auto simp: hook_opts_def Let_def go_bind_Ret_iff split: option.splits if_splits)

text \<open>A nil option reaches the library exactly for an algorithm the code does not know.\<close>

lemma client_opts_nil:
  "client_opts kotelHooks sc config = Ret opts \<Longrightarrow> NilOpt \<notin> set config \<Longrightarrow>
     NilOpt \<in> set opts \<longleftrightarrow> ScramAlgorithm sc \<notin> {[], Scram256, Scram512}"
  unfolding client_opts_def go_bind_Ret_iff by (elim exE conjE) (auto simp: NilOpt_scram dest: hook_opts_no_nil)

lemma client_opts_servers: "client_opts kotelHooks sc config = Ret opts \<Longrightarrow> SeedBrokers (Servers sc) \<in> set opts"
  by (auto simp: client_opts_def go_bind_Ret_iff)

text \<open>The groups commit by hand and block rebalances while they hand out batches.\<close>

lemma NewConsumerGroup_opts:
  assumes "scr_outcome (NewConsumerGroup lib sc topic consumerGroup :: (('p, 'k) resource, go_error + ('k \<times> 'v ConsumerGroup)) script) =
    Ret (Inr (kcl, cg))"
  shows "cg = new_group \<and> kgo_Ping lib kcl = None \<and>
    (\<exists>opts. kgo_NewClient lib opts = Inr kcl \<and>
       {GroupOpt (group_name consumerGroup topic), ConsumeTopics [topic], DisableAutoCommit, BlockRebalanceOnPoll} \<subseteq> set opts)"
proof -
  obtain opts where opts: "client_opts (kotel_Hooks lib) sc (group_opts consumerGroup topic) = Ret opts"
    and made: "(case kgo_NewClient lib opts of Inl err \<Rightarrow> Inl err
      | Inr kcl \<Rightarrow> (case kgo_Ping lib kcl of Some err \<Rightarrow> Inl err | None \<Rightarrow> Inr (kcl, new_group))) = Inr (kcl, cg)"
    using assms unfolding NewConsumerGroup_def NewKafkaClient_def outcome_simps go_bind_Ret_iff by blast
  from made have "kgo_NewClient lib opts = Inr kcl" "kgo_Ping lib kcl = None" "cg = new_group"
    by (auto split: sum.splits option.splits)
  moreover have "set (group_opts consumerGroup topic) \<subseteq> set opts"
    using opts by (auto simp: client_opts_def go_bind_Ret_iff)
  ultimately show ?thesis by (auto simp: group_opts_def)
qed

section \<open>Redis\<close>

record redis_config =
  Address :: string
  rd_Password :: string
  DB :: int
  UseTracer :: bool
  UseTLS :: bool

text \<open>\<open>regexp.MustCompile(`^rediss?://`).ReplaceAllString\<close>: the scheme at the start goes, once.\<close>

definition AddressAndPort :: "redis_config \<Rightarrow> string" where
  "AddressAndPort rc =
     (if prefix ''redis://'' (Address rc) then drop 8 (Address rc)
      else if prefix ''rediss://'' (Address rc) then drop 9 (Address rc)
      else Address rc)"

text \<open>The library: a client is its options; a ping, and instrumentation with tracing.\<close>

record redis_library =
  redis_Ping :: "redis_options \<Rightarrow> go_error option"
  redis_InstrumentTracing :: "redis_options \<Rightarrow> go_error option"

definition redis_options_of :: "redis_config \<Rightarrow> redis_options" where
  "redis_options_of cfg =
     \<lparr>ro_Addr = AddressAndPort cfg, ro_Password = rd_Password cfg, ro_DB = DB cfg, ro_DialTimeout = 5 * Second,
      ro_ReadTimeout = 3 * Second, ro_WriteTimeout = 3 * Second, ro_PoolSize = 10, ro_PoolTimeout = 4 * Second,
      ro_InsecureTLS = UseTLS cfg\<rparr>"

definition NewRedisDB :: "redis_library \<Rightarrow> redis_config \<Rightarrow> (('p, 'k) resource, go_error + redis_options) script" where
  "NewRedisDB lib cfg =
     (let client = redis_options_of cfg in
      scr_bind (scr_act (Acquire (RedisClient client))) (\<lambda>_.
        scr_return
          (case redis_Ping lib client of
             Some err \<Rightarrow> Inl err
           | None \<Rightarrow>
               (if UseTracer cfg
                then (case redis_InstrumentTracing lib client of Some err \<Rightarrow> Inl err | None \<Rightarrow> Inr client)
                else Inr client))))"

lemma AddressAndPort_scheme:
  "Address rc \<in> {''redis://'' @ host, ''rediss://'' @ host} \<Longrightarrow> AddressAndPort rc = host"
  by (auto simp: AddressAndPort_def)

lemma AddressAndPort_plain:
  "\<not> prefix ''redis'' (Address rc) \<Longrightarrow> AddressAndPort rc = Address rc"
  by (auto simp: AddressAndPort_def prefix_def)

lemma NewRedisDB_pinged:
  "scr_outcome (NewRedisDB lib cfg) = Ret (Inr client) \<Longrightarrow> redis_Ping lib client = None \<and> client = redis_options_of cfg"
  by (auto simp: NewRedisDB_def Let_def split: option.splits if_splits)

lemma NewRedisDB_acts [simp]:
  "scr_acts (NewRedisDB lib cfg) = [Acquire (RedisClient (redis_options_of cfg))]" "scr_defers (NewRedisDB lib cfg) = []"
  by (simp_all add: NewRedisDB_def Let_def)

section \<open>The database\<close>

record db_config =
  Url :: string
  MaxConns :: int

text \<open>The pool library: parsing of the URL, a pool for it with a maximum of connections, gorm on a pool.\<close>

record ('p, 'c) pool_library =
  pgxpool_ParseConfig :: "string \<Rightarrow> go_error + string"
  pgxpool_New :: "string \<Rightarrow> int \<Rightarrow> go_error + 'p"
  gorm_Open :: "'p \<Rightarrow> go_error + 'c"

record ('p, 'c) database =
  Connection :: 'c
  pool :: 'p

definition OpenConnection :: "('p, 'c) pool_library \<Rightarrow> 'p \<Rightarrow> go_error + 'c" where
  "OpenConnection lib p = gorm_Open lib p"

text \<open>A pool without a connection is closed on the spot.\<close>

definition NewConnection :: "('p, 'c) pool_library \<Rightarrow> db_config \<Rightarrow> (('p, 'k) resource, go_error + ('p, 'c) database) script" where
  "NewConnection lib config =
     (case pgxpool_ParseConfig lib (Url config) of
        Inl err \<Rightarrow> scr_return (Inl err)
      | Inr poolConfig \<Rightarrow>
          scr_bind (scr_open PgPool (pgxpool_New lib poolConfig (MaxConns config))) (\<lambda>res.
            case res of
              Inl err \<Rightarrow> scr_return (Inl err)
            | Inr p \<Rightarrow>
                (case OpenConnection lib p of
                   Inl err \<Rightarrow> scr_bind (scr_act (Release (PgPool p))) (\<lambda>_. scr_return (Inl err))
                 | Inr conn \<Rightarrow> scr_return (Inr \<lparr>Connection = conn, pool = p\<rparr>))))"

text \<open>\<open>Close\<close> of a connection.\<close>

definition DB_Close :: "('p, 'c) database \<Rightarrow> ('p, 'k) resource act" where
  "DB_Close db = Release (PgPool (pool db))"

text \<open>No pool is left open without a connection, and none is closed under one.\<close>

lemma NewConnection_cases:
  assumes "NewConnection lib config = s"
  obtains
    (connected) db where "scr_outcome s = Ret (Inr db)" "scr_acts s = [Acquire (PgPool (pool db))]" "scr_defers s = []"
      "gorm_Open lib (pool db) = Inr (Connection db)"
  | (failed) err where "scr_outcome s = Ret (Inl err)" "settled (\<lambda>r. True) s" "scr_defers s = []"
proof -
  have "scr_defers s = [] \<and>
    (case scr_outcome s of
       Ret (Inr db) \<Rightarrow> scr_acts s = [Acquire (PgPool (pool db))] \<and> gorm_Open lib (pool db) = Inr (Connection db)
     | Ret (Inl err) \<Rightarrow> scr_acts s = [] \<or> (\<exists>p. scr_acts s = [Acquire (PgPool p), Release (PgPool p)])
     | Panic msg \<Rightarrow> False)"
    unfolding assms [symmetric] by (auto simp: NewConnection_def OpenConnection_def split: sum.splits)
  then show ?thesis using that by (auto simp: settled_def split: go.splits sum.splits)
qed

end
