(* ===== verification/Startup.thy ===== *)
theory Startup
  imports Connections Processor Snapshot
begin

text \<open>
  processors/main_processor.go and main.go: the start of the program from its environment and its
  end, the constructors of models/stores.go, models/charge_cache.go and of the services in
  processors/events_processor, and \<open>ConsumeChanges\<close> of cache/cache.go, which starts the change
  consumers.

  A failure of the start-up is a panic with the message of the error (\<open>LogAndPanic\<close>, whose report
  to Sentry and log line do not show here). The result of
  \<open>StartProcessingEvents\<close> is what it has wired together when the consumer group starts; the group
  itself and the processor are in Consumer_Group and Processor. The functions are scripts
  (Lifecycle): they log what they open and close, and what they defer runs at their end.
\<close>

section \<open>Stores and services\<close>

record ('p, 'c) api_client =
  ac_db :: "('p, 'c) database"

definition NewApiStore :: "('p, 'c) database \<Rightarrow> ('p, 'c) api_client" where
  "NewApiStore db = \<lparr>ac_db = db\<rparr>"

record flag_store =
  fs_name :: string
  fs_db :: redis_options

definition NewFlagStore :: "redis_options \<Rightarrow> string \<Rightarrow> flag_store" where
  "NewFlagStore redis name = \<lparr>fs_name = name, fs_db = redis\<rparr>"

definition FlagStore_Close :: "flag_store \<Rightarrow> ('p, 'k) resource act" where
  "FlagStore_Close store = Release (RedisClient (fs_db store))"

record cache_store =
  cs_db :: redis_options

definition NewCacheStore :: "redis_options \<Rightarrow> cache_store" where
  "NewCacheStore redis = \<lparr>cs_db = redis\<rparr>"

definition CacheStore_Close :: "cache_store \<Rightarrow> ('p, 'k) resource act" where
  "CacheStore_Close store = Release (RedisClient (cs_db store))"

record charge_cache =
  kc_CacheStore :: cache_store

definition NewChargeCache :: "cache_store \<Rightarrow> charge_cache" where
  "NewChargeCache cacheStore = \<lparr>kc_CacheStore = cacheStore\<rparr>"

text \<open>
  The enrichment service: \<open>store\<close> reads through a database connection, \<open>evaluate\<close> is the expression
  library, \<open>order\<close> the order of a map range. A nil \<open>ApiStore\<close> comes with a cache and is not read.
\<close>

definition NewEventEnrichmentService ::
    "('c \<Rightarrow> stage \<Rightarrow> api_store) \<Rightarrow> (string \<Rightarrow> string \<Rightarrow> string option)
     \<Rightarrow> ((string \<times> flat_filter list) list \<Rightarrow> (string \<times> flat_filter list) list)
     \<Rightarrow> ('p, 'c) api_client option \<Rightarrow> ('db badger \<times> (stage \<Rightarrow> 'db)) option \<Rightarrow> 'db enrichment_service" where
  "NewEventEnrichmentService store evaluate order apiStore memCache =
     \<lparr>es_apiStore = (case apiStore of
        Some a \<Rightarrow> store (Connection (ac_db a))
      | None \<Rightarrow> (\<lambda>_. \<lparr>as_err = None, as_billable_metrics = [], as_subscriptions = [], as_flat_filters = []\<rparr>)),
      es_memCache = memCache, es_Evaluate = evaluate, es_range = order\<rparr>"

definition NewEventProducerService ::
    "message_producer \<Rightarrow> message_producer \<Rightarrow> message_producer \<Rightarrow> message_producer \<Rightarrow> event_producer_service" where
  "NewEventProducerService enriched expanded inAdvance deadLetter =
     \<lparr>ps_enriched = enriched, ps_expanded = expanded, ps_inAdvance = inAdvance, ps_deadLetter = deadLetter\<rparr>"

text \<open>The refresh service is the \<open>Flag\<close> of its store.\<close>

definition NewSubscriptionRefreshService :: "flag_store \<Rightarrow> string \<Rightarrow> go_error option io" where
  "NewSubscriptionRefreshService flagStore = FlagStore_Flag (fs_name flagStore)"

text \<open>
  The processor. Its cache service holds nothing but the Redis client that \<open>ExpireCache\<close> addresses,
  so the record has no field for it.
\<close>

definition NewEventProcessor ::
    "'db enrichment_service \<Rightarrow> event_producer_service \<Rightarrow> (string \<Rightarrow> go_error option io) \<Rightarrow> 'db event_processor" where
  "NewEventProcessor enrichmentService producerService refreshService =
     \<lparr>ep_Enrichment = enrichmentService, ep_Producer = producerService, ep_Flag = refreshService\<rparr>"

section \<open>Initialisation of the services\<close>

record ('h, 'k, 'p, 'c) libraries =
  lib_kafka :: "('h, 'k) kafka_library"
  lib_redis :: redis_library
  lib_pool :: "('p, 'c) pool_library"
  lib_uuid :: "string \<Rightarrow> string"

definition initProducer ::
    "('h, 'k) kafka_library \<Rightarrow> environment \<Rightarrow> ('e, 'm) server_config \<Rightarrow> string
     \<Rightarrow> (('p, 'k) resource, go_error + 'k producer) script" where
  "initProducer lib env kafkaConfig topicEnv =
     (if env topicEnv = [] then scr_return (Inl (ErrMsg (topicEnv @ '' variable is required'')))
      else scr_bind (NewProducer lib kafkaConfig (env topicEnv)) (\<lambda>res.
        scr_return (case res of
               Inl err \<Rightarrow> Inl err
             | Inr p \<Rightarrow> (case Producer_Ping lib p of Some err \<Rightarrow> Inl err | None \<Rightarrow> Inr p))))"

definition initFlagStore :: "redis_library \<Rightarrow> environment \<Rightarrow> string \<Rightarrow> (('p, 'k) resource, go_error + flag_store) script" where
  "initFlagStore lib env name =
     (case GetEnvAsInt env ''LAGO_REDIS_STORE_DB'' 0 of
        (redisDb, Some err) \<Rightarrow> scr_return (Inl err)
      | (redisDb, None) \<Rightarrow>
          (let legacyTLS = (env ''ENV'' = ''production'');
               redisConfig = \<lparr>Address = env ''LAGO_REDIS_STORE_URL'', rd_Password = env ''LAGO_REDIS_STORE_PASSWORD'',
                 DB = redisDb, UseTracer = False, UseTLS = GetEnvAsBool env ''LAGO_REDIS_STORE_TLS'' legacyTLS\<rparr>
           in scr_bind (NewRedisDB lib redisConfig) (\<lambda>res.
                scr_return (case res of Inl err \<Rightarrow> Inl err | Inr db \<Rightarrow> Inr (NewFlagStore db name)))))"

definition initChargeCacheStore :: "redis_library \<Rightarrow> environment \<Rightarrow> (('p, 'k) resource, go_error + charge_cache) script" where
  "initChargeCacheStore lib env =
     (case GetEnvAsInt env ''LAGO_REDIS_CACHE_DB'' 0 of
        (redisDb, Some err) \<Rightarrow> scr_return (Inl err)
      | (redisDb, None) \<Rightarrow>
          (let redisConfig = \<lparr>Address = env ''LAGO_REDIS_CACHE_URL'', rd_Password = env ''LAGO_REDIS_CACHE_PASSWORD'',
                 DB = redisDb, UseTracer = False, UseTLS = GetEnvAsBool env ''LAGO_REDIS_CACHE_TLS'' False\<rparr>
           in scr_bind (NewRedisDB lib redisConfig) (\<lambda>res.
                scr_return (case res of Inl err \<Rightarrow> Inl err | Inr db \<Rightarrow> Inr (NewChargeCache (NewCacheStore db))))))"

definition LogAndPanic :: "go_error + 'a \<Rightarrow> 'a go" where
  "LogAndPanic res = (case res of Inl err \<Rightarrow> Panic (error_msg err) | Inr x \<Rightarrow> Ret x)"

definition or_panic :: "('r, go_error + 'a) script \<Rightarrow> ('r, 'a) script" where
  "or_panic s = scr_bind s (\<lambda>res. scr_lift (LogAndPanic res))"

text \<open>The conversion \<open>int32(maxConns)\<close> wraps around.\<close>

definition wrap32 :: "int \<Rightarrow> int" where
  "wrap32 i = (i + 2147483648) mod 4294967296 - 2147483648"

section \<open>StartProcessingEvents\<close>

record ('h, 'k, 'p, 'c, 'e, 'm, 'db) started =
  st_kafka :: "('e, 'm) server_config"
  st_producers :: "'k producer list"
  st_apiStore :: "('p, 'c) api_client option"
  st_flagger :: flag_store
  st_cacher :: charge_cache
  st_processor :: "'db event_processor"
  st_group :: "'k \<times> unit ConsumerGroup"

definition kafka_config :: "environment \<Rightarrow> ('e, 'm) tracer_provider option \<Rightarrow> ('e, 'm) server_config" where
  "kafka_config env provider =
     \<lparr>ScramAlgorithm = env ''LAGO_KAFKA_SCRAM_ALGORITHM'', TLS = GetEnvAsBool env ''LAGO_KAFKA_TLS'' False,
      Servers = ParseBrokersEnv (env ''LAGO_KAFKA_BOOTSTRAP_SERVERS''), TracerProvider = provider,
      UserName = env ''LAGO_KAFKA_USERNAME'', Password = env ''LAGO_KAFKA_PASSWORD''\<rparr>"

text \<open>Each connection with its \<open>defer\<close>; the database is opened only when there is no cache.\<close>

definition init_database ::
    "('p, 'c) pool_library \<Rightarrow> environment \<Rightarrow> bool \<Rightarrow> (('p, 'k) resource, ('p, 'c) api_client option) script" where
  "init_database lib env cached =
     (if cached then scr_return None
      else case GetEnvAsInt env ''LAGO_EVENTS_PROCESSOR_DATABASE_MAX_CONNECTIONS'' 200 of
        (maxConns, Some err) \<Rightarrow> scr_lift (LogAndPanic (Inl err))
      | (maxConns, None) \<Rightarrow>
          scr_bind (or_panic (NewConnection lib \<lparr>Url = env ''DATABASE_URL'', MaxConns = wrap32 maxConns\<rparr>)) (\<lambda>db.
          scr_bind (scr_defer (DB_Close db)) (\<lambda>_. scr_return (Some (NewApiStore db)))))"

definition init_flagger :: "redis_library \<Rightarrow> environment \<Rightarrow> (('p, 'k) resource, flag_store) script" where
  "init_flagger lib env =
     scr_bind (or_panic (initFlagStore lib env ''subscription_refreshed_v2'')) (\<lambda>flagger.
     scr_bind (scr_defer (FlagStore_Close flagger)) (\<lambda>_. scr_return flagger))"

definition init_cacher :: "redis_library \<Rightarrow> environment \<Rightarrow> (('p, 'k) resource, charge_cache) script" where
  "init_cacher lib env =
     scr_bind (or_panic (initChargeCacheStore lib env)) (\<lambda>cacher.
     scr_bind (scr_defer (CacheStore_Close (kc_CacheStore cacher))) (\<lambda>_. scr_return cacher))"

definition StartProcessingEvents ::
    "('h, 'k, 'p, 'c) libraries \<Rightarrow> environment \<Rightarrow> ('c \<Rightarrow> stage \<Rightarrow> api_store) \<Rightarrow> (string \<Rightarrow> string \<Rightarrow> string option)
     \<Rightarrow> ((string \<times> flat_filter list) list \<Rightarrow> (string \<times> flat_filter list) list)
     \<Rightarrow> ('e, 'm) tracer_provider option \<Rightarrow> ('db badger \<times> (stage \<Rightarrow> 'db)) option
     \<Rightarrow> (('p, 'k) resource, ('h, 'k, 'p, 'c, 'e, 'm, 'db) started) script" where
  "StartProcessingEvents lib env store evaluate order provider cache = run_defers
     (let kafkaConfig = kafka_config env provider in
      if Servers kafkaConfig = [] then scr_lift (Panic ''brokers not found'')
      else
        scr_bind (or_panic (initProducer (lib_kafka lib) env kafkaConfig ''LAGO_KAFKA_ENRICHED_EVENTS_TOPIC'')) (\<lambda>enriched.
        scr_bind (or_panic (initProducer (lib_kafka lib) env kafkaConfig ''LAGO_KAFKA_ENRICHED_EVENTS_EXPANDED_TOPIC'')) (\<lambda>expanded.
        scr_bind (or_panic (initProducer (lib_kafka lib) env kafkaConfig ''LAGO_KAFKA_EVENTS_CHARGED_IN_ADVANCE_TOPIC'')) (\<lambda>inAdvance.
        scr_bind (or_panic (initProducer (lib_kafka lib) env kafkaConfig ''LAGO_KAFKA_EVENTS_DEAD_LETTER_TOPIC'')) (\<lambda>deadLetter.
        scr_bind (init_database (lib_pool lib) env (cache \<noteq> None)) (\<lambda>apiStore.
        scr_bind (init_flagger (lib_redis lib) env) (\<lambda>flagger.
        scr_bind (init_cacher (lib_redis lib) env) (\<lambda>cacher.
        let processor = NewEventProcessor (NewEventEnrichmentService store evaluate order apiStore cache)
              (NewEventProducerService (kafka_producer (pr_Topic enriched)) (kafka_producer (pr_Topic expanded))
                 (kafka_producer (pr_Topic inAdvance)) (kafka_producer (pr_Topic deadLetter)))
              (NewSubscriptionRefreshService flagger)
        in scr_bind (or_panic (NewConsumerGroup (lib_kafka lib) kafkaConfig (env ''LAGO_KAFKA_RAW_EVENTS_TOPIC'')
                                 (env ''LAGO_KAFKA_CONSUMER_GROUP''))) (\<lambda>cg.
           scr_bind (ConsumerGroup_Start cg) (\<lambda>_.
             scr_return \<lparr>st_kafka = kafkaConfig, st_producers = [enriched, expanded, inAdvance, deadLetter],
               st_apiStore = apiStore, st_flagger = flagger, st_cacher = cacher, st_processor = processor,
               st_group = cg\<rparr>))))))))))"

section \<open>ConsumeChanges\<close>

text \<open>
  The client of a change consumer: the value of the variable is one seed broker, as it stands, and
  neither TLS nor a SASL mechanism is configured.
\<close>

definition change_client_opts :: "environment \<Rightarrow> string \<Rightarrow> string \<Rightarrow> string \<Rightarrow> 'h kgo_opt list" where
  "change_client_opts env topic modelName uuid =
     [SeedBrokers [env ''LAGO_KAFKA_BOOTSTRAP_SERVERS''],
      GroupOpt (''lago_evp_'' @ modelName @ ''_'' @ uuid), ConsumeTopics [topic], DisableAutoCommit]"

text \<open>The client stays with the goroutine of the consumer, which closes it when it stops.\<close>

definition startGenericConsumer ::
    "('h, 'k, 'p, 'c) libraries \<Rightarrow> environment \<Rightarrow> string \<Rightarrow> string \<Rightarrow> (('p, 'k) resource, go_error + 'k) script" where
  "startGenericConsumer lib env topic modelName =
     scr_open KafkaClient (kgo_NewClient (lib_kafka lib) (change_client_opts env topic modelName (lib_uuid lib modelName)))"

definition change_consumers :: "'db badger \<Rightarrow> string \<Rightarrow> (string \<times> string \<times> string) list" where
  "change_consumers B topicPrefix =
     [(''billable metrics'', cc_Topic (billable_metric_consumer B topicPrefix), cc_ModelName (billable_metric_consumer B topicPrefix)),
      (''subscriptions'', cc_Topic (subscription_consumer B topicPrefix), cc_ModelName (subscription_consumer B topicPrefix)),
      (''charges'', cc_Topic (charge_consumer B topicPrefix), cc_ModelName (charge_consumer B topicPrefix)),
      (''billable metric filters'', cc_Topic (billable_metric_filter_consumer B topicPrefix), cc_ModelName (billable_metric_filter_consumer B topicPrefix)),
      (''charge filters'', cc_Topic (charge_filter_consumer B topicPrefix), cc_ModelName (charge_filter_consumer B topicPrefix)),
      (''charge filter values'', cc_Topic (charge_filter_value_consumer B topicPrefix), cc_ModelName (charge_filter_value_consumer B topicPrefix))]"

text \<open>The loop: the clients of the consumers that were started, or the error that ended it.\<close>

fun start_consumers ::
    "('h, 'k, 'p, 'c) libraries \<Rightarrow> environment \<Rightarrow> (string \<times> string \<times> string) list
     \<Rightarrow> (('p, 'k) resource, go_error + 'k list) script" where
  "start_consumers lib env [] = scr_return (Inr [])"
| "start_consumers lib env ((name, topic, model) # rest) =
     scr_bind (startGenericConsumer lib env topic model) (\<lambda>res.
       case res of
         Inl err \<Rightarrow> scr_return (Inl (ErrMsg (''failed to start '' @ name @ '' consumer: '' @ error_msg err)))
       | Inr client \<Rightarrow>
           scr_bind (start_consumers lib env rest) (\<lambda>res'. scr_return (map_sum id ((#) client) res')))"

definition ConsumeChanges ::
    "('h, 'k, 'p, 'c) libraries \<Rightarrow> environment \<Rightarrow> 'db badger \<Rightarrow> string \<Rightarrow> (('p, 'k) resource, go_error + 'k list) script" where
  "ConsumeChanges lib env B topicPrefix = start_consumers lib env (change_consumers B topicPrefix)"

section \<open>main\<close>

text \<open>\<open>NewCache\<close>: an in-memory Badger database, or the wrapped error of opening it.\<close>

definition NewCache :: "go_error + 'db \<Rightarrow> go_error + 'db" where
  "NewCache opened =
     (case opened of Inl err \<Rightarrow> Inl (ErrMsg (''failed to open badger db: '' @ error_msg err)) | Inr db \<Rightarrow> Inr db)"

text \<open>
  The snapshot, which reads through a connection of its own: \<open>rows_of\<close> reads tables through it. The
  connection is closed when the goroutines are done, however they ended; \<open>snapshot\<close> is what they did.
\<close>

definition snapshot_connection :: "('p, 'c) pool_library \<Rightarrow> environment \<Rightarrow> (('p, 'k) resource, go_error + ('p, 'c) database) script" where
  "snapshot_connection lib env = NewConnection lib \<lparr>Url = env ''DATABASE_URL'', MaxConns = 10\<rparr>"

definition snapshot_script ::
    "('p, 'c) pool_library \<Rightarrow> environment \<Rightarrow> 's go \<Rightarrow> (('p, 'k) resource, 's) script" where
  "snapshot_script lib env snapshot = run_defers
     (scr_bind (or_panic (snapshot_connection lib env)) (\<lambda>db.
      scr_bind (scr_defer (DB_Close db)) (\<lambda>_. scr_lift snapshot)))"

text \<open>What \<open>main\<close> sets up for itself: the level of the log and the options of Sentry.\<close>

datatype log_level = LevelDebug | LevelInfo

definition main_env :: "environment \<Rightarrow> string" where
  "main_env env = GetEnvOrDefault env ''ENV'' ''development''"

definition main_log_level :: "environment \<Rightarrow> log_level" where
  "main_log_level env = (if main_env env = ''development'' then LevelDebug else LevelInfo)"

text \<open>
  The goroutine of the graceful shutdown: the first of the signals it is notified of cancels the
  context, which is the label \<open>Cancel\<close> of the group's run.
\<close>

datatype signal = SIGINT | SIGTERM | OtherSignal

fun setupGracefulShutdown :: "signal list \<Rightarrow> bool" where
  "setupGracefulShutdown [] = False"
| "setupGracefulShutdown (sig # sigs) =
     (if sig = SIGINT \<or> sig = SIGTERM then True else setupGracefulShutdown sigs)"

record sentry_options =
  so_Dsn :: string
  so_Environment :: string
  so_Debug :: bool
  so_AttachStacktrace :: bool

definition sentry_client_options :: "environment \<Rightarrow> sentry_options" where
  "sentry_client_options env =
     \<lparr>so_Dsn = env ''SENTRY_DSN'', so_Environment = main_env env, so_Debug = False, so_AttachStacktrace = True\<rparr>"

text \<open>
  The cache (opened, filled, kept up to date by the change consumers) and what \<open>main\<close> does after its
  own set-up: the cache when it is asked for (\<open>later\<close> is what a read of it finds) and the processing of
  events. Then the whole of \<open>main\<close>: context, tracing, Sentry (whose errors are only printed), the rest,
  and the deferred calls.
  \<open>opened\<close> is what opening Badger gives.
\<close>

definition main_cache ::
    "('h, 'k, 'p, 'c) libraries \<Rightarrow> environment \<Rightarrow> 'db badger \<Rightarrow> go_error + 'db
     \<Rightarrow> (go_error list \<times> 'db) go \<Rightarrow> (('p, 'k) resource, 'db) script" where
  "main_cache lib env B opened snapshot =
     scr_bind (or_panic (scr_open (\<lambda>_. MemCache) (NewCache opened))) (\<lambda>db0.
     scr_bind (scr_defer (Release MemCache)) (\<lambda>_.
     scr_bind (snapshot_script (lib_pool lib) env snapshot) (\<lambda>(errs, db).
     scr_bind (or_panic (ConsumeChanges lib env B (env ''LAGO_DEBEZIUM_TOPIC_PREFIX''))) (\<lambda>clients.
       scr_return db))))"

definition main_rest ::
    "('h, 'k, 'p, 'c) libraries \<Rightarrow> environment \<Rightarrow> ('c \<Rightarrow> stage \<Rightarrow> api_store)
     \<Rightarrow> (string \<Rightarrow> string \<Rightarrow> string option) \<Rightarrow> ((string \<times> flat_filter list) list \<Rightarrow> (string \<times> flat_filter list) list)
     \<Rightarrow> ('e, 'm) tracer_provider option \<Rightarrow> 'db badger \<Rightarrow> go_error + 'db \<Rightarrow> (go_error list \<times> 'db) go \<Rightarrow> ('db \<Rightarrow> stage \<Rightarrow> 'db)
     \<Rightarrow> (('p, 'k) resource, ('h, 'k, 'p, 'c, 'e, 'm, 'db) started) script" where
  "main_rest lib env store evaluate order provider B opened snapshot later =
     (if env ''LAGO_USE_MEMORY_CACHE'' = ''true''
      then scr_bind (main_cache lib env B opened snapshot) (\<lambda>db.
             StartProcessingEvents lib env store evaluate order provider (Some (B, later db)))
      else StartProcessingEvents lib env store evaluate order provider None)"

definition main_script ::
    "('e, 'm) otel_library \<Rightarrow> ('h, 'k, 'p, 'c) libraries \<Rightarrow> environment \<Rightarrow> ('c \<Rightarrow> stage \<Rightarrow> api_store)
     \<Rightarrow> (string \<Rightarrow> string \<Rightarrow> string option) \<Rightarrow> ((string \<times> flat_filter list) list \<Rightarrow> (string \<times> flat_filter list) list)
     \<Rightarrow> 'db badger \<Rightarrow> go_error + 'db \<Rightarrow> (go_error list \<times> 'db) go \<Rightarrow> ('db \<Rightarrow> stage \<Rightarrow> 'db)
     \<Rightarrow> (('p, 'k) resource, ('h, 'k, 'p, 'c, 'e, 'm, 'db) started) script" where
  "main_script otel lib env store evaluate order B opened snapshot later = run_defers
     (let tracerProvider = fst (InitTracerProvider otel env) in
      scr_bind (scr_act (Acquire RootContext)) (\<lambda>_.
      scr_bind (scr_defer (Release RootContext)) (\<lambda>_.
      scr_bind (case tracerProvider of
                  None \<Rightarrow> scr_return ()
                | Some p \<Rightarrow>
                    scr_bind (scr_act (Acquire TracingLibrary)) (\<lambda>_.
                    scr_bind (scr_defer (Release TracingLibrary)) (\<lambda>_.
                    scr_bind (scr_lift (InitTracer p no_tracer)) (\<lambda>tracing. scr_return ())))) (\<lambda>_.
      scr_bind (scr_act (Acquire SentryClient)) (\<lambda>_.
      scr_bind (scr_defer (Release SentryClient)) (\<lambda>_.
      main_rest lib env store evaluate order tracerProvider B opened snapshot later))))))"

text \<open>The runs of the program: the snapshot's goroutines interleave.\<close>

definition main_run ::
    "('e, 'm) otel_library \<Rightarrow> ('h, 'k, 'p, 'c) libraries \<Rightarrow> environment \<Rightarrow> ('c \<Rightarrow> stage \<Rightarrow> api_store)
     \<Rightarrow> (string \<Rightarrow> string \<Rightarrow> string option) \<Rightarrow> ((string \<times> flat_filter list) list \<Rightarrow> (string \<times> flat_filter list) list)
     \<Rightarrow> 'db badger \<Rightarrow> go_error + 'db \<Rightarrow> ('c \<Rightarrow> database_rows) \<Rightarrow> instant \<Rightarrow> ('db \<Rightarrow> stage \<Rightarrow> 'db)
     \<Rightarrow> (('p, 'k) resource, ('h, 'k, 'p, 'c, 'e, 'm, 'db) started) script \<Rightarrow> bool" where
  "main_run otel lib env store evaluate order B opened rows_of now later run \<longleftrightarrow>
     (\<exists>snapshot. run = main_script otel lib env store evaluate order B opened snapshot later \<and>
        (\<forall>db0 db. NewCache opened = Inr db0 \<and>
           scr_outcome (snapshot_connection (lib_pool lib) env :: (('p, 'k) resource, go_error + ('p, 'c) database) script) = Ret (Inr db) \<longrightarrow>
           LoadInitialSnapshot (Inr (rows_of (Connection db))) now B db0 snapshot))"

section \<open>What a start gives\<close>

lemma LogAndPanic_Ret: "LogAndPanic res = Ret x \<longleftrightarrow> res = Inr x"
  by (auto simp: LogAndPanic_def split: sum.splits)

lemma or_panic_Ret: "scr_outcome (or_panic s) = Ret x \<longleftrightarrow> scr_outcome s = Ret (Inr x)"
  by (auto simp: or_panic_def go_bind_Ret_iff LogAndPanic_Ret)

lemma or_panic_acts [simp]: "scr_acts (or_panic s) = scr_acts s" "scr_defers (or_panic s) = scr_defers s"
  by (simp_all add: or_panic_def split: go.split)

lemma NewProducer_Ret:
  assumes "scr_outcome (NewProducer lib sc topic :: (('p, 'k) resource, go_error + 'k producer) script) = Ret (Inr p)"
  shows "pr_Topic p = topic \<and>
    scr_acts (NewProducer lib sc topic :: (('p, 'k) resource, go_error + 'k producer) script) = [Acquire (KafkaClient (pr_client p))]"
  using assms unfolding NewProducer_def NewKafkaClient_def outcome_simps go_bind_Ret_iff
  by (elim exE conjE) (auto split: sum.splits)

lemma NewKafkaClient_defers [simp]: "scr_defers (NewKafkaClient lib sc config) = []"
  by (simp add: NewKafkaClient_def split: go.split)

lemma initProducer_defers [simp]: "scr_defers (initProducer lib env sc topicEnv) = []"
  by (simp add: initProducer_def NewProducer_def split: go.split)

lemma NewConsumerGroup_defers [simp]: "scr_defers (NewConsumerGroup lib sc topic consumerGroup) = []"
  by (simp add: NewConsumerGroup_def split: go.split)

lemma init_producer_Ret:
  assumes "scr_outcome (or_panic (initProducer lib env sc topicEnv) :: (('p, 'k) resource, 'k producer) script) = Ret p"
  shows "env topicEnv \<noteq> [] \<and> pr_Topic p = env topicEnv \<and> kgo_Ping lib (pr_client p) = None"
    and "scr_acts (initProducer lib env sc topicEnv :: (('p, 'k) resource, go_error + 'k producer) script) =
      [Acquire (KafkaClient (pr_client p))]"
proof -
  let ?new = "NewProducer lib sc (env topicEnv) :: (('p, 'k) resource, go_error + 'k producer) script"
  from assms have init: "scr_outcome (initProducer lib env sc topicEnv :: (('p, 'k) resource, go_error + 'k producer) script) = Ret (Inr p)"
    by (simp add: or_panic_Ret)
  then have var: "env topicEnv \<noteq> []" by (auto simp: initProducer_def)
  with init obtain res where new: "scr_outcome ?new = Ret res"
    and pinged: "(case res of Inl err \<Rightarrow> Inl err
      | Inr p' \<Rightarrow> (case Producer_Ping lib p' of Some err \<Rightarrow> Inl err | None \<Rightarrow> Inr p')) = Inr p"
    by (auto simp: initProducer_def go_bind_Ret_iff)
  from pinged have res: "res = Inr p" "Producer_Ping lib p = None" by (auto split: sum.splits option.splits)
  note made = NewProducer_Ret [OF new [unfolded res(1)]]
  with var res(2) show "env topicEnv \<noteq> [] \<and> pr_Topic p = env topicEnv \<and> kgo_Ping lib (pr_client p) = None"
    by (simp add: Producer_Ping_def)
  show "scr_acts (initProducer lib env sc topicEnv :: (('p, 'k) resource, go_error + 'k producer) script) =
      [Acquire (KafkaClient (pr_client p))]"
    using made var new by (simp add: initProducer_def)
qed

lemma init_database_Ret:
  assumes "scr_outcome (init_database lib env cached :: (('p, 'k) resource, ('p, 'c) api_client option) script) = Ret db"
  shows "db = None \<longleftrightarrow> cached"
    and "scr_acts (init_database lib env cached :: (('p, 'k) resource, ('p, 'c) api_client option) script) =
      (case db of None \<Rightarrow> [] | Some a \<Rightarrow> [Acquire (PgPool (pool (ac_db a)))])"
    and "scr_defers (init_database lib env cached :: (('p, 'k) resource, ('p, 'c) api_client option) script) =
      (case db of None \<Rightarrow> [] | Some a \<Rightarrow> [Release (PgPool (pool (ac_db a)))])"
proof -
  let ?i = "init_database lib env cached :: (('p, 'k) resource, ('p, 'c) api_client option) script"
  obtain n err where n: "GetEnvAsInt env ''LAGO_EVENTS_PROCESSOR_DATABASE_MAX_CONNECTIONS'' 200 = (n, err)" by fastforce
  let ?c = "NewConnection lib \<lparr>Url = env ''DATABASE_URL'', MaxConns = wrap32 n\<rparr> :: (('p, 'k) resource, go_error + ('p, 'c) database) script"
  have "(db = None \<longleftrightarrow> cached) \<and> scr_acts ?i = (case db of None \<Rightarrow> [] | Some a \<Rightarrow> [Acquire (PgPool (pool (ac_db a)))]) \<and>
      scr_defers ?i = (case db of None \<Rightarrow> [] | Some a \<Rightarrow> [Release (PgPool (pool (ac_db a)))])"
  proof (cases cached)
    case True
    then show ?thesis using assms by (simp add: init_database_def)
  next
    case False
    with assms n have err: "err = None" by (cases err) (auto simp: init_database_def LogAndPanic_def)
    obtain d where d: "scr_outcome ?c = Ret (Inr d)"
      using assms False n err by (auto simp: init_database_def go_bind_Ret_iff or_panic_Ret)
    have made: "scr_acts ?c = [Acquire (PgPool (pool d))] \<and> scr_defers ?c = []"
      by (rule NewConnection_cases [of lib "\<lparr>Url = env ''DATABASE_URL'', MaxConns = wrap32 n\<rparr>" ?c]) (use d in auto)
    have "scr_outcome (or_panic ?c) = Ret d" using d by (simp add: or_panic_Ret)
    then show ?thesis using assms False n err made by (auto simp: init_database_def NewApiStore_def DB_Close_def)
  qed
  then show "db = None \<longleftrightarrow> cached"
    "scr_acts ?i = (case db of None \<Rightarrow> [] | Some a \<Rightarrow> [Acquire (PgPool (pool (ac_db a)))])"
    "scr_defers ?i = (case db of None \<Rightarrow> [] | Some a \<Rightarrow> [Release (PgPool (pool (ac_db a)))])" by blast+
qed

lemma init_flagger_Ret:
  assumes "scr_outcome (init_flagger lib env :: (('p, 'k) resource, flag_store) script) = Ret fs"
  shows "fs_name fs = ''subscription_refreshed_v2'' \<and> redis_Ping lib (fs_db fs) = None"
    and "scr_acts (init_flagger lib env :: (('p, 'k) resource, flag_store) script) = [Acquire (RedisClient (fs_db fs))]"
    and "scr_defers (init_flagger lib env :: (('p, 'k) resource, flag_store) script) = [Release (RedisClient (fs_db fs))]"
  using assms
  by (auto simp: init_flagger_def initFlagStore_def NewRedisDB_def NewFlagStore_def FlagStore_Close_def Let_def or_panic_def
      go_bind_Ret_iff LogAndPanic_def split: prod.splits option.splits sum.splits go.splits)

lemma init_cacher_Ret:
  assumes "scr_outcome (init_cacher lib env :: (('p, 'k) resource, charge_cache) script) = Ret cc"
  shows "redis_Ping lib (cs_db (kc_CacheStore cc)) = None"
    and "scr_acts (init_cacher lib env :: (('p, 'k) resource, charge_cache) script) = [Acquire (RedisClient (cs_db (kc_CacheStore cc)))]"
    and "scr_defers (init_cacher lib env :: (('p, 'k) resource, charge_cache) script) = [Release (RedisClient (cs_db (kc_CacheStore cc)))]"
  using assms
  by (auto simp: init_cacher_def initChargeCacheStore_def NewRedisDB_def NewChargeCache_def NewCacheStore_def CacheStore_Close_def
      Let_def or_panic_def go_bind_Ret_iff LogAndPanic_def split: prod.splits option.splits sum.splits go.splits)

lemma new_group_Ret:
  assumes "scr_outcome (or_panic (NewConsumerGroup lib sc topic consumerGroup) :: (('p, 'k) resource, 'k \<times> unit ConsumerGroup) script) = Ret cg"
  shows "scr_acts (NewConsumerGroup lib sc topic consumerGroup :: (('p, 'k) resource, go_error + ('k \<times> unit ConsumerGroup)) script) =
      [Acquire (KafkaClient (fst cg))]"
proof -
  from assms have "scr_outcome (NewConsumerGroup lib sc topic consumerGroup :: (('p, 'k) resource, go_error + ('k \<times> unit ConsumerGroup)) script) = Ret (Inr cg)"
    by (simp add: or_panic_Ret)
  then show ?thesis unfolding NewConsumerGroup_def NewKafkaClient_def outcome_simps go_bind_Ret_iff
    by (elim exE conjE) (auto split: sum.splits option.splits)
qed

text \<open>The steps of a start that succeeds.\<close>

lemma StartProcessingEvents_steps:
  fixes lib :: "('h, 'k, 'p, 'c) libraries" and st :: "('h, 'k, 'p, 'c, 'e, 'm, 'db) started"
  assumes "scr_outcome (StartProcessingEvents lib env store evaluate order provider cache) = Ret st"
  obtains enriched expanded inAdvance deadLetter
  where "Servers (kafka_config env provider) \<noteq> []"
    and "scr_outcome (or_panic (initProducer (lib_kafka lib) env (kafka_config env provider) ''LAGO_KAFKA_ENRICHED_EVENTS_TOPIC'')
           :: (('p, 'k) resource, 'k producer) script) = Ret enriched"
    and "scr_outcome (or_panic (initProducer (lib_kafka lib) env (kafka_config env provider) ''LAGO_KAFKA_ENRICHED_EVENTS_EXPANDED_TOPIC'')
           :: (('p, 'k) resource, 'k producer) script) = Ret expanded"
    and "scr_outcome (or_panic (initProducer (lib_kafka lib) env (kafka_config env provider) ''LAGO_KAFKA_EVENTS_CHARGED_IN_ADVANCE_TOPIC'')
           :: (('p, 'k) resource, 'k producer) script) = Ret inAdvance"
    and "scr_outcome (or_panic (initProducer (lib_kafka lib) env (kafka_config env provider) ''LAGO_KAFKA_EVENTS_DEAD_LETTER_TOPIC'')
           :: (('p, 'k) resource, 'k producer) script) = Ret deadLetter"
    and "scr_outcome (init_database (lib_pool lib) env (cache \<noteq> None) :: (('p, 'k) resource, ('p, 'c) api_client option) script) = Ret (st_apiStore st)"
    and "scr_outcome (init_flagger (lib_redis lib) env :: (('p, 'k) resource, flag_store) script) = Ret (st_flagger st)"
    and "scr_outcome (init_cacher (lib_redis lib) env :: (('p, 'k) resource, charge_cache) script) = Ret (st_cacher st)"
    and "scr_outcome (or_panic (NewConsumerGroup (lib_kafka lib) (kafka_config env provider) (env ''LAGO_KAFKA_RAW_EVENTS_TOPIC'')
           (env ''LAGO_KAFKA_CONSUMER_GROUP'')) :: (('p, 'k) resource, 'k \<times> unit ConsumerGroup) script) = Ret (st_group st)"
    and "st_kafka st = kafka_config env provider" and "st_producers st = [enriched, expanded, inAdvance, deadLetter]"
    and "st_processor st = NewEventProcessor (NewEventEnrichmentService store evaluate order (st_apiStore st) cache)
              (NewEventProducerService (kafka_producer (pr_Topic enriched)) (kafka_producer (pr_Topic expanded))
                 (kafka_producer (pr_Topic inAdvance)) (kafka_producer (pr_Topic deadLetter)))
              (NewSubscriptionRefreshService (st_flagger st))"
proof -
  let ?sc = "kafka_config env provider"
  have brokers: "Servers ?sc \<noteq> []" using assms by (auto simp: StartProcessingEvents_def Let_def)
  show ?thesis
    using assms unfolding StartProcessingEvents_def Let_def if_not_P [OF brokers] outcome_simps go_bind_Ret_iff
    by (elim exE conjE) (rule that, (auto simp: brokers)[12])
qed


section \<open>What stays open\<close>

text \<open>What the program has to close: everything but Kafka clients, and Redis clients only when they answer.\<close>

definition managed :: "redis_library \<Rightarrow> ('p, 'k) resource \<Rightarrow> bool" where
  "managed lib r \<longleftrightarrow> (case r of KafkaClient k \<Rightarrow> False | RedisClient client \<Rightarrow> redis_Ping lib client = None | _ \<Rightarrow> True)"

lemma settled_NewKafkaClient: "settled (managed lib) (NewKafkaClient kafka sc config)"
  by (simp add: settled_def NewKafkaClient_def managed_def split: go.split sum.split)

lemma settled_or_panic [simp]: "settled P (or_panic s) = settled P s"
  by (simp add: settled_def)

lemma settled_initProducer: "settled (managed lib) (initProducer kafka env sc topicEnv)"
  unfolding initProducer_def NewProducer_def by (simp add: settled_bind settled_NewKafkaClient)

lemma settled_NewConsumerGroup: "settled (managed lib) (NewConsumerGroup kafka sc topic consumerGroup)"
  unfolding NewConsumerGroup_def by (simp add: settled_bind settled_NewKafkaClient)

lemma settled_everything: "settled (\<lambda>r. True) s \<Longrightarrow> settled P s"
  unfolding settled_def by simp

lemma settled_with_connection:
  fixes c :: "(('p, 'k) resource, go_error + ('p, 'c) database) script"
  assumes "c = NewConnection pools config" and "\<And>db. settled P (f db)"
  shows "settled P (scr_bind (or_panic c) (\<lambda>db. scr_bind (scr_defer (DB_Close db)) (\<lambda>_. f db)))"
proof (rule NewConnection_cases [OF assms(1) [symmetric]])
  fix db assume c: "scr_outcome c = Ret (Inr db)" "scr_acts c = [Acquire (PgPool (pool db))]" "scr_defers c = []"
  then have "scr_outcome (or_panic c) = Ret db" by (simp add: or_panic_Ret)
  then show ?thesis using c assms(2) [of db] by (simp add: settled_def DB_Close_def)
next
  fix err assume c: "scr_outcome c = Ret (Inl err)" "settled (\<lambda>r. True) c" "scr_defers c = []"
  then have "scr_outcome (or_panic c) = Panic (error_msg err)" by (simp add: or_panic_def LogAndPanic_def)
  then show ?thesis using settled_everything [OF c(2)] by (intro settled_bind) simp_all
qed

lemma settled_init_database: "settled (managed lib) (init_database pools env cached)"
  by (auto simp: init_database_def settled_with_connection split: prod.split option.split)

lemma settled_init_flagger: "settled (managed lib) (init_flagger lib env)"
  by (auto simp: settled_def init_flagger_def initFlagStore_def NewRedisDB_def NewFlagStore_def FlagStore_Close_def Let_def or_panic_def
      LogAndPanic_def managed_def split: prod.splits option.splits sum.splits go.splits)

lemma settled_init_cacher: "settled (managed lib) (init_cacher lib env)"
  by (auto simp: settled_def init_cacher_def initChargeCacheStore_def NewRedisDB_def NewChargeCache_def NewCacheStore_def
      CacheStore_Close_def Let_def or_panic_def LogAndPanic_def managed_def split: prod.splits option.splits sum.splits go.splits)

lemma settled_Start: "settled (managed lib) (scr_bind (ConsumerGroup_Start cg) (\<lambda>_. scr_return x))"
  by (simp add: settled_def ConsumerGroup_Start_def managed_def)

lemma settled_StartProcessingEvents:
  "settled (managed (lib_redis lib)) (StartProcessingEvents lib env store evaluate order provider cache)"
  unfolding StartProcessingEvents_def Let_def settled_basic
  by (simp add: settled_bind settled_initProducer settled_init_database settled_init_flagger settled_init_cacher
    settled_NewConsumerGroup settled_Start)

lemma StartProcessingEvents_acts:
  fixes lib :: "('h, 'k, 'p, 'c) libraries" and st :: "('h, 'k, 'p, 'c, 'e, 'm, 'db) started"
  assumes "scr_outcome (StartProcessingEvents lib env store evaluate order provider cache) = Ret st"
  defines "database \<equiv> (case st_apiStore st of None \<Rightarrow> [] | Some a \<Rightarrow> [PgPool (pool (ac_db a))])"
  shows "scr_acts (StartProcessingEvents lib env store evaluate order provider cache
      :: (('p, 'k) resource, ('h, 'k, 'p, 'c, 'e, 'm, 'db) started) script) =
    map Acquire (map (\<lambda>p. KafkaClient (pr_client p)) (st_producers st) @ database @
      [RedisClient (fs_db (st_flagger st)), RedisClient (cs_db (kc_CacheStore (st_cacher st))), KafkaClient (fst (st_group st))]) @
    [Use (KafkaClient (fst (st_group st)))] @
    map Release ([KafkaClient (fst (st_group st)), RedisClient (cs_db (kc_CacheStore (st_cacher st))),
      RedisClient (fs_db (st_flagger st))] @ database)"
proof (rule StartProcessingEvents_steps [OF assms(1)], goal_cases)
  case (1 enriched expanded inAdvance deadLetter)
  note db = init_database_Ret(2,3) [OF 1(6)]
  show ?case
    unfolding StartProcessingEvents_def Let_def if_not_P [OF 1(1)]
    by (cases "st_apiStore st")
      (simp_all add: 1(2-9,11) 1(2-5) [THEN init_producer_Ret(2)] db
        init_flagger_Ret(2,3) [OF 1(7)] init_cacher_Ret(2,3) [OF 1(8)] new_group_Ret [OF 1(9)]
        ConsumerGroup_Start_def database_def del: not_None_eq)
qed

text \<open>Nothing is used before the consumer group starts.\<close>

definition unused :: "('r, 'a) script \<Rightarrow> bool" where
  "unused s \<longleftrightarrow> (\<forall>r. Use r \<notin> set (scr_acts s) \<union> set (scr_defers s))"

definition unused_on_panic :: "('r, 'a) script \<Rightarrow> bool" where
  "unused_on_panic s \<longleftrightarrow> (\<forall>msg. scr_outcome s = Panic msg \<longrightarrow> unused s)"

lemma unused_bind: "unused s \<Longrightarrow> (\<And>x. unused (f x)) \<Longrightarrow> unused (scr_bind s f)"
  by (auto simp: unused_def split: go.split)

lemma unused_on_panic_bind: "unused s \<Longrightarrow> (\<And>x. unused_on_panic (f x)) \<Longrightarrow> unused_on_panic (scr_bind s f)"
  by (cases "scr_outcome s") (simp_all add: unused_on_panic_def unused_def)

lemma unused_basic [simp]:
  "unused (scr_lift m)" "unused (scr_return x)" "unused (scr_defer (Release r))" "unused (or_panic s) = unused s"
  "unused (scr_act (Acquire r))" "unused (scr_act (Release r))" "unused_on_panic (run_defers s') = unused_on_panic s'"
  by (auto simp: unused_def unused_on_panic_def)

lemma unused_constructors:
  "unused (initProducer kafka env sc topicEnv)" "unused (NewConsumerGroup kafka sc topic consumerGroup)"
  "unused (init_flagger redis env)" "unused (init_cacher redis env)" "unused (init_database pools env cached)"
  "unused (snapshot_connection pools env)"
  by (auto simp: unused_def initProducer_def NewProducer_def NewKafkaClient_def NewConsumerGroup_def init_flagger_def
      initFlagStore_def FlagStore_Close_def init_cacher_def initChargeCacheStore_def CacheStore_Close_def init_database_def
      NewConnection_def DB_Close_def snapshot_connection_def Let_def split: go.splits sum.splits prod.splits option.splits)

lemma unused_on_panic_Start: "unused_on_panic (scr_bind (ConsumerGroup_Start cg) (\<lambda>_. scr_return x))"
  by (simp add: unused_on_panic_def ConsumerGroup_Start_def)

lemma unused_on_panic_lift: "unused_on_panic (scr_lift m)"
  by (simp add: unused_on_panic_def)

lemma unused_on_panic_StartProcessingEvents:
  "unused_on_panic (StartProcessingEvents lib env store evaluate order provider cache)"
  unfolding StartProcessingEvents_def Let_def unused_basic
  by (simp add: unused_on_panic_bind unused_constructors unused_on_panic_Start unused_on_panic_lift)

text \<open>
  C32: the connections of \<open>StartProcessingEvents\<close>. However it ends, every database pool it opened is
  closed, and so is every Redis client that answered its ping; a failed start never lets the group
  consume. A start that succeeds serves until the group has shut down and closed its client, then
  closes the Redis clients and the pool in the reverse order of their opening, and leaves exactly the
  clients of the four producers open, which nothing closes.
\<close>
theorem StartProcessingEvents_closes:
  fixes lib :: "('h, 'k, 'p, 'c) libraries"
    and start :: "(('p, 'k) resource, ('h, 'k, 'p, 'c, 'e, 'm, 'db) started) script"
  assumes "start = StartProcessingEvents lib env store evaluate order provider cache"
  shows "(\<forall>r. managed (lib_redis lib) r \<longrightarrow> r \<notin># left_open (scr_acts start)) \<and>
    (case scr_outcome start of
       Panic msg \<Rightarrow> \<forall>r. Use r \<notin> set (scr_acts start)
     | Ret st \<Rightarrow>
         (let producers = map (\<lambda>p. KafkaClient (pr_client p)) (st_producers st);
              database = (case st_apiStore st of None \<Rightarrow> [] | Some a \<Rightarrow> [PgPool (pool (ac_db a))]);
              flagger = RedisClient (fs_db (st_flagger st)); cacher = RedisClient (cs_db (kc_CacheStore (st_cacher st)));
              group = KafkaClient (fst (st_group st))
          in scr_acts start = map Acquire (producers @ database @ [flagger, cacher, group]) @ [Use group] @
                 map Release ([group, cacher, flagger] @ database) \<and>
             left_open (scr_acts start) = mset producers))"
proof (intro conjI allI impI)
  fix r :: "('p, 'k) resource" assume "managed (lib_redis lib) r"
  then show "r \<notin># left_open (scr_acts start)"
    using settled_left_open [OF settled_StartProcessingEvents, of lib r env store evaluate order provider cache]
    by (simp add: assms StartProcessingEvents_def)
next
  show "case scr_outcome start of
       Panic msg \<Rightarrow> \<forall>r. Use r \<notin> set (scr_acts start)
     | Ret st \<Rightarrow>
         (let producers = map (\<lambda>p. KafkaClient (pr_client p)) (st_producers st);
              database = (case st_apiStore st of None \<Rightarrow> [] | Some a \<Rightarrow> [PgPool (pool (ac_db a))]);
              flagger = RedisClient (fs_db (st_flagger st)); cacher = RedisClient (cs_db (kc_CacheStore (st_cacher st)));
              group = KafkaClient (fst (st_group st))
          in scr_acts start = map Acquire (producers @ database @ [flagger, cacher, group]) @ [Use group] @
                 map Release ([group, cacher, flagger] @ database) \<and>
             left_open (scr_acts start) = mset producers)"
  proof (cases "scr_outcome start")
    case (Panic msg)
    then show ?thesis
      using unused_on_panic_StartProcessingEvents [of lib env store evaluate order provider cache]
      by (auto simp: assms unused_on_panic_def unused_def)
  next
    case (Ret st)
    then show ?thesis using StartProcessingEvents_acts [of lib env store evaluate order provider cache st]
      by (cases "st_apiStore st") (simp_all add: assms Let_def left_open_def ac_simps)
  qed
qed

section \<open>The end of main\<close>

lemma NewConnection_Ret:
  fixes lib :: "('p, 'c) pool_library"
  assumes "scr_outcome (NewConnection lib config :: (('p, 'k) resource, go_error + ('p, 'c) database) script) = Ret (Inr db)"
  shows "scr_acts (NewConnection lib config :: (('p, 'k) resource, go_error + ('p, 'c) database) script) = [Acquire (PgPool (pool db))]"
    and "scr_defers (NewConnection lib config :: (('p, 'k) resource, go_error + ('p, 'c) database) script) = []"
  using assms
  by (rule_tac NewConnection_cases [of lib config "NewConnection lib config :: (('p, 'k) resource, go_error + ('p, 'c) database) script"]; auto)+

lemma snapshot_script_Ret:
  fixes lib :: "('p, 'c) pool_library"
  assumes "scr_outcome (snapshot_script lib env snapshot :: (('p, 'k) resource, 's) script) = Ret x"
  shows "\<exists>p. scr_acts (snapshot_script lib env snapshot :: (('p, 'k) resource, 's) script) = [Acquire (PgPool p), Release (PgPool p)]"
proof -
  let ?c = "snapshot_connection lib env :: (('p, 'k) resource, go_error + ('p, 'c) database) script"
  from assms obtain db where db: "scr_outcome ?c = Ret (Inr db)"
    by (auto simp: snapshot_script_def go_bind_Ret_iff or_panic_Ret)
  then have "scr_outcome (or_panic ?c) = Ret db" by (simp add: or_panic_Ret)
  then show ?thesis using NewConnection_Ret [OF db [unfolded snapshot_connection_def]]
    by (simp add: snapshot_script_def DB_Close_def) (simp add: snapshot_connection_def)
qed

lemma snapshot_script_defers [simp]: "scr_defers (snapshot_script lib env snapshot) = []"
  by (simp add: snapshot_script_def)

lemma settled_snapshot_script: "settled (managed redis) (snapshot_script lib env snapshot)"
  unfolding snapshot_script_def snapshot_connection_def settled_basic
  by (rule settled_with_connection [OF refl]) simp

lemma start_consumers_defers [simp]: "scr_defers (start_consumers lib env cs) = []"
  by (induction lib env cs rule: start_consumers.induct)
    (simp_all add: startGenericConsumer_def split: sum.split go.split)

lemma settled_start_consumers: "settled (managed redis) (start_consumers lib env cs)"
proof (induction lib env cs rule: start_consumers.induct)
  case (2 lib env name topic model rest)
  then show ?case
    by (auto intro!: settled_bind split: sum.split)
      (simp add: settled_def startGenericConsumer_def managed_def split: sum.split)
qed simp

lemma start_consumers_Ret:
  "scr_outcome (start_consumers lib env cs :: (('p, 'k) resource, go_error + 'k list) script) = Ret (Inr clients) \<Longrightarrow>
     scr_acts (start_consumers lib env cs :: (('p, 'k) resource, go_error + 'k list) script) = map (Acquire \<circ> KafkaClient) clients \<and>
     length clients = length cs"
proof (induction cs arbitrary: clients)
  case (Cons c cs)
  obtain name topic model where c: "c = (name, topic, model)" by (cases c)
  let ?rest = "start_consumers lib env cs :: (('p, 'k) resource, go_error + 'k list) script"
  from Cons.prems c obtain client where made:
    "kgo_NewClient (lib_kafka lib) (change_client_opts env topic model (lib_uuid lib model)) = Inr client"
    by (auto simp: startGenericConsumer_def split: sum.splits)
  with Cons.prems c obtain res where res: "scr_outcome ?rest = Ret res" "map_sum id ((#) client) res = Inr clients"
    by (auto simp: startGenericConsumer_def go_bind_Ret_iff)
  then obtain clients' where "res = Inr clients'" "clients = client # clients'" by (cases res) auto
  with Cons.IH [of clients'] res(1) made c show ?case by (simp add: startGenericConsumer_def)
qed simp

lemma InitTracerProvider_Some: "\<exists>p. fst (InitTracerProvider otel env) = Some p"
  by (simp add: InitTracerProvider_def Let_def NewDatadogTracerProvider_def split_beta split: TracingProvider.split)

lemma main_cache_Ret:
  assumes "scr_outcome (main_cache lib env B opened snapshot :: (('p, 'k) resource, 'db) script) = Ret db"
  shows "\<exists>p clients. length clients = 6 \<and>
    scr_acts (main_cache lib env B opened snapshot :: (('p, 'k) resource, 'db) script) =
      [Acquire MemCache, Acquire (PgPool p), Release (PgPool p)] @ map (Acquire \<circ> KafkaClient) clients \<and>
    scr_defers (main_cache lib env B opened snapshot :: (('p, 'k) resource, 'db) script) = [Release MemCache]"
proof -
  let ?s = "snapshot_script (lib_pool lib) env snapshot :: (('p, 'k) resource, go_error list \<times> 'db) script"
  let ?c = "ConsumeChanges lib env B (env ''LAGO_DEBEZIUM_TOPIC_PREFIX'') :: (('p, 'k) resource, go_error + 'k list) script"
  obtain db0 errs clients where steps: "NewCache opened = Inr db0" "scr_outcome ?s = Ret (errs, db)" "scr_outcome (or_panic ?c) = Ret clients"
    using assms by (auto simp: main_cache_def go_bind_Ret_iff or_panic_Ret)
  obtain p where "scr_acts ?s = [Acquire (PgPool p), Release (PgPool p)]" using snapshot_script_Ret [OF steps(2)] by blast
  moreover have "scr_acts ?c = map (Acquire \<circ> KafkaClient) clients \<and> length clients = 6"
    using start_consumers_Ret [of lib env "change_consumers B (env ''LAGO_DEBEZIUM_TOPIC_PREFIX'')" clients] steps(3)
    by (simp add: ConsumeChanges_def or_panic_Ret change_consumers_def)
  moreover have "scr_outcome (or_panic (scr_open (\<lambda>_. MemCache) (NewCache opened)) :: (('p, 'k) resource, 'db) script) = Ret db0"
    using steps(1) by (simp add: or_panic_Ret)
  moreover have "scr_defers ?c = []" by (simp add: ConsumeChanges_def)
  ultimately show ?thesis using steps by (auto simp: main_cache_def)
qed

lemma settled_main_cache: "settled (managed redis) (main_cache lib env B opened snapshot)"
proof -
  have rest: "settled (managed redis) (scr_bind (snapshot_script (lib_pool lib) env snapshot) (\<lambda>(errs, db).
      scr_bind (or_panic (ConsumeChanges lib env B (env ''LAGO_DEBEZIUM_TOPIC_PREFIX''))) (\<lambda>clients. scr_return db)))"
    by (auto intro!: settled_bind simp: settled_snapshot_script ConsumeChanges_def settled_start_consumers)
  show ?thesis
  proof (cases "NewCache opened")
    case (Inl err)
    then show ?thesis by (simp add: settled_def main_cache_def or_panic_def LogAndPanic_def)
  next
    case (Inr db0)
    then show ?thesis using rest
      by (simp add: settled_def main_cache_def or_panic_def LogAndPanic_def managed_def ac_simps)
  qed
qed

lemma main_script_unfold:
  fixes lib :: "('h, 'k, 'p, 'c) libraries" and run :: "(('p, 'k) resource, ('h, 'k, 'p, 'c, 'e, 'm, 'db) started) script"
  assumes "run = main_script otel lib env store evaluate order B opened snapshot later"
  shows "(\<exists>msg. scr_outcome run = Panic msg \<and>
           scr_acts run = [Acquire RootContext, Acquire TracingLibrary, Release TracingLibrary, Release RootContext]) \<or>
    (\<exists>rest. rest = main_rest lib env store evaluate order (fst (InitTracerProvider otel env)) B opened snapshot later \<and>
       scr_outcome run = scr_outcome rest \<and>
       scr_acts run = map Acquire [RootContext, TracingLibrary, SentryClient] @ scr_acts rest @ rev (scr_defers rest) @
         map Release [SentryClient, TracingLibrary, RootContext])"
proof -
  obtain p where p: "fst (InitTracerProvider otel env) = Some p" using InitTracerProvider_Some [of otel env] by blast
  show ?thesis
    unfolding assms main_script_def Let_def p
    by (cases "InitTracer p no_tracer") simp_all
qed

lemma settled_main_rest: "settled (managed (lib_redis lib)) (main_rest lib env store evaluate order provider B opened snapshot later)"
  unfolding main_rest_def by (simp add: settled_bind settled_main_cache settled_StartProcessingEvents)

lemma StartProcessingEvents_defers [simp]: "scr_defers (StartProcessingEvents lib env store evaluate order provider cache) = []"
  by (simp add: StartProcessingEvents_def)

lemma main_rest_Ret:
  fixes lib :: "('h, 'k, 'p, 'c) libraries" and st :: "('h, 'k, 'p, 'c, 'e, 'm, 'db) started"
  assumes "rest = main_rest lib env store evaluate order provider B opened snapshot later" and "scr_outcome rest = Ret st"
  obtains before clients cache where
    "scr_outcome (StartProcessingEvents lib env store evaluate order provider cache) = Ret st"
    "scr_acts rest @ rev (scr_defers rest) = before @ scr_acts (StartProcessingEvents lib env store evaluate order provider cache
        :: (('p, 'k) resource, ('h, 'k, 'p, 'c, 'e, 'm, 'db) started) script) @ (if cache \<noteq> None then [Release MemCache] else [])"
    "cache \<noteq> None \<longleftrightarrow> env ''LAGO_USE_MEMORY_CACHE'' = ''true''" "length clients = (if cache \<noteq> None then 6 else 0)"
    "acquired before = released before + (if cache \<noteq> None then {#MemCache#} else {#}) + mset (map KafkaClient clients)"
proof (cases "env ''LAGO_USE_MEMORY_CACHE'' = ''true''")
  case False
  then show ?thesis using that [of None "[]" "[]"] assms by (simp add: main_rest_def)
next
  case True
  let ?m = "main_cache lib env B opened snapshot :: (('p, 'k) resource, 'db) script"
  obtain db where db: "scr_outcome ?m = Ret db"
    "scr_outcome (StartProcessingEvents lib env store evaluate order provider (Some (B, later db))
       :: (('p, 'k) resource, ('h, 'k, 'p, 'c, 'e, 'm, 'db) started) script) = Ret st"
    using assms True by (auto simp: main_rest_def go_bind_Ret_iff)
  obtain p clients where m: "length clients = 6"
    "scr_acts ?m = [Acquire MemCache, Acquire (PgPool p), Release (PgPool p)] @ map (Acquire \<circ> KafkaClient) clients"
    "scr_defers ?m = [Release MemCache]"
    using main_cache_Ret [OF db(1)] by blast
  show ?thesis
    by (rule that [of "Some (B, later db)" "scr_acts ?m" clients]) (use True assms db m in \<open>simp_all add: main_rest_def\<close>)
qed

lemma main_script_closes:
  fixes lib :: "('h, 'k, 'p, 'c) libraries"
    and run :: "(('p, 'k) resource, ('h, 'k, 'p, 'c, 'e, 'm, 'db) started) script"
  assumes "run = main_script otel lib env store evaluate order B opened snapshot later" and r: "managed (lib_redis lib) r"
  shows "r \<notin># left_open (scr_acts run)"
proof (cases "\<exists>msg. scr_outcome run = Panic msg \<and>
    scr_acts run = [Acquire RootContext, Acquire TracingLibrary, Release TracingLibrary, Release RootContext]")
  case True
  then show ?thesis by (auto simp: left_open_def)
next
  case False
  with main_script_unfold [OF assms(1)] obtain rest
    where rest: "rest = main_rest lib env store evaluate order (fst (InitTracerProvider otel env)) B opened snapshot later"
      "scr_acts run = map Acquire [RootContext, TracingLibrary, SentryClient] @ scr_acts rest @ rev (scr_defers rest) @
         map Release [SentryClient, TracingLibrary, RootContext]" by blast
  have "settled (managed (lib_redis lib)) rest" unfolding rest(1) by (rule settled_main_rest)
  then have "count (acquired (scr_acts (run_defers rest))) r \<le> count (released (scr_acts (run_defers rest))) r"
    using settled_left_open [of "managed (lib_redis lib)" rest r] r by (simp add: left_open_def not_in_iff)
  then show ?thesis by (simp add: rest(2) left_open_def not_in_iff)
qed

lemma main_script_Ret:
  fixes lib :: "('h, 'k, 'p, 'c) libraries" and later :: "'db \<Rightarrow> stage \<Rightarrow> 'db"
    and run :: "(('p, 'k) resource, ('h, 'k, 'p, 'c, 'e, 'm, 'db) started) script"
  assumes "run = main_script otel lib env store evaluate order B opened snapshot later" and st: "scr_outcome run = Ret st"
  shows "\<exists>before (cache :: ('db badger \<times> (stage \<Rightarrow> 'db)) option) clients.
    let start = StartProcessingEvents lib env store evaluate order (fst (InitTracerProvider otel env)) cache
          in scr_outcome start = Ret st \<and> (cache \<noteq> None \<longleftrightarrow> env ''LAGO_USE_MEMORY_CACHE'' = ''true'') \<and>
             scr_acts run = before @ scr_acts start @ map Release ((if cache \<noteq> None then [MemCache] else []) @
               [SentryClient, TracingLibrary, RootContext]) \<and>
             length clients = (if cache \<noteq> None then 6 else 0) \<and>
             left_open (scr_acts run) = mset (map KafkaClient clients) + left_open (scr_acts start)"
proof -
  let ?provider = "fst (InitTracerProvider otel env)"
  let ?start = "StartProcessingEvents lib env store evaluate order ?provider
    :: ('db badger \<times> (stage \<Rightarrow> 'db)) option \<Rightarrow> (('p, 'k) resource, ('h, 'k, 'p, 'c, 'e, 'm, 'db) started) script"
  from main_script_unfold [OF assms(1)] st obtain rest
    where rest: "rest = main_rest lib env store evaluate order ?provider B opened snapshot later"
      "scr_outcome rest = Ret st"
      "scr_acts run = map Acquire [RootContext, TracingLibrary, SentryClient] @ scr_acts rest @ rev (scr_defers rest) @
         map Release [SentryClient, TracingLibrary, RootContext]" by auto
  show ?thesis
  proof (rule main_rest_Ret [OF rest(1,2)])
    fix before clients and cache :: "('db badger \<times> (stage \<Rightarrow> 'db)) option"
    assume start: "scr_outcome (?start cache) = Ret st"
      and acts: "scr_acts rest @ rev (scr_defers rest) = before @ scr_acts (?start cache) @ (if cache \<noteq> None then [Release MemCache] else [])"
      and cache: "cache \<noteq> None \<longleftrightarrow> env ''LAGO_USE_MEMORY_CACHE'' = ''true''"
      and clients: "length clients = (if cache \<noteq> None then 6 else 0)"
      and before: "acquired before = released before + (if cache \<noteq> None then {#MemCache#} else {#}) + mset (map KafkaClient clients)"
    have run: "scr_acts run = (map Acquire [RootContext, TracingLibrary, SentryClient] @ before) @ scr_acts (?start cache) @
        map Release ((if cache \<noteq> None then [MemCache] else []) @ [SentryClient, TracingLibrary, RootContext])"
      using rest(3) acts by auto
    have "released (scr_acts (?start cache)) \<subseteq># acquired (scr_acts (?start cache))"
      using StartProcessingEvents_acts [OF start] by (cases "st_apiStore st") auto
    then have "left_open (scr_acts run) = mset (map KafkaClient clients) + left_open (scr_acts (?start cache))"
      using before by (cases "cache = None") (simp_all add: run left_open_def)
    with start run cache clients show ?thesis
      by (intro exI [of _ "map Acquire [RootContext, TracingLibrary, SentryClient] @ before"] exI [of _ cache] exI [of _ clients])
        (simp add: Let_def)
  qed
qed


text \<open>The program processes events from a cache exactly when it is asked to.\<close>

lemma main_reads_cache:
  assumes "main_run otel lib env store evaluate order B opened rows_of now later run" and "scr_outcome run = Ret st"
  shows "es_memCache (ep_Enrichment (st_processor st)) \<noteq> None \<longleftrightarrow> env ''LAGO_USE_MEMORY_CACHE'' = ''true''"
proof -
  obtain snapshot where "run = main_script otel lib env store evaluate order B opened snapshot later"
    using assms(1) unfolding main_run_def by blast
  from main_script_unfold [OF this] assms(2) obtain rest
    where rest: "rest = main_rest lib env store evaluate order (fst (InitTracerProvider otel env)) B opened snapshot later"
      "scr_outcome rest = Ret st" by auto
  show ?thesis
  proof (rule main_rest_Ret [OF rest])
    fix before clients cache
    assume start: "scr_outcome (StartProcessingEvents lib env store evaluate order (fst (InitTracerProvider otel env)) cache) = Ret st"
      and asked: "cache \<noteq> None \<longleftrightarrow> env ''LAGO_USE_MEMORY_CACHE'' = ''true''"
    have "es_memCache (ep_Enrichment (st_processor st)) = cache"
      by (rule StartProcessingEvents_steps [OF start]) (simp add: NewEventProcessor_def NewEventEnrichmentService_def)
    with asked show ?thesis by simp
  qed
qed

text \<open>
  With more than one broker the change consumers are configured differently from the event
  consumer. From a list of brokers separated by commas the event consumer and the producers get the
  list, but a change consumer gets one seed broker that is the whole text; and a change consumer
  gets no TLS and no SASL option, whatever the environment says.
\<close>
lemma change_consumers_miss_brokers:
  assumes "2 \<le> length bs" and "\<forall>b \<in> set bs. CHR '','' \<notin> set b \<and> TrimSpace b = b"
    and "env ''LAGO_KAFKA_BOOTSTRAP_SERVERS'' = join_with '','' bs"
  shows "Servers (kafka_config env provider) = bs \<and>
    SeedBrokers [join_with '','' bs] \<in> set (change_client_opts env topic model uuid) \<and>
    SeedBrokers bs \<notin> set (change_client_opts env topic model uuid) \<and>
    DialTLS \<notin> set (change_client_opts env topic model uuid) \<and>
    (\<forall>mechanism user password. SASL mechanism user password \<notin> set (change_client_opts env topic model uuid))"
proof -
  have "ParseBrokersEnv (join_with '','' bs) = bs"
    by (rule ParseBrokersEnv_join) (use assms(1,2) in auto)
  moreover have "bs \<noteq> [join_with '','' bs]"
  proof
    assume "bs = [join_with '','' bs]"
    from arg_cong [OF this, of length] assms(1) show False by simp
  qed
  ultimately show ?thesis using assms(3) by (auto simp: kafka_config_def change_client_opts_def)
qed

section \<open>A start\<close>

definition sample_env :: environment where
  "sample_env k =
     (if k = ''LAGO_KAFKA_BOOTSTRAP_SERVERS'' then ''redpanda:9092,kafka:9092''
      else if k \<in> set [''LAGO_KAFKA_ENRICHED_EVENTS_TOPIC'', ''LAGO_KAFKA_ENRICHED_EVENTS_EXPANDED_TOPIC'',
        ''LAGO_KAFKA_EVENTS_CHARGED_IN_ADVANCE_TOPIC'', ''LAGO_KAFKA_EVENTS_DEAD_LETTER_TOPIC''] then drop 11 k
      else '''')"

definition sample_libraries :: "(unit, unit, unit, unit) libraries" where
  "sample_libraries =
     \<lparr>lib_kafka = \<lparr>kgo_NewClient = (\<lambda>_. Inr ()), kgo_Ping = (\<lambda>_. None), kotel_Hooks = (\<lambda>_. [])\<rparr>,
      lib_redis = \<lparr>redis_Ping = (\<lambda>_. None), redis_InstrumentTracing = (\<lambda>_. None)\<rparr>,
      lib_pool = \<lparr>pgxpool_ParseConfig = (\<lambda>s. Inr s), pgxpool_New = (\<lambda>_ _. Inr ()), gorm_Open = (\<lambda>_. Inr ())\<rparr>,
      lib_uuid = (\<lambda>_. ''0'')\<rparr>"

definition sample_start :: "((unit, unit) resource, (unit, unit, unit, unit, unit, unit, ref_db) started) script" where
  "sample_start = StartProcessingEvents sample_libraries sample_env (\<lambda>_ _. sample_api_store) (\<lambda>_ _. None) (\<lambda>xs. xs) None None"

lemma sample_start_returns: "\<exists>st. scr_outcome sample_start = Ret st \<and> length (st_producers st) = 4"
proof -
  have "case scr_outcome sample_start of Ret st \<Rightarrow> length (st_producers st) = 4 | Panic msg \<Rightarrow> False" by code_simp
  then show ?thesis by (auto split: go.splits)
qed


theorem StartProcessingEvents_closes_witness:
  "left_open (scr_acts sample_start) = {#KafkaClient (), KafkaClient (), KafkaClient (), KafkaClient ()#} \<and>
   PgPool () \<notin># left_open (scr_acts sample_start)"
proof -
  obtain st where st: "scr_outcome sample_start = Ret st" "length (st_producers st) = 4" using sample_start_returns by blast
  have same: "map (\<lambda>p. KafkaClient (pr_client p)) (st_producers st) = replicate 4 (KafkaClient ())"
    using st(2) by (simp add: map_replicate_const)
  note closes = StartProcessingEvents_closes [OF sample_start_def]
  have "left_open (scr_acts sample_start) = mset (map (\<lambda>p. KafkaClient (pr_client p)) (st_producers st))"
    by (rule closes [THEN conjunct2, unfolded st(1) go.case Let_def, THEN conjunct2])
  then have "left_open (scr_acts sample_start) = mset (replicate 4 (KafkaClient ()))" unfolding same .
  moreover have "PgPool () \<notin># left_open (scr_acts sample_start)" using closes [THEN conjunct1] by (simp add: managed_def)
  ultimately show ?thesis by (simp add: numeral_eq_Suc)
qed

text \<open>The same environment with the cache; the tables are empty.\<close>

definition empty_rows :: "unit \<Rightarrow> database_rows" where
  "empty_rows _ =
     \<lparr>db_billable_metrics = (\<lambda>_ _ _. Inr ([], None)), db_subscriptions = (\<lambda>_ _ _. Inr ([], None)),
      db_charges = (\<lambda>_ _ _. Inr ([], None)), db_billable_metric_filters = (\<lambda>_ _ _. Inr ([], None)),
      db_charge_filters = (\<lambda>_ _ _. Inr ([], None)), db_charge_filter_values = (\<lambda>_ _ _. Inr ([], None))\<rparr>"

definition cached_env :: environment where
  "cached_env = sample_env(''LAGO_USE_MEMORY_CACHE'' := ''true'')"

definition sample_main :: "((unit, unit) resource, (unit, unit, unit, unit, unit, unit, ref_db) started) script" where
  "sample_main = main_script \<lparr>otlptrace_New = (\<lambda>_. Inr ()), otlpmetric_New = (\<lambda>_. Inr ()), resource_New = (\<lambda>_. None),
       exporter_Shutdown = (\<lambda>_. None), meter_Shutdown = (\<lambda>_. None)\<rparr>
     sample_libraries cached_env (\<lambda>_ _. sample_api_store) (\<lambda>_ _. None) (\<lambda>xs. xs) ref_badger (Inr (ref_empty 0))
     (Ret ([], ref_empty 0)) (\<lambda>db _. db)"

lemma sample_main_run:
  "main_run \<lparr>otlptrace_New = (\<lambda>_. Inr ()), otlpmetric_New = (\<lambda>_. Inr ()), resource_New = (\<lambda>_. None),
       exporter_Shutdown = (\<lambda>_. None), meter_Shutdown = (\<lambda>_. None)\<rparr>
     sample_libraries cached_env (\<lambda>_ _. sample_api_store) (\<lambda>_ _. None) (\<lambda>xs. xs) ref_badger (Inr (ref_empty 0)) empty_rows 0
     (\<lambda>db _. db) sample_main"
proof -
  have none: "concat (snapshot_goroutines (empty_rows u) 0) = []" for u by code_simp
  have "[] \<in> interleavings (snapshot_goroutines (empty_rows u) 0)" for u
    using concat_interleaving [of "snapshot_goroutines (empty_rows u) 0"] unfolding none .
  then have "LoadInitialSnapshot (Inr (empty_rows u)) 0 ref_badger (ref_empty 0) (Ret ([], ref_empty 0))" for u
    by (auto simp: LoadInitialSnapshot_def intro!: bexI [of _ "[]"])
  then show ?thesis unfolding main_run_def sample_main_def
    by (intro exI [of _ "Ret ([], ref_empty 0)"] conjI refl) (simp add: NewCache_def)
qed

end
